(* ===== verification/Prelude.thy ===== *)
theory Prelude
  imports Main "HOL-Library.Word" "HOL-Library.Multiset" "HOL-Library.AList"
begin

text \<open>
  Shared vocabulary of the development: what a Rust computation can do (return, panic, run
  forever), the \<open>loop\<close> construct, the standard-library containers the client uses (\<open>Vec\<close>,
  \<open>VecDeque\<close>, \<open>HashMap\<close>, \<open>HashSet\<close>), non-zero integers, and the generic lemmas about
  them that the component theories rest on.
\<close>

named_theorems run_simps \<open>evaluation of runs and loops\<close>

section \<open>Runs, errors and loops\<close>

text \<open>
  A call returns, panics (a failed \<open>unwrap\<close>, an \<open>unreachable!\<close>), or never returns. A Rust
  \<open>Result\<close> is a sum, \<open>Inl\<close> the error.
\<close>

datatype 'a run = Ret 'a | Panic | Diverge

text \<open>
  One turn of a \<open>loop { .. }\<close>: go round again with a new state, leave the loop with a value
  (\<open>break\<close> or \<open>return\<close>), panic, or hang in a call that never returns.
\<close>

datatype ('s, 'a) flow = Continue 's | Break 'a 's | Panicking | Diverging

partial_function (option) loop_opt :: "('s \<Rightarrow> ('s, 'a) flow) \<Rightarrow> 's \<Rightarrow> ('a \<times> 's) run option" where
  "loop_opt body s =
     (case body s of
        Continue s' \<Rightarrow> loop_opt body s'
      | Break a s' \<Rightarrow> Some (Ret (a, s'))
      | Panicking \<Rightarrow> Some Panic
      | Diverging \<Rightarrow> None)"

definition rust_loop :: "('s \<Rightarrow> ('s, 'a) flow) \<Rightarrow> 's \<Rightarrow> ('a \<times> 's) run" where
  "rust_loop body s = (case loop_opt body s of None \<Rightarrow> Diverge | Some r \<Rightarrow> r)"

lemma rust_loop_unfold:
  "rust_loop body s =
     (case body s of
        Continue s' \<Rightarrow> rust_loop body s'
      | Break a s' \<Rightarrow> Ret (a, s')
      | Panicking \<Rightarrow> Panic
      | Diverging \<Rightarrow> Diverge)"
  unfolding rust_loop_def by (subst loop_opt.simps) (simp split: flow.split)

lemma rust_loop_Continue [run_simps]: "body s = Continue s' \<Longrightarrow> rust_loop body s = rust_loop body s'"
  by (subst rust_loop_unfold) simp

lemma rust_loop_Break [run_simps]: "body s = Break a s' \<Longrightarrow> rust_loop body s = Ret (a, s')"
  by (subst rust_loop_unfold) simp

lemma rust_loop_Panicking [run_simps]: "body s = Panicking \<Longrightarrow> rust_loop body s = Panic"
  by (subst rust_loop_unfold) simp

lemma rust_loop_Diverging [run_simps]: "body s = Diverging \<Longrightarrow> rust_loop body s = Diverge"
  by (subst rust_loop_unfold) simp

text \<open>The states a loop passes through, and how each outcome is reached.\<close>

inductive continues :: "('s \<Rightarrow> ('s, 'a) flow) \<Rightarrow> 's \<Rightarrow> 's \<Rightarrow> bool" for body where
  here: "continues body s s"
| turn: "body s = Continue s' \<Longrightarrow> continues body s' t \<Longrightarrow> continues body s t"

inductive_simps continues_unfold: "continues body s t"

lemma continues_rust_loop: "continues body s t \<Longrightarrow> rust_loop body s = rust_loop body t"
  by (induction rule: continues.induct) (simp_all add: run_simps)

lemma loop_opt_reached:
  fixes body :: "'s \<Rightarrow> ('s, 'a) flow"
  assumes "loop_opt body s = Some r"
  shows "\<exists>t. continues body s t \<and>
    ((\<exists>a s'. body t = Break a s' \<and> r = Ret (a, s')) \<or> (body t = Panicking \<and> r = Panic))"
proof (rule loop_opt.raw_induct [where P = "\<lambda>b s r. b = body \<longrightarrow> (\<exists>t. continues body s t \<and>
    ((\<exists>a s'. body t = Break a s' \<and> r = Ret (a, s')) \<or> (body t = Panicking \<and> r = Panic)))",
    OF _ assms, THEN mp, OF _ refl], intro impI)
  fix f :: "('s \<Rightarrow> ('s, 'a) flow) \<Rightarrow> 's \<Rightarrow> ('a \<times> 's) run option" and b s r
  assume IH: "\<And>b s r. f b s = Some r \<Longrightarrow> b = body \<longrightarrow> (\<exists>t. continues body s t \<and>
      ((\<exists>a s'. body t = Break a s' \<and> r = Ret (a, s')) \<or> (body t = Panicking \<and> r = Panic)))"
    and eq: "(case b s of Continue s' \<Rightarrow> f b s' | Break a s' \<Rightarrow> Some (Ret (a, s'))
      | Panicking \<Rightarrow> Some Panic | Diverging \<Rightarrow> None) = Some r"
    and "b = body"
  then show "\<exists>t. continues body s t \<and>
      ((\<exists>a s'. body t = Break a s' \<and> r = Ret (a, s')) \<or> (body t = Panicking \<and> r = Panic))"
    by (cases "body s") (fastforce intro: continues.intros dest: IH)+
qed

lemma rust_loop_Ret_reached:
  "rust_loop body s = Ret (a, s') \<Longrightarrow> \<exists>t. continues body s t \<and> body t = Break a s'"
  using loop_opt_reached [of body s] by (auto simp: rust_loop_def split: option.splits)

lemma rust_loop_Panic_reached:
  "rust_loop body s = Panic \<Longrightarrow> \<exists>t. continues body s t \<and> body t = Panicking"
  using loop_opt_reached [of body s] by (auto simp: rust_loop_def split: option.splits)

lemma continues_invariant:
  assumes "continues body s t" and "I s"
    and "\<And>s s'. I s \<Longrightarrow> body s = Continue s' \<Longrightarrow> I s'"
  shows "I t"
  using assms by (induction rule: continues.induct) auto

text \<open>Two states from which a turn does the same are as good as each other.\<close>

lemma rust_loop_same_turn: "body s = body t \<Longrightarrow> rust_loop body s = rust_loop body t"
  by (simp only: rust_loop_unfold [of body s] rust_loop_unfold [of body t])

lemma rust_loop_rule:
  assumes "rust_loop body s = Ret (a, s')" and "I s"
    and "\<And>s s'. I s \<Longrightarrow> body s = Continue s' \<Longrightarrow> I s'"
    and "\<And>s a s'. I s \<Longrightarrow> body s = Break a s' \<Longrightarrow> post a s'"
  shows "post a s'"
  using rust_loop_Ret_reached [OF assms(1)] continues_invariant [of body s _ I] assms(2-4)
  by metis

lemma rust_loop_safe:
  assumes "I s" and "\<And>s s'. I s \<Longrightarrow> body s = Continue s' \<Longrightarrow> I s'"
    and "\<And>s. I s \<Longrightarrow> body s \<noteq> Panicking"
  shows "rust_loop body s \<noteq> Panic"
  using rust_loop_Panic_reached [of body s] continues_invariant [of body s _ I] assms
  by metis

text \<open>
  Loops whose states are related by a function: when the turns agree under \<open>\<alpha>\<close>, so do the loops.
\<close>

definition map_flow :: "('s \<Rightarrow> 't) \<Rightarrow> ('s, 'a) flow \<Rightarrow> ('t, 'a) flow" where
  "map_flow \<alpha> fl =
     (case fl of
        Continue s \<Rightarrow> Continue (\<alpha> s)
      | Break a s \<Rightarrow> Break a (\<alpha> s)
      | Panicking \<Rightarrow> Panicking
      | Diverging \<Rightarrow> Diverging)"

definition map_end :: "('s \<Rightarrow> 't) \<Rightarrow> ('a \<times> 's) run \<Rightarrow> ('a \<times> 't) run" where
  "map_end \<alpha> r = (case r of Ret (a, s) \<Rightarrow> Ret (a, \<alpha> s) | Panic \<Rightarrow> Panic | Diverge \<Rightarrow> Diverge)"

lemma map_end_simps [simp]:
  "map_end \<alpha> (Ret (a, s)) = Ret (a, \<alpha> s)" "map_end \<alpha> Panic = Panic" "map_end \<alpha> Diverge = Diverge"
  by (simp_all add: map_end_def)

lemma continues_image:
  assumes sim: "\<And>s. body1 (\<alpha> s) = map_flow \<alpha> (body2 s)"
  shows "continues body2 s t \<Longrightarrow> continues body1 (\<alpha> s) (\<alpha> t)"
    and "continues body1 u v \<Longrightarrow> u = \<alpha> s \<Longrightarrow> \<exists>t. continues body2 s t \<and> v = \<alpha> t"
proof -
  show "continues body2 s t \<Longrightarrow> continues body1 (\<alpha> s) (\<alpha> t)"
    by (induction rule: continues.induct) (auto intro: continues.intros simp: sim map_flow_def)
  show "continues body1 u v \<Longrightarrow> u = \<alpha> s \<Longrightarrow> \<exists>t. continues body2 s t \<and> v = \<alpha> t"
  proof (induction arbitrary: s rule: continues.induct)
    case (turn u u' v)
    from turn.hyps(1) turn.prems sim [of s] obtain s' where "body2 s = Continue s'" "u' = \<alpha> s'"
      by (auto simp: map_flow_def split: flow.splits)
    with turn.IH show ?case by (blast intro: continues.turn)
  qed (blast intro: continues.here)
qed

lemma rust_loop_image:
  assumes sim: "\<And>s. body1 (\<alpha> s) = map_flow \<alpha> (body2 s)"
  shows "rust_loop body1 (\<alpha> s) = map_end \<alpha> (rust_loop body2 s)"
proof (cases "rust_loop body2 s")
  case (Ret p)
  obtain a s' where p: "p = (a, s')" by (cases p)
  with rust_loop_Ret_reached Ret obtain t where t: "continues body2 s t" "body2 t = Break a s'" by metis
  then have "rust_loop body1 (\<alpha> s) = Ret (a, \<alpha> s')"
    using continues_rust_loop [OF continues_image(1) [of body1 \<alpha> body2, OF sim t(1)]] sim [of t]
    by (simp add: map_flow_def run_simps)
  with Ret p show ?thesis by simp
next
  case Panic
  with rust_loop_Panic_reached obtain t where t: "continues body2 s t" "body2 t = Panicking" by metis
  then have "rust_loop body1 (\<alpha> s) = Panic"
    using continues_rust_loop [OF continues_image(1) [of body1 \<alpha> body2, OF sim t(1)]] sim [of t]
    by (simp add: map_flow_def run_simps)
  with Panic show ?thesis by simp
next
  case Diverge
  have "rust_loop body1 (\<alpha> s) = Diverge"
  proof (rule ccontr)
    assume "rust_loop body1 (\<alpha> s) \<noteq> Diverge"
    then obtain v where v: "continues body1 (\<alpha> s) v" and stop: "(\<exists>a s'. body1 v = Break a s') \<or> body1 v = Panicking"
      using rust_loop_Ret_reached [of body1 "\<alpha> s"] rust_loop_Panic_reached [of body1 "\<alpha> s"]
      by (cases "rust_loop body1 (\<alpha> s)") auto
    from continues_image(2) [of body1 \<alpha> body2, OF sim v refl] obtain t
      where "continues body2 s t" "v = \<alpha> t" by blast
    with stop sim [of t] continues_rust_loop [of body2 s t] Diverge show False
      by (auto simp: map_flow_def run_simps split: flow.splits)
  qed
  with Diverge show ?thesis by simp
qed

lemma rust_loop_terminates:
  fixes m :: "'s \<Rightarrow> nat"
  assumes "I s"
    and "\<And>s s'. I s \<Longrightarrow> body s = Continue s' \<Longrightarrow> I s' \<and> m s' < m s"
    and "\<And>s. I s \<Longrightarrow> body s \<noteq> Diverging"
  shows "rust_loop body s \<noteq> Diverge"
  using assms(1)
proof (induction s rule: measure_induct_rule [where f = m])
  case (less s)
  then show ?case
    using assms(2,3) [OF less.prems] by (subst rust_loop_unfold) (auto split: flow.split)
qed

section \<open>Vectors and queues\<close>

text \<open>\<open>Iterator::find_map\<close>, \<open>Iterator::position\<close> and \<open>VecDeque::remove\<close>.\<close>

fun find_map :: "('a \<Rightarrow> 'b option) \<Rightarrow> 'a list \<Rightarrow> 'b option" where
  "find_map f [] = None"
| "find_map f (x # xs) = (case f x of Some y \<Rightarrow> Some y | None \<Rightarrow> find_map f xs)"

fun position :: "('a \<Rightarrow> bool) \<Rightarrow> 'a list \<Rightarrow> nat option" where
  "position p [] = None"
| "position p (x # xs) = (if p x then Some 0 else map_option Suc (position p xs))"

definition vec_remove :: "nat \<Rightarrow> 'a list \<Rightarrow> ('a \<times> 'a list) option" where
  "vec_remove i xs = (if i < length xs then Some (xs ! i, take i xs @ drop (Suc i) xs) else None)"

lemma find_map_None: "find_map f xs = None \<longleftrightarrow> (\<forall>x \<in> set xs. f x = None)"
  by (induction xs) (auto split: option.splits)

lemma find_map_Some:
  "find_map f xs = Some y \<Longrightarrow>
     \<exists>us x vs. xs = us @ x # vs \<and> f x = Some y \<and> (\<forall>u \<in> set us. f u = None)"
proof (induction xs)
  case (Cons z zs)
  show ?case
  proof (cases "f z")
    case None
    with Cons obtain us x vs where "zs = us @ x # vs" "f x = Some y" "\<forall>u \<in> set us. f u = None"
      by auto
    with None show ?thesis
      by (intro exI [of _ "z # us"] exI [of _ x] exI [of _ vs]) simp
  next
    case (Some w)
    with Cons.prems show ?thesis
      by (intro exI [of _ "[]"] exI [of _ z] exI [of _ zs]) simp
  qed
qed simp

lemma find_map_append:
  "find_map f (xs @ ys) = (case find_map f xs of Some y \<Rightarrow> Some y | None \<Rightarrow> find_map f ys)"
  by (induction xs) (auto split: option.split)

lemma position_None: "position p xs = None \<longleftrightarrow> (\<forall>x \<in> set xs. \<not> p x)"
  by (induction xs) auto

lemma position_Some:
  "position p xs = Some i \<Longrightarrow>
     i < length xs \<and> p (xs ! i) \<and> (\<forall>u \<in> set (take i xs). \<not> p u)"
  by (induction xs arbitrary: i) (auto split: if_splits)

text \<open>Look an element up by position, then remove it: the pattern of both \<open>remove_by_\<close> methods.\<close>

definition remove_first :: "('a \<Rightarrow> bool) \<Rightarrow> 'a list \<Rightarrow> ('a \<times> 'a list) option" where
  "remove_first p xs = (case position p xs of None \<Rightarrow> None | Some i \<Rightarrow> vec_remove i xs)"

lemma remove_first_None [simp]: "remove_first p xs = None \<longleftrightarrow> (\<forall>x \<in> set xs. \<not> p x)"
proof (cases "position p xs")
  case None
  then show ?thesis by (simp add: remove_first_def position_None [symmetric])
next
  case (Some i)
  with position_Some [OF Some] have "remove_first p xs \<noteq> None" "\<exists>x \<in> set xs. p x"
    by (auto simp: remove_first_def vec_remove_def)
  then show ?thesis by auto
qed

lemma remove_first_Some:
  assumes "remove_first p xs = Some (x, ys)"
  obtains us vs where "xs = us @ x # vs" "ys = us @ vs" "p x" "\<forall>u \<in> set us. \<not> p u"
proof -
  from assms obtain i where i: "position p xs = Some i" and "i < length xs"
    and "x = xs ! i" and "ys = take i xs @ drop (Suc i) xs"
    by (auto simp: remove_first_def vec_remove_def split: option.splits if_splits)
  with that [of "take i xs" "drop (Suc i) xs"] position_Some [OF i] show thesis
    by (simp add: id_take_nth_drop)
qed

lemma remove_first_Cons [simp]:
  "remove_first p (x # xs) =
     (if p x then Some (x, xs) else map_option (\<lambda>(y, ys). (y, x # ys)) (remove_first p xs))"
  by (cases "position p xs") (simp_all add: remove_first_def vec_remove_def)

lemma remove_first_Nil [simp]: "remove_first p [] = None"
  by (simp add: remove_first_def)

lemma remove_first_keyD:
  "remove_first (\<lambda>e. f e = k) xs = Some (x, ys) \<Longrightarrow>
     \<exists>us vs. xs = us @ x # vs \<and> ys = us @ vs \<and> f x = k \<and> k \<notin> f ` set us"
  by (erule remove_first_Some, intro exI conjI) auto

lemma remove_first_mset:
  "remove_first p xs = Some (x, ys) \<Longrightarrow> mset xs = add_mset x (mset ys)"
  by (auto elim!: remove_first_Some)

lemma remove_first_satisfies: "remove_first p xs = Some (x, ys) \<Longrightarrow> p x"
  by (auto elim!: remove_first_Some)

lemma remove_first_map:
  "remove_first p (map f xs) = map_option (\<lambda>(x, ys). (f x, map f ys)) (remove_first (p \<circ> f) xs)"
  by (induction xs) (auto simp: option.map_comp comp_def split_def)

section \<open>Non-zero integers\<close>

text \<open>\<open>NonZeroU32\<close> and \<open>NonZeroU64\<close>: the words of a width other than zero.\<close>

typedef (overloaded) ('l::len) nonzero = "{w :: 'l word. w \<noteq> 0}"
  morphisms nz_get Abs_nonzero
  by (rule exI [of _ 1]) simp

setup_lifting type_definition_nonzero

type_synonym u8 = "8 word"
type_synonym u16 = "16 word"
type_synonym u32 = "32 word"
type_synonym u64 = "64 word"
type_synonym nz_u32 = "32 nonzero"
type_synonym nz_u64 = "64 nonzero"

definition nz_new :: "'l::len word \<Rightarrow> 'l nonzero option" where
  "nz_new w = (if w = 0 then None else Some (Abs_nonzero w))"

lemma Abs_nonzero_eq [simp]:
  "a \<noteq> 0 \<Longrightarrow> b \<noteq> 0 \<Longrightarrow> Abs_nonzero a = Abs_nonzero b \<longleftrightarrow> a = b"
  by (simp add: Abs_nonzero_inject)

lemma nz_get_Abs [simp]: "a \<noteq> 0 \<Longrightarrow> nz_get (Abs_nonzero a) = a"
  by (simp add: Abs_nonzero_inverse)

lemma nz_get_nonzero [simp]: "nz_get n \<noteq> 0"
  using nz_get by blast

instantiation nonzero :: (len) equal
begin

definition equal_nonzero :: "'a nonzero \<Rightarrow> 'a nonzero \<Rightarrow> bool" where
  "equal_nonzero a b \<longleftrightarrow> nz_get a = nz_get b"

instance
  by standard (simp add: equal_nonzero_def nz_get_inject)

end

instantiation nonzero :: (len) linorder
begin

definition less_eq_nonzero :: "'a nonzero \<Rightarrow> 'a nonzero \<Rightarrow> bool" where
  "a \<le> b \<longleftrightarrow> nz_get a \<le> nz_get b"

definition less_nonzero :: "'a nonzero \<Rightarrow> 'a nonzero \<Rightarrow> bool" where
  "a < b \<longleftrightarrow> nz_get a < nz_get b"

instance
  by standard (auto simp: less_eq_nonzero_def less_nonzero_def simp flip: nz_get_inject)

end

section \<open>Bytes\<close>

text \<open>A byte is HOL's 8-bit \<open>char\<close>, so byte strings have the literals \<open>''abc''\<close>.\<close>

type_synonym byte = char
type_synonym bytes = string

text \<open>\<open>slice::split\<close> at every occurrence of a separator, and ASCII case folding.\<close>

fun split_on :: "'a \<Rightarrow> 'a list \<Rightarrow> 'a list list" where
  "split_on c [] = [[]]"
| "split_on c (x # xs) =
     (if x = c then [] # split_on c xs
      else (case split_on c xs of [] \<Rightarrow> [[x]] | f # fs \<Rightarrow> (x # f) # fs))"

definition to_ascii_lowercase :: "byte \<Rightarrow> byte" where
  "to_ascii_lowercase c =
     (let n = (of_char c :: nat) in if 65 \<le> n \<and> n \<le> 90 then char_of (n + 32) else c)"

definition eq_ignore_ascii_case :: "bytes \<Rightarrow> bytes \<Rightarrow> bool" where
  "eq_ignore_ascii_case xs ys \<longleftrightarrow> map to_ascii_lowercase xs = map to_ascii_lowercase ys"

lemma split_on_nonempty: "split_on c xs \<noteq> []"
  by (induction xs) (auto split: list.splits)

lemma split_on_field:
  "c \<notin> set us \<Longrightarrow> split_on c (us @ c # vs) = us # split_on c vs"
  by (induction us) auto

lemma split_on_last: "c \<notin> set us \<Longrightarrow> split_on c us = [us]"
  by (induction us) auto

end
