(* ===== verification/Containers.thy ===== *)
theory Containers
  imports Prelude
begin

text \<open>
  \<open>std::collections::HashMap\<close> and \<open>HashSet\<close>. A table is the list of its entries in the order an
  iteration meets them. That order is not specified: every insertion may rearrange the whole
  table. A value of \<open>iter_order\<close> is one way of arranging tables, and nothing is assumed of
  it except that it neither drops nor duplicates an entry, so what holds for every
  \<open>iter_order\<close> holds whatever the hasher does.
\<close>

section \<open>Iteration orders\<close>

typedef 'a iter_order = "{f :: 'a list \<Rightarrow> 'a list. \<forall>xs. mset (f xs) = mset xs}"
  morphisms arrange Abs_iter_order
  by (rule exI [of _ "\<lambda>xs. xs"]) simp

setup_lifting type_definition_iter_order

lift_definition insertion_order :: "'a iter_order" is "\<lambda>xs. xs"
  by simp

lift_definition reverse_order :: "'a iter_order" is rev
  by simp

lemma arrange_insertion_order [simp]: "arrange insertion_order xs = xs"
  by transfer simp

lemma arrange_reverse_order [simp]: "arrange reverse_order xs = rev xs"
  by transfer simp

lemma mset_arrange [simp]: "mset (arrange ord xs) = mset xs"
  using arrange [of ord] by simp

lemma set_arrange [simp]: "set (arrange ord xs) = set xs"
  by (metis mset_arrange set_mset_mset)

lemma length_arrange [simp]: "length (arrange ord xs) = length xs"
  by (metis mset_arrange size_mset)

lemma arrange_Nil [simp]: "arrange ord [] = []"
  by (metis length_arrange length_0_conv)

lemma distinct_arrange [simp]: "distinct (arrange ord xs) = distinct xs"
  by (metis mset_arrange mset_eq_imp_distinct_iff)

lemma distinct_keys_arrange [simp]:
  "distinct (map fst (arrange ord m)) = distinct (map fst m)"
  by (metis mset_arrange mset_eq_imp_distinct_iff mset_map)

lemma map_of_arrange [simp]:
  "distinct (map fst m) \<Longrightarrow> map_of (arrange ord m) = map_of m"
  by (rule map_of_inject_set [THEN iffD2]) auto

section \<open>Hash maps and hash sets\<close>

type_synonym ('k, 'v) hash_map = "('k \<times> 'v) list"
type_synonym 'a hash_set = "'a list"

definition hm_insert ::
    "('k \<times> 'v) iter_order \<Rightarrow> 'k \<Rightarrow> 'v \<Rightarrow> ('k, 'v) hash_map \<Rightarrow> ('k, 'v) hash_map" where
  "hm_insert ord k v m = arrange ord (AList.update k v m)"

definition hm_extend ::
    "('k \<times> 'v) iter_order \<Rightarrow> ('k \<times> 'v) list \<Rightarrow> ('k, 'v) hash_map \<Rightarrow> ('k, 'v) hash_map" where
  "hm_extend ord kvs m = fold (\<lambda>(k, v). hm_insert ord k v) kvs m"

definition hs_insert :: "'a iter_order \<Rightarrow> 'a \<Rightarrow> 'a hash_set \<Rightarrow> 'a hash_set" where
  "hs_insert ord x s = (if x \<in> set s then s else arrange ord (x # s))"

definition hs_extend :: "'a iter_order \<Rightarrow> 'a list \<Rightarrow> 'a hash_set \<Rightarrow> 'a hash_set" where
  "hs_extend ord xs s = fold (hs_insert ord) xs s"

definition hm_valid :: "('k, 'v) hash_map \<Rightarrow> bool" where
  "hm_valid m \<longleftrightarrow> distinct (map fst m)"

text \<open>
  What a client of a table relies on: reading after an insertion or a removal, and that an
  iteration meets each entry once.
\<close>

locale table =
  fixes empty :: "'m"
    and get :: "'m \<Rightarrow> 'k \<Rightarrow> 'v option"
    and ins :: "'k \<Rightarrow> 'v \<Rightarrow> 'm \<Rightarrow> 'm"
    and rem :: "'k \<Rightarrow> 'm \<Rightarrow> 'm"
    and entries :: "'m \<Rightarrow> ('k \<times> 'v) list"
    and valid :: "'m \<Rightarrow> bool"
  assumes get_empty: "get empty = Map.empty"
    and get_ins: "valid m \<Longrightarrow> get (ins k v m) = (get m)(k \<mapsto> v)"
    and get_rem: "valid m \<Longrightarrow> get (rem k m) = (get m)(k := None)"
    and map_of_entries: "valid m \<Longrightarrow> map_of (entries m) = get m"
    and distinct_entries: "valid m \<Longrightarrow> distinct (map fst (entries m))"
    and valid_empty: "valid empty"
    and valid_ins: "valid m \<Longrightarrow> valid (ins k v m)"
    and valid_rem: "valid m \<Longrightarrow> valid (rem k m)"
begin

lemma valid_fold_ins: "valid m \<Longrightarrow> valid (fold (\<lambda>(k, v). ins k v) kvs m)"
  by (induction kvs arbitrary: m) (auto simp: valid_ins)

lemma get_fold_ins:
  "valid m \<Longrightarrow> get (fold (\<lambda>(k, v). ins k v) kvs m) = get m ++ map_of (rev kvs)"
  by (induction kvs arbitrary: m) (auto simp: valid_ins get_ins)

lemma get_fold_ins_distinct:
  assumes "valid m" and "distinct (map fst kvs)"
  shows "get (fold (\<lambda>(k, v). ins k v) kvs m) = get m ++ map_of kvs"
proof -
  have "map_of (rev kvs) = map_of kvs"
    using assms(2) by (intro map_of_inject_set [THEN iffD2]) (auto simp: rev_map [symmetric])
  with assms(1) show ?thesis by (simp add: get_fold_ins)
qed

lemma set_entries: "valid m \<Longrightarrow> (k, v) \<in> set (entries m) \<longleftrightarrow> get m k = Some v"
  by (metis map_of_entries distinct_entries map_of_eq_Some_iff)

lemma entry_values: "valid m \<Longrightarrow> set (map snd (entries m)) = ran (get m)"
  by (metis map_of_entries distinct_entries ran_distinct list.set_map)

lemma entry_keys: "valid m \<Longrightarrow> set (map fst (entries m)) = dom (get m)"
  by (metis map_of_entries dom_map_of_conv_image_fst list.set_map)

end

lemma map_of_AList_update: "map_of (AList.update k v m) = (map_of m)(k \<mapsto> v)"
  by (rule update_conv')

interpretation hm: table "[]" map_of "hm_insert ord" AList.delete "\<lambda>m. m" hm_valid
  for ord :: "('k \<times> 'v) iter_order"
  by unfold_locales
    (auto simp: hm_insert_def hm_valid_def distinct_update map_of_AList_update delete_conv'
      distinct_delete)

lemma hm_extend_get:
  "hm_valid m \<Longrightarrow> map_of (hm_extend ord kvs m) = map_of m ++ map_of (rev kvs)"
  unfolding hm_extend_def by (rule hm.get_fold_ins)

lemma hm_extend_get_distinct:
  "hm_valid m \<Longrightarrow> distinct (map fst kvs) \<Longrightarrow> map_of (hm_extend ord kvs m) = map_of m ++ map_of kvs"
  unfolding hm_extend_def by (rule hm.get_fold_ins_distinct)

lemma hm_extend_valid: "hm_valid m \<Longrightarrow> hm_valid (hm_extend ord kvs m)"
  unfolding hm_extend_def by (rule hm.valid_fold_ins)

lemma hs_insert_set [simp]: "set (hs_insert ord x s) = insert x (set s)"
  by (auto simp: hs_insert_def)

lemma hs_insert_distinct: "distinct s \<Longrightarrow> distinct (hs_insert ord x s)"
  by (simp add: hs_insert_def)

lemma hs_extend_set [simp]: "set (hs_extend ord xs s) = set xs \<union> set s"
  by (induction xs arbitrary: s) (auto simp: hs_extend_def)

lemma hs_extend_distinct: "distinct s \<Longrightarrow> distinct (hs_extend ord xs s)"
  by (induction xs arbitrary: s) (auto simp: hs_extend_def hs_insert_distinct)

end
