(* ===== verification/Imap_Types.thy ===== *)
theory Imap_Types
  imports Containers
begin

text \<open>
  The values of \<open>imap_next::imap_types\<close> and of \<open>imap_next::client\<close> that the client takes apart
  or builds: the variants the source names, each with the fields the source uses, and one
  \<open>_Other\<close> constructor per enum for the variants it never names. What the client only stores,
  clones and passes on (mailboxes, charsets, sequence sets, search keys, texts, ..) is the type
  parameter \<open>'v\<close>. A \<open>Vec1\<close> is a list; where its non-emptiness matters it is a hypothesis.
  Functions of the two crates that the client calls are fields of the records \<open>lib\<close> and
  \<open>next_client\<close>, which every definition that calls them takes as an argument.
\<close>

section \<open>Core values\<close>

type_synonym tag = string
type_synonym handle = nat \<comment> \<open>\<open>CommandHandle\<close>: an identity, only ever compared for equality\<close>

datatype 'v auth_mechanism =
    Mech_Plain | Mech_OAuthBearer | Mech_XOAuth2 | Mech_Other 'v

datatype 'v capability =
    Cap_Imap4Rev1 | Cap_Auth "'v auth_mechanism" | Cap_LoginDisabled | Cap_Enable | Cap_SaslIr
  | Cap_Id | Cap_UidPlus | Cap_Sort 'v | Cap_Thread 'v | Cap_Idle | Cap_Binary | Cap_Move
  | Cap_CondStore | Cap_QResync | Cap_Other 'v

datatype 'v capability_enable = CapEnable_CondStore | CapEnable_Other 'v

datatype 'v flag = Flag_Deleted | Flag_Other 'v

text \<open>An \<open>IString\<close>: how it is written (literal or quoted), and the bytes \<open>as_ref\<close> gives.\<close>

datatype 'v istring = IString 'v (istring_bytes: bytes)

section \<open>Responses\<close>

datatype 'v code =
    Code_Capability "'v capability list"
  | Code_Unseen nz_u32
  | Code_PermanentFlags "'v list"
  | Code_UidNext nz_u32
  | Code_UidValidity nz_u32
  | Code_HighestModSeq nz_u64
  | Code_AppendUid (appenduid_uid: nz_u32) (appenduid_uid_validity: nz_u32)
  | Code_Other 'v

datatype status_kind = Kind_Ok | Kind_No | Kind_Bad

record 'v status_body =
  sb_kind :: status_kind
  sb_code :: "'v code option"
  sb_text :: 'v

datatype 'v status =
    Status_Untagged "'v status_body"
  | Status_Tagged tag "'v status_body"
  | Status_Bye 'v

record 'v greeting =
  gr_code :: "'v code option"
  gr_rest :: 'v

datatype 'v continuation = Cont_Basic 'v | Cont_Base64 'v

record 'v envelope =
  env_date :: "'v istring option"
  env_subject :: "'v istring option"
  env_rest :: 'v

datatype 'v item =
    Item_Uid nz_u32
  | Item_InternalDate 'v
  | Item_Envelope "'v envelope"
  | Item_Rfc822Size u32
  | Item_Other 'v

datatype 'v data =
    Data_Capability "'v capability list"
  | Data_Flags "'v flag list"
  | Data_Exists u32
  | Data_Recent u32
  | Data_Search "nz_u32 list" 'v
  | Data_Sort "nz_u32 list" 'v
  | Data_Thread "'v list"
  | Data_List (list_items: "'v list") (list_delimiter: "'v option") (list_mailbox: 'v)
  | Data_Fetch (fetch_seq: nz_u32) (fetch_items: "'v item list")
  | Data_Expunge nz_u32
  | Data_Enabled "'v capability_enable list"
  | Data_Id "('v \<times> 'v) list option"
  | Data_Other 'v

datatype 'v response =
    Resp_Continuation "'v continuation"
  | Resp_Data "'v data"
  | Resp_Status "'v status"

section \<open>Commands\<close>

datatype literal_mode = Mode_Sync | Mode_NonSync

datatype literal_or_literal8 = Lit_Literal bytes | Lit_Literal8 bytes literal_mode

datatype 'v item_name =
    Name_Uid | Name_InternalDate | Name_Envelope | Name_Rfc822Size | Name_Other 'v

datatype 'v fetch_macro = Macro_Fast | Macro_Full | Macro_Other 'v

datatype 'v macro_or_names = Macro "'v fetch_macro" | Item_Names "'v item_name list"

datatype 'v fetch_modifier = Mod_ChangedSince nz_u64 | Mod_Vanished | Mod_Other 'v

datatype select_parameter = Param_CondStore

datatype 'v store_type = Store_Add | Store_Other 'v

datatype store_response = Answer | Silent

datatype 'v search_key =
    Key_All | Key_SequenceSet 'v | Key_ModSequence "'v option" u64 | Key_Other 'v

datatype sort_key =
    Sort_Arrival | Sort_Cc | Sort_Date | Sort_From | Sort_Size | Sort_Subject | Sort_To
  | Sort_DisplayFrom | Sort_DisplayTo

record sort_criterion =
  sc_reverse :: bool
  sc_key :: sort_key

datatype auth_data = Auth_Continue bytes | Auth_Cancel

datatype 'v command_body =
    Cmd_Append (cmd_mailbox: 'v) "'v flag list" "'v option" literal_or_literal8
  | Cmd_Authenticate "'v auth_mechanism" (cmd_initial_response: "bytes option")
  | Cmd_Capability
  | Cmd_Check
  | Cmd_Copy 'v 'v bool
  | Cmd_Create 'v
  | Cmd_Delete 'v
  | Cmd_Enable "'v capability_enable list"
  | Cmd_Examine 'v "select_parameter list"
  | Cmd_Expunge
  | Cmd_Fetch "'v fetch_modifier list" 'v "'v macro_or_names" bool
  | Cmd_Id "('v \<times> 'v) list option"
  | Cmd_Idle
  | Cmd_List 'v 'v
  | Cmd_Login 'v 'v
  | Cmd_Logout
  | Cmd_Move 'v 'v bool
  | Cmd_Noop
  | Cmd_Search "'v option" "'v search_key list" bool
  | Cmd_Select 'v "select_parameter list"
  | Cmd_Sort "sort_criterion list" 'v "'v search_key list" bool
  | Cmd_Store "'v list" 'v "'v store_type" store_response "'v flag list" bool
  | Cmd_Thread 'v 'v "'v search_key list" bool

record 'v command =
  cmd_tag :: tag
  cmd_body :: "'v command_body"

section \<open>The sans-I/O client of imap-next\<close>

datatype 'v next_error = MalformedMessage bytes | Next_Error_Other 'v

datatype io = Io_Output bytes | Io_NeedMoreInput

datatype 'e interrupt = Int_Io io | Int_Error 'e

datatype 'v event =
    GreetingReceived "'v greeting"
  | CommandSent handle
  | CommandRejected handle "'v status"
  | AuthenticateStarted handle
  | AuthenticateContinuationRequestReceived handle "'v continuation"
  | AuthenticateStatusReceived handle "'v status"
  | DataReceived "'v data"
  | ContinuationRequestReceived "'v continuation"
  | StatusReceived "'v status"
  | IdleCommandSent handle
  | IdleAccepted handle
  | IdleRejected handle "'v status"
  | IdleDoneSent handle

text \<open>
  What the scheduler calls of \<open>imap_next::client::Client\<close> (state \<open>'c\<close>) and of \<open>TagGenerator\<close>
  (state \<open>'g\<close>). \<open>set_authenticate_data\<close> answers whether it took the data.
\<close>

record ('v, 'c, 'g) next_client =
  nc_next :: "'c \<Rightarrow> ('v next_error interrupt + 'v event) \<times> 'c"
  nc_enqueue_command :: "'v command \<Rightarrow> 'c \<Rightarrow> handle \<times> 'c"
  nc_enqueue_input :: "bytes \<Rightarrow> 'c \<Rightarrow> 'c"
  nc_set_authenticate_data :: "auth_data \<Rightarrow> 'c \<Rightarrow> bool \<times> 'c"
  nc_set_idle_done :: "'c \<Rightarrow> 'c"
  nc_tag_new :: "'g"
  nc_tag_generate :: "'g \<Rightarrow> tag \<times> 'g"

text \<open>The tables' iteration orders, and the functions of \<open>imap_types\<close> the client calls.\<close>

record 'v lib =
  item_order :: "'v item iter_order"
  seq_order :: "(nz_u32 \<times> 'v item list) iter_order"
  seq_set_of_id :: "nz_u32 \<Rightarrow> 'v"
  seq_set_of_ids :: "nz_u32 list \<Rightarrow> 'v + 'v" \<comment> \<open>\<open>SequenceSet::try_from\<close> a vector; \<open>Inl\<close> the \<open>ValidationError\<close>\<close>
  seq_set_of_u32 :: "u32 \<Rightarrow> 'v + 'v" \<comment> \<open>\<open>SequenceSet::try_from\<close> a number\<close>
  macro_expand :: "'v fetch_macro \<Rightarrow> 'v item_name list"
  literal_validate :: "bytes \<Rightarrow> 'v + unit"
  instant :: "'v \<Rightarrow> int" \<comment> \<open>what the \<open>Ord\<close> instance of a date and time compares\<close>
  charset_utf8 :: 'v

section \<open>Concrete values for closed examples\<close>

text \<open>
  A library over numbers: tables in insertion order, the empty set of messages refused, a
  literal refused when it contains NUL.
\<close>

definition example_lib :: "nat lib" where
  "example_lib =
     \<lparr>item_order = insertion_order, seq_order = insertion_order,
      seq_set_of_id = (\<lambda>n. unat (nz_get n)),
      seq_set_of_ids = (\<lambda>ids. case ids of [] \<Rightarrow> Inl 0 | n # _ \<Rightarrow> Inr (unat (nz_get n))),
      seq_set_of_u32 = (\<lambda>n. if n = 0 then Inl 0 else Inr (unat n)),
      macro_expand = (\<lambda>m. case m of Macro_Other m \<Rightarrow> [Name_Envelope, Name_Other m] | _ \<Rightarrow> [Name_Envelope]),
      literal_validate = (\<lambda>b. if CHR 0x00 \<in> set b then Inl 1 else Inr ()),
      instant = int, charset_utf8 = 8\<rparr>"

definition ok_body :: "'v code option \<Rightarrow> 'v \<Rightarrow> 'v status_body" where
  "ok_body code text = \<lparr>sb_kind = Kind_Ok, sb_code = code, sb_text = text\<rparr>"

lemma ok_body_simps [simp]:
  "sb_kind (ok_body code text) = Kind_Ok" "sb_code (ok_body code text) = code"
  by (simp_all add: ok_body_def)

end
