(* ===== verification/Task_Trait.thy ===== *)
theory Task_Trait
  imports Imap_Types
begin

text \<open>
  The contract of a task (\<open>src/tasks/mod.rs\<close>, trait \<open>Task\<close>), its default methods, the error
  type of \<open>src/tasks/tasks/mod.rs\<close>, and \<open>trickle_down\<close>, which offers a response to one task
  after the other. A processing method takes the task and a response and returns what it
  hands back together with the task it leaves behind: \<open>None\<close> when it consumed the response.
\<close>

named_theorems task_simps \<open>the operations of the tasks\<close>

section \<open>Task errors\<close>

datatype 'v task_error =
    UnexpectedBadResponse "'v status_body"
  | UnexpectedNoResponse "'v status_body"
  | MissingData string

section \<open>Default methods\<close>

definition default_process :: "'t \<Rightarrow> 'm \<Rightarrow> 'm option \<times> 't" where
  "default_process task m = (Some m, task)"

definition default_process_authenticate ::
    "'t \<Rightarrow> 'v continuation \<Rightarrow> ('v continuation + auth_data) \<times> 't" where
  "default_process_authenticate task continuation = (Inl continuation, task)"

lemmas [task_simps] = default_process_def default_process_authenticate_def

section \<open>Routing a response\<close>

fun trickle_down :: "'m \<Rightarrow> 't list \<Rightarrow> ('t \<Rightarrow> 'm \<Rightarrow> 'm option \<times> 't) \<Rightarrow> 'm option \<times> 't list" where
  "trickle_down trickle [] f = (Some trickle, [])"
| "trickle_down trickle (consumer # consumers) f =
     (case f consumer trickle of
        (None, consumer') \<Rightarrow> (None, consumer' # consumers)
      | (Some trickle', consumer') \<Rightarrow>
          (case trickle_down trickle' consumers f of
             (r, consumers') \<Rightarrow> (r, consumer' # consumers')))"

lemma trickle_down_length: "length (snd (trickle_down m ts f)) = length ts"
  by (induction m ts f rule: trickle_down.induct) (auto split: prod.splits option.splits)

text \<open>Everything a task is offered, one response after the other.\<close>

definition feed :: "('t \<Rightarrow> 'm \<Rightarrow> 'm option \<times> 't) \<Rightarrow> 'm list \<Rightarrow> 't \<Rightarrow> 't" where
  "feed f ms task = fold (\<lambda>m task. snd (f task m)) ms task"

lemma feed_Nil [simp]: "feed f [] t = t"
  by (simp add: feed_def)

lemma feed_Cons [simp]: "feed f (m # ms) t = feed f ms (snd (f t m))"
  by (simp add: feed_def)

lemma feed_append: "feed f (ms @ ns) t = feed f ns (feed f ms t)"
  by (simp add: feed_def)

text \<open>
  The law every processing method keeps: a response is either consumed, or handed back as it
  came, and then the task is as before.
\<close>

locale response_consumer =
  fixes process :: "'t \<Rightarrow> 'm \<Rightarrow> 'm option \<times> 't"
  assumes hand_back: "process t m = (Some m', t') \<Longrightarrow> m' = m \<and> t' = t"
begin

lemma not_interested: "fst (process t m) \<noteq> None \<Longrightarrow> process t m = (Some m, t)"
  using hand_back by (metis eq_fst_iff not_None_eq)

lemma trickle_ignored:
  assumes "\<forall>t \<in> set ts. fst (process t m) \<noteq> None"
  shows "trickle_down m ts process = (Some m, ts)"
  using assms by (induction ts) (auto simp: not_interested split: prod.splits option.splits)

lemma trickle_consumed:
  assumes "\<forall>u \<in> set us. fst (process u m) \<noteq> None" and "process t m = (None, t')"
  shows "trickle_down m (us @ t # vs) process = (None, us @ t' # vs)"
  using assms by (induction us) (auto simp: not_interested split: prod.splits option.splits)

lemma trickle_cases:
  obtains (ignored) "\<forall>t \<in> set ts. fst (process t m) \<noteq> None"
      "trickle_down m ts process = (Some m, ts)"
  | (consumed) us t vs t' where "ts = us @ t # vs" "\<forall>u \<in> set us. fst (process u m) \<noteq> None"
      "process t m = (None, t')" "trickle_down m ts process = (None, us @ t' # vs)"
proof (cases "\<forall>t \<in> set ts. fst (process t m) \<noteq> None")
  case True
  then show thesis by (intro ignored trickle_ignored)
next
  case False
  then have "\<exists>t \<in> set ts. fst (process t m) = None" by simp
  from split_list_first_prop [OF this] obtain us t vs
    where ts: "ts = us @ t # vs" and t: "fst (process t m) = None"
      and us: "\<forall>u \<in> set us. fst (process u m) \<noteq> None"
    by auto
  from t obtain t' where "process t m = (None, t')" by (metis prod.collapse)
  with ts us show thesis by (intro consumed trickle_consumed) (auto simp: trickle_consumed)
qed

lemma feed_ignored: "fst (process t m) \<noteq> None \<Longrightarrow> feed process (m # ms) t = feed process ms t"
  by (simp add: not_interested)

end

text \<open>
  Two kinds of tasks: those that keep the latest response of a kind, and those that keep all of
  them in order. \<open>sel\<close> says which responses count and what is kept of them.
\<close>

locale latest_collector = response_consumer process
  for process :: "'t \<Rightarrow> 'm \<Rightarrow> 'm option \<times> 't" +
  fixes sel :: "'m \<Rightarrow> 'b option" and out :: "'t \<Rightarrow> 'b option"
  assumes takes: "sel m = Some x \<Longrightarrow> out (snd (process t m)) = Some x"
    and keeps: "sel m = None \<Longrightarrow> out (snd (process t m)) = out t"
begin

lemma latest:
  "out (feed process ms t) = (case find_map sel (rev ms) of Some x \<Rightarrow> Some x | None \<Rightarrow> out t)"
proof (induction ms arbitrary: t)
  case (Cons m ms)
  show ?case
    by (cases "sel m") (auto simp: Cons.IH find_map_append takes keeps split: option.split)
qed simp

lemma latest_last: "sel m = Some x \<Longrightarrow> out (feed process (ms @ [m]) t) = Some x"
  by (simp add: latest)

end

locale history_collector = response_consumer process
  for process :: "'t \<Rightarrow> 'm \<Rightarrow> 'm option \<times> 't" +
  fixes sel :: "'m \<Rightarrow> 'b option" and log :: "'t \<Rightarrow> 'b list"
  assumes appends: "sel m = Some x \<Longrightarrow> log (snd (process t m)) = log t @ [x]"
    and leaves: "sel m = None \<Longrightarrow> log (snd (process t m)) = log t"
begin

lemma history: "log (feed process ms t) = log t @ List.map_filter sel ms"
proof (induction ms arbitrary: t)
  case (Cons m ms)
  show ?case
    by (cases "sel m") (simp_all add: Cons.IH appends leaves List.map_filter_simps)
qed (simp add: List.map_filter_simps)

end

end
