(* ===== verification/Tasks_Basic.thy ===== *)
theory Tasks_Basic
  imports Task_Trait
begin

text \<open>
  The tasks that collect nothing or one thing: NOOP, CHECK, CREATE, DELETE, COPY, MOVE, LOGOUT,
  ENABLE, ID, LIST, EXPUNGE (one file each under \<open>src/tasks/tasks/\<close>), with what each of them
  reports after any sequence of responses.
\<close>

section \<open>NOOP and CHECK\<close>

definition noop_task_command_body :: "'v command_body" where
  "noop_task_command_body = Cmd_Noop"

definition noop_task_process_tagged :: "'v status_body \<Rightarrow> 'v task_error + unit" where
  "noop_task_process_tagged status_body =
     (case sb_kind status_body of
        Kind_Ok \<Rightarrow> Inr ()
      | Kind_No \<Rightarrow> Inl (UnexpectedNoResponse status_body)
      | Kind_Bad \<Rightarrow> Inl (UnexpectedBadResponse status_body))"

definition check_task_command_body :: "'v command_body" where
  "check_task_command_body = Cmd_Check"

definition check_task_process_tagged :: "'v status_body \<Rightarrow> 'v task_error + unit" where
  "check_task_process_tagged status_body =
     (case sb_kind status_body of
        Kind_Ok \<Rightarrow> Inr ()
      | Kind_No \<Rightarrow> Inl (UnexpectedNoResponse status_body)
      | Kind_Bad \<Rightarrow> Inl (UnexpectedBadResponse status_body))"

section \<open>CREATE and DELETE\<close>

record 'v create_task =
  create_mailbox :: 'v

definition create_task_new :: "'v \<Rightarrow> 'v create_task" where
  "create_task_new mailbox = \<lparr>create_mailbox = mailbox\<rparr>"

definition create_task_command_body :: "'v create_task \<Rightarrow> 'v command_body" where
  "create_task_command_body self = Cmd_Create (create_mailbox self)"

definition create_task_process_tagged ::
    "'v create_task \<Rightarrow> 'v status_body \<Rightarrow> 'v task_error + unit" where
  "create_task_process_tagged self status_body =
     (case sb_kind status_body of
        Kind_Ok \<Rightarrow> Inr ()
      | Kind_No \<Rightarrow> Inl (UnexpectedNoResponse status_body)
      | Kind_Bad \<Rightarrow> Inl (UnexpectedBadResponse status_body))"

record 'v delete_task =
  delete_mailbox :: 'v

definition delete_task_new :: "'v \<Rightarrow> 'v delete_task" where
  "delete_task_new mailbox = \<lparr>delete_mailbox = mailbox\<rparr>"

definition delete_task_command_body :: "'v delete_task \<Rightarrow> 'v command_body" where
  "delete_task_command_body self = Cmd_Delete (delete_mailbox self)"

definition delete_task_process_tagged ::
    "'v delete_task \<Rightarrow> 'v status_body \<Rightarrow> 'v task_error + unit" where
  "delete_task_process_tagged self status_body =
     (case sb_kind status_body of
        Kind_Ok \<Rightarrow> Inr ()
      | Kind_No \<Rightarrow> Inl (UnexpectedNoResponse status_body)
      | Kind_Bad \<Rightarrow> Inl (UnexpectedBadResponse status_body))"

section \<open>COPY and MOVE\<close>

record 'v copy_task =
  copy_sequence_set :: 'v
  copy_mailbox :: 'v
  copy_uid :: bool

definition copy_task_new :: "'v \<Rightarrow> 'v \<Rightarrow> 'v copy_task" where
  "copy_task_new sequence_set mailbox =
     \<lparr>copy_sequence_set = sequence_set, copy_mailbox = mailbox, copy_uid = True\<rparr>"

definition copy_task_set_uid :: "bool \<Rightarrow> 'v copy_task \<Rightarrow> 'v copy_task" where
  "copy_task_set_uid uid self = self\<lparr>copy_uid := uid\<rparr>"

definition copy_task_with_uid :: "bool \<Rightarrow> 'v copy_task \<Rightarrow> 'v copy_task" where
  "copy_task_with_uid uid self = copy_task_set_uid uid self"

definition copy_task_command_body :: "'v copy_task \<Rightarrow> 'v command_body" where
  "copy_task_command_body self =
     Cmd_Copy (copy_sequence_set self) (copy_mailbox self) (copy_uid self)"

definition copy_task_process_tagged ::
    "'v copy_task \<Rightarrow> 'v status_body \<Rightarrow> 'v task_error + unit" where
  "copy_task_process_tagged self status_body =
     (case sb_kind status_body of
        Kind_Ok \<Rightarrow> Inr ()
      | Kind_No \<Rightarrow> Inl (UnexpectedNoResponse status_body)
      | Kind_Bad \<Rightarrow> Inl (UnexpectedBadResponse status_body))"

record 'v move_task =
  move_sequence_set :: 'v
  move_mailbox :: 'v
  move_uid :: bool

definition move_task_new :: "'v \<Rightarrow> 'v \<Rightarrow> 'v move_task" where
  "move_task_new sequence_set mailbox =
     \<lparr>move_sequence_set = sequence_set, move_mailbox = mailbox, move_uid = True\<rparr>"

definition move_task_set_uid :: "bool \<Rightarrow> 'v move_task \<Rightarrow> 'v move_task" where
  "move_task_set_uid uid self = self\<lparr>move_uid := uid\<rparr>"

definition move_task_with_uid :: "bool \<Rightarrow> 'v move_task \<Rightarrow> 'v move_task" where
  "move_task_with_uid uid self = move_task_set_uid uid self"

definition move_task_command_body :: "'v move_task \<Rightarrow> 'v command_body" where
  "move_task_command_body self =
     Cmd_Move (move_sequence_set self) (move_mailbox self) (move_uid self)"

definition move_task_process_tagged ::
    "'v move_task \<Rightarrow> 'v status_body \<Rightarrow> 'v task_error + unit" where
  "move_task_process_tagged self status_body =
     (case sb_kind status_body of
        Kind_Ok \<Rightarrow> Inr ()
      | Kind_No \<Rightarrow> Inl (UnexpectedNoResponse status_body)
      | Kind_Bad \<Rightarrow> Inl (UnexpectedBadResponse status_body))"

section \<open>LOGOUT\<close>

record logout_task =
  logout_got_bye :: bool

definition logout_task_new :: logout_task where
  "logout_task_new = \<lparr>logout_got_bye = False\<rparr>"

definition logout_task_command_body :: "logout_task \<Rightarrow> 'v command_body" where
  "logout_task_command_body self = Cmd_Logout"

definition logout_task_process_bye :: "logout_task \<Rightarrow> 'v \<Rightarrow> 'v option \<times> logout_task" where
  "logout_task_process_bye self bye = (None, self\<lparr>logout_got_bye := True\<rparr>)"

definition logout_task_process_tagged ::
    "logout_task \<Rightarrow> 'v status_body \<Rightarrow> 'v task_error + unit" where
  "logout_task_process_tagged self status_body =
     (case sb_kind status_body of
        Kind_Ok \<Rightarrow> if logout_got_bye self then Inr () else Inl (MissingData ''LOGOUT: BYE'')
      | Kind_No \<Rightarrow> Inl (UnexpectedNoResponse status_body)
      | Kind_Bad \<Rightarrow> Inl (UnexpectedBadResponse status_body))"

section \<open>ENABLE\<close>

record 'v enable_task =
  enable_requested_capabilities :: "'v capability_enable list"
  enable_enabled_capabilities :: "'v capability_enable list option"

definition enable_task_new :: "'v capability_enable list \<Rightarrow> 'v enable_task" where
  "enable_task_new capabilities =
     \<lparr>enable_requested_capabilities = capabilities, enable_enabled_capabilities = None\<rparr>"

definition enable_task_command_body :: "'v enable_task \<Rightarrow> 'v command_body" where
  "enable_task_command_body self = Cmd_Enable (enable_requested_capabilities self)"

fun enable_task_process_data ::
    "'v enable_task \<Rightarrow> 'v data \<Rightarrow> 'v data option \<times> 'v enable_task" where
  "enable_task_process_data self (Data_Enabled capabilities) =
     (None, self\<lparr>enable_enabled_capabilities := Some capabilities\<rparr>)"
| "enable_task_process_data self data = (Some data, self)"

definition enable_task_process_tagged ::
    "'v enable_task \<Rightarrow> 'v status_body \<Rightarrow> 'v task_error + 'v capability_enable list option" where
  "enable_task_process_tagged self status_body =
     (case sb_kind status_body of
        Kind_Ok \<Rightarrow> Inr (enable_enabled_capabilities self)
      | Kind_No \<Rightarrow> Inl (UnexpectedNoResponse status_body)
      | Kind_Bad \<Rightarrow> Inl (UnexpectedBadResponse status_body))"

section \<open>ID\<close>

record 'v id_task =
  id_client :: "('v \<times> 'v) list option"
  id_server :: "('v \<times> 'v) list option"

definition id_task_new :: "('v \<times> 'v) list option \<Rightarrow> 'v id_task" where
  "id_task_new parameters = \<lparr>id_client = parameters, id_server = None\<rparr>"

definition id_task_command_body :: "'v id_task \<Rightarrow> 'v command_body" where
  "id_task_command_body self = Cmd_Id (id_client self)"

fun id_task_process_data :: "'v id_task \<Rightarrow> 'v data \<Rightarrow> 'v data option \<times> 'v id_task" where
  "id_task_process_data self (Data_Id parameters) = (None, self\<lparr>id_server := parameters\<rparr>)"
| "id_task_process_data self data = (Some data, self)"

definition id_task_process_tagged ::
    "'v id_task \<Rightarrow> 'v status_body \<Rightarrow> 'v task_error + ('v \<times> 'v) list option" where
  "id_task_process_tagged self status_body =
     (case sb_kind status_body of
        Kind_Ok \<Rightarrow> Inr (id_server self)
      | Kind_No \<Rightarrow> Inl (UnexpectedNoResponse status_body)
      | Kind_Bad \<Rightarrow> Inl (UnexpectedBadResponse status_body))"

section \<open>LIST\<close>

record 'v list_task =
  list_task_mailbox :: 'v
  list_task_wildcard :: 'v
  list_task_output :: "('v \<times> 'v option \<times> 'v list) list"

definition list_task_new :: "'v \<Rightarrow> 'v \<Rightarrow> 'v list_task" where
  "list_task_new mailbox mailbox_wildcard =
     \<lparr>list_task_mailbox = mailbox, list_task_wildcard = mailbox_wildcard, list_task_output = []\<rparr>"

definition list_task_command_body :: "'v list_task \<Rightarrow> 'v command_body" where
  "list_task_command_body self = Cmd_List (list_task_mailbox self) (list_task_wildcard self)"

fun list_task_process_data :: "'v list_task \<Rightarrow> 'v data \<Rightarrow> 'v data option \<times> 'v list_task" where
  "list_task_process_data self (Data_List items delimiter mailbox) =
     (None, self\<lparr>list_task_output := list_task_output self @ [(mailbox, delimiter, items)]\<rparr>)"
| "list_task_process_data self data = (Some data, self)"

definition list_task_process_tagged ::
    "'v list_task \<Rightarrow> 'v status_body \<Rightarrow> 'v task_error + ('v \<times> 'v option \<times> 'v list) list" where
  "list_task_process_tagged self status_body =
     (case sb_kind status_body of
        Kind_Ok \<Rightarrow> Inr (list_task_output self)
      | Kind_No \<Rightarrow> Inl (UnexpectedNoResponse status_body)
      | Kind_Bad \<Rightarrow> Inl (UnexpectedBadResponse status_body))"

section \<open>EXPUNGE\<close>

record expunge_task =
  expunge_output :: "nz_u32 list"

definition expunge_task_new :: expunge_task where
  "expunge_task_new = \<lparr>expunge_output = []\<rparr>"

definition expunge_task_command_body :: "expunge_task \<Rightarrow> 'v command_body" where
  "expunge_task_command_body self = Cmd_Expunge"

fun expunge_task_process_data :: "expunge_task \<Rightarrow> 'v data \<Rightarrow> 'v data option \<times> expunge_task" where
  "expunge_task_process_data self (Data_Expunge seq) =
     (None, self\<lparr>expunge_output := expunge_output self @ [seq]\<rparr>)"
| "expunge_task_process_data self data = (Some data, self)"

definition expunge_task_process_tagged ::
    "expunge_task \<Rightarrow> 'v status_body \<Rightarrow> 'v task_error + nz_u32 list" where
  "expunge_task_process_tagged self status_body =
     (case sb_kind status_body of
        Kind_Ok \<Rightarrow> Inr (expunge_output self)
      | Kind_No \<Rightarrow> Inl (UnexpectedNoResponse status_body)
      | Kind_Bad \<Rightarrow> Inl (UnexpectedBadResponse status_body))"

lemmas basic_tagged_defs [task_simps] =
  noop_task_process_tagged_def check_task_process_tagged_def create_task_process_tagged_def
  delete_task_process_tagged_def copy_task_process_tagged_def move_task_process_tagged_def
  logout_task_process_tagged_def enable_task_process_tagged_def id_task_process_tagged_def
  list_task_process_tagged_def expunge_task_process_tagged_def

lemmas basic_body_defs [task_simps] =
  noop_task_command_body_def check_task_command_body_def create_task_command_body_def
  delete_task_command_body_def copy_task_command_body_def move_task_command_body_def
  logout_task_command_body_def enable_task_command_body_def id_task_command_body_def
  list_task_command_body_def expunge_task_command_body_def

section \<open>What the collecting tasks have collected\<close>

text \<open>The responses each task keeps, and what it keeps of them.\<close>

definition enabled_of :: "'v data \<Rightarrow> 'v capability_enable list option" where
  "enabled_of d = (case d of Data_Enabled capabilities \<Rightarrow> Some capabilities | _ \<Rightarrow> None)"

definition id_of :: "'v data \<Rightarrow> ('v \<times> 'v) list option option" where
  "id_of d = (case d of Data_Id parameters \<Rightarrow> Some parameters | _ \<Rightarrow> None)"

definition list_line_of :: "'v data \<Rightarrow> ('v \<times> 'v option \<times> 'v list) option" where
  "list_line_of d =
     (case d of Data_List items delimiter mailbox \<Rightarrow> Some (mailbox, delimiter, items) | _ \<Rightarrow> None)"

definition expunge_of :: "'v data \<Rightarrow> nz_u32 option" where
  "expunge_of d = (case d of Data_Expunge seq \<Rightarrow> Some seq | _ \<Rightarrow> None)"

interpretation enable: latest_collector enable_task_process_data enabled_of enable_enabled_capabilities
  by unfold_locales (auto simp: enabled_of_def elim: enable_task_process_data.elims split: data.splits)

interpretation id: latest_collector id_task_process_data id_of "\<lambda>t. Some (id_server t)"
  by unfold_locales (auto simp: id_of_def elim: id_task_process_data.elims split: data.splits)

interpretation list_lines: history_collector list_task_process_data list_line_of list_task_output
  by unfold_locales (auto simp: list_line_of_def elim: list_task_process_data.elims split: data.splits)

interpretation expunge: history_collector expunge_task_process_data expunge_of expunge_output
  by unfold_locales (auto simp: expunge_of_def elim: expunge_task_process_data.elims split: data.splits)

interpretation logout: response_consumer logout_task_process_bye
  by unfold_locales (simp add: logout_task_process_bye_def)

end
