(* ===== verification/Tasks_Session.thy ===== *)
theory Tasks_Session
  imports Task_Trait
begin

text \<open>
  The tasks that open a session: CAPABILITY, LOGIN and AUTHENTICATE (\<open>src/tasks/tasks/\<close>,
  \<open>capability.rs\<close>, \<open>login.rs\<close>, \<open>authenticate.rs\<close>), the three SASL messages the latter builds,
  and the exchange it has with the server.
\<close>

section \<open>CAPABILITY\<close>

record 'v capability_task =
  capability_output :: "'v capability list option"

definition capability_task_new :: "'v capability_task" where
  "capability_task_new = \<lparr>capability_output = None\<rparr>"

definition capability_task_command_body :: "'v capability_task \<Rightarrow> 'v command_body" where
  "capability_task_command_body self = Cmd_Capability"

fun capability_task_process_data ::
    "'v capability_task \<Rightarrow> 'v data \<Rightarrow> 'v data option \<times> 'v capability_task" where
  "capability_task_process_data self (Data_Capability capabilities) =
     (None, self\<lparr>capability_output := Some capabilities\<rparr>)"
| "capability_task_process_data self data = (Some data, self)"

definition capability_task_process_untagged ::
    "'v capability_task \<Rightarrow> 'v status_body \<Rightarrow> 'v status_body option \<times> 'v capability_task" where
  "capability_task_process_untagged self status_body =
     (case sb_code status_body of
        Some (Code_Capability capabilities) \<Rightarrow>
          (None, self\<lparr>capability_output := Some capabilities\<rparr>)
      | _ \<Rightarrow> (Some status_body, self))"

definition capability_task_process_tagged ::
    "'v capability_task \<Rightarrow> 'v status_body \<Rightarrow> 'v task_error + 'v capability list" where
  "capability_task_process_tagged self status_body =
     (case sb_kind status_body of
        Kind_Ok \<Rightarrow>
          (case capability_output self of
             Some capabilities \<Rightarrow> Inr capabilities
           | None \<Rightarrow>
               (case sb_code status_body of
                  Some (Code_Capability capabilities) \<Rightarrow> Inr capabilities
                | _ \<Rightarrow> Inl (MissingData ''CAPABILITY'')))
      | Kind_No \<Rightarrow> Inl (UnexpectedNoResponse status_body)
      | Kind_Bad \<Rightarrow> Inl (UnexpectedBadResponse status_body))"

section \<open>LOGIN\<close>

record 'v login_task =
  login_username :: 'v
  login_password :: 'v
  login_output :: "'v capability list option"

definition login_task_new :: "'v \<Rightarrow> 'v \<Rightarrow> 'v login_task" where
  "login_task_new username password =
     \<lparr>login_username = username, login_password = password, login_output = None\<rparr>"

definition login_task_command_body :: "'v login_task \<Rightarrow> 'v command_body" where
  "login_task_command_body self = Cmd_Login (login_username self) (login_password self)"

fun login_task_process_data ::
    "'v login_task \<Rightarrow> 'v data \<Rightarrow> 'v data option \<times> 'v login_task" where
  "login_task_process_data self (Data_Capability capabilities) =
     (None, self\<lparr>login_output := Some capabilities\<rparr>)"
| "login_task_process_data self data = (Some data, self)"

definition login_task_process_tagged ::
    "'v login_task \<Rightarrow> 'v status_body \<Rightarrow> 'v task_error + 'v capability list option" where
  "login_task_process_tagged self status_body =
     (case sb_kind status_body of
        Kind_Ok \<Rightarrow>
          Inr (case sb_code status_body of
                 Some (Code_Capability capabilities) \<Rightarrow> Some capabilities
               | _ \<Rightarrow> login_output self)
      | Kind_No \<Rightarrow> Inl (UnexpectedNoResponse status_body)
      | Kind_Bad \<Rightarrow> Inl (UnexpectedBadResponse status_body))"

section \<open>AUTHENTICATE\<close>

record 'v authenticate_task =
  auth_mechanism :: "'v auth_mechanism"
  auth_line :: "bytes option"
  auth_ir :: bool
  auth_output :: "'v capability list option"

text \<open>How \<open>format!\<close> writes a number.\<close>

fun decimal :: "nat \<Rightarrow> string" where
  "decimal n =
     (if n < 10 then [char_of (48 + n)] else decimal (n div 10) @ [char_of (48 + n mod 10)])"

declare decimal.simps [simp del]

definition plain_line :: "bytes \<Rightarrow> bytes \<Rightarrow> bytes" where
  "plain_line login passwd = [CHR 0x00] @ login @ [CHR 0x00] @ passwd"

definition oauthbearer_line :: "bytes \<Rightarrow> bytes \<Rightarrow> u16 \<Rightarrow> bytes \<Rightarrow> bytes" where
  "oauthbearer_line user host port token =
     ''n,a='' @ user @ '','' @ [CHR 0x01] @ ''host='' @ host @ [CHR 0x01] @ ''port='' @
     decimal (unat port) @ [CHR 0x01] @ ''auth=Bearer '' @ token @ [CHR 0x01, CHR 0x01]"

definition xoauth2_line :: "bytes \<Rightarrow> bytes \<Rightarrow> bytes" where
  "xoauth2_line user token =
     ''user='' @ user @ [CHR 0x01] @ ''auth=Bearer '' @ token @ [CHR 0x01, CHR 0x01]"

definition authenticate_task_plain :: "bytes \<Rightarrow> bytes \<Rightarrow> bool \<Rightarrow> 'v authenticate_task" where
  "authenticate_task_plain login passwd ir =
     \<lparr>auth_mechanism = Mech_Plain, auth_line = Some (plain_line login passwd),
      auth_ir = ir, auth_output = None\<rparr>"

definition authenticate_task_oauthbearer ::
    "bytes \<Rightarrow> bytes \<Rightarrow> u16 \<Rightarrow> bytes \<Rightarrow> bool \<Rightarrow> 'v authenticate_task" where
  "authenticate_task_oauthbearer user host port token ir =
     \<lparr>auth_mechanism = Mech_OAuthBearer, auth_line = Some (oauthbearer_line user host port token),
      auth_ir = ir, auth_output = None\<rparr>"

definition authenticate_task_xoauth2 :: "bytes \<Rightarrow> bytes \<Rightarrow> bool \<Rightarrow> 'v authenticate_task" where
  "authenticate_task_xoauth2 user token ir =
     \<lparr>auth_mechanism = Mech_XOAuth2, auth_line = Some (xoauth2_line user token),
      auth_ir = ir, auth_output = None\<rparr>"

text \<open>The \<open>unwrap\<close> of the line panics once the line has been taken.\<close>

definition authenticate_task_command_body :: "'v authenticate_task \<Rightarrow> 'v command_body run" where
  "authenticate_task_command_body self =
     (if auth_ir self
      then (case auth_line self of
              Some line \<Rightarrow> Ret (Cmd_Authenticate (auth_mechanism self) (Some line))
            | None \<Rightarrow> Panic)
      else Ret (Cmd_Authenticate (auth_mechanism self) None))"

fun authenticate_task_process_data ::
    "'v authenticate_task \<Rightarrow> 'v data \<Rightarrow> 'v data option \<times> 'v authenticate_task" where
  "authenticate_task_process_data self (Data_Capability capabilities) =
     (None, self\<lparr>auth_output := Some capabilities\<rparr>)"
| "authenticate_task_process_data self data = (Some data, self)"

definition authenticate_task_cancel :: "'v authenticate_task \<Rightarrow> auth_data" where
  "authenticate_task_cancel self =
     (case auth_mechanism self of Mech_XOAuth2 \<Rightarrow> Auth_Continue [] | _ \<Rightarrow> Auth_Cancel)"

definition authenticate_task_process_continuation ::
    "'v authenticate_task \<Rightarrow> 'v continuation
       \<Rightarrow> ('v continuation + auth_data) \<times> 'v authenticate_task" where
  "authenticate_task_process_continuation self continuation =
     (if auth_ir self then (Inr (authenticate_task_cancel self), self)
      else (case auth_line self of
              Some line \<Rightarrow> (Inr (Auth_Continue line), self\<lparr>auth_line := None\<rparr>)
            | None \<Rightarrow> (Inr (authenticate_task_cancel self), self)))"

definition authenticate_task_process_tagged ::
    "'v authenticate_task \<Rightarrow> 'v status_body \<Rightarrow> 'v task_error + 'v capability list option" where
  "authenticate_task_process_tagged self status_body =
     (case sb_kind status_body of
        Kind_Ok \<Rightarrow>
          Inr (case sb_code status_body of
                 Some (Code_Capability capabilities) \<Rightarrow> Some capabilities
               | _ \<Rightarrow> auth_output self)
      | Kind_No \<Rightarrow> Inl (UnexpectedNoResponse status_body)
      | Kind_Bad \<Rightarrow> Inl (UnexpectedBadResponse status_body))"

lemmas session_task_defs [task_simps] =
  capability_task_command_body_def capability_task_process_untagged_def
  capability_task_process_tagged_def login_task_command_body_def login_task_process_tagged_def
  authenticate_task_command_body_def authenticate_task_cancel_def
  authenticate_task_process_continuation_def authenticate_task_process_tagged_def

lemmas authenticate_task_ctor_defs =
  authenticate_task_plain_def authenticate_task_oauthbearer_def authenticate_task_xoauth2_def

section \<open>The exchange with the server\<close>

text \<open>What the task answers to one continuation request after the other.\<close>

fun auth_replies ::
    "'v authenticate_task \<Rightarrow> 'v continuation list \<Rightarrow> ('v continuation + auth_data) list" where
  "auth_replies self [] = []"
| "auth_replies self (c # cs) =
     (case authenticate_task_process_continuation self c of
        (r, self') \<Rightarrow> r # auth_replies self' cs)"

lemma auth_replies_cancel:
  assumes "auth_ir t \<or> auth_line t = None"
  shows "auth_replies t cs = replicate (length cs) (Inr (authenticate_task_cancel t))"
  using assms
  by (induction cs) (auto simp: authenticate_task_process_continuation_def)

lemma authenticate_task_cancel_line [simp]:
  "authenticate_task_cancel (t\<lparr>auth_line := l\<rparr>) = authenticate_task_cancel t"
  by (simp add: authenticate_task_cancel_def)

lemma auth_replies_line:
  assumes "\<not> auth_ir t" and "auth_line t = Some line"
  shows "auth_replies t (c # cs) =
    Inr (Auth_Continue line) # replicate (length cs) (Inr (authenticate_task_cancel t))"
  using assms by (simp add: authenticate_task_process_continuation_def auth_replies_cancel)

section \<open>The SASL messages\<close>

lemma decimal_digits: "c \<in> set (decimal n) \<Longrightarrow> 48 \<le> (of_char c :: nat) \<and> (of_char c :: nat) < 58"
proof (induction n rule: decimal.induct)
  case (1 n)
  then show ?case
    by (subst (asm) (2) decimal.simps) (auto split: if_splits)
qed

lemma soh_notin_decimal: "CHR 0x01 \<notin> set (decimal n)"
  using decimal_digits [of "CHR 0x01" n] by auto

text \<open>Reading back a decimal number.\<close>

definition undecimal :: "string \<Rightarrow> nat" where
  "undecimal s = foldl (\<lambda>n c. 10 * n + (of_char c - 48)) 0 s"

lemma undecimal_decimal: "undecimal (decimal n) = n"
proof (induction n rule: decimal.induct)
  case (1 n)
  show ?case
  proof (cases "n < 10")
    case True
    then show ?thesis by (subst decimal.simps) (simp add: undecimal_def)
  next
    case False
    with 1 have "foldl (\<lambda>n c. 10 * n + (of_char c - 48)) 0 (decimal (n div 10)) = n div 10"
      by (simp add: undecimal_def)
    with False show ?thesis by (subst decimal.simps) (simp add: undecimal_def)
  qed
qed

section \<open>The capabilities the tasks report\<close>

definition capabilities_of :: "'v data \<Rightarrow> 'v capability list option" where
  "capabilities_of d = (case d of Data_Capability capabilities \<Rightarrow> Some capabilities | _ \<Rightarrow> None)"

definition capability_code :: "'v status_body \<Rightarrow> 'v capability list option" where
  "capability_code b =
     (case sb_code b of Some (Code_Capability capabilities) \<Rightarrow> Some capabilities | _ \<Rightarrow> None)"

interpretation capability: latest_collector capability_task_process_data capabilities_of capability_output
  by unfold_locales
    (auto simp: capabilities_of_def elim: capability_task_process_data.elims split: data.splits)

interpretation capability_untagged:
  latest_collector capability_task_process_untagged capability_code capability_output
  by unfold_locales
    (auto simp: capability_code_def capability_task_process_untagged_def
      split: option.splits code.splits)

interpretation login: latest_collector login_task_process_data capabilities_of login_output
  by unfold_locales
    (auto simp: capabilities_of_def elim: login_task_process_data.elims split: data.splits)

interpretation authenticate: latest_collector authenticate_task_process_data capabilities_of auth_output
  by unfold_locales
    (auto simp: capabilities_of_def elim: authenticate_task_process_data.elims split: data.splits)

end
