(* ===== verification/Tasks_Append.thy ===== *)
theory Tasks_Append
  imports Task_Trait
begin

text \<open>
  APPEND: the task that waits for an EXISTS response, the two follow-up tasks (a NOOP and a CHECK
  that capture EXISTS), and the UIDPLUS variant (\<open>src/tasks/tasks/append.rs\<close>, \<open>appenduid.rs\<close>).
\<close>

section \<open>AppendTask\<close>

record 'v append_task =
  append_mailbox :: 'v
  append_flags :: "'v flag list"
  append_date :: "'v option"
  append_message :: literal_or_literal8
  append_output :: "u32 option"

definition append_task_new :: "'v \<Rightarrow> literal_or_literal8 \<Rightarrow> 'v append_task" where
  "append_task_new mailbox message =
     \<lparr>append_mailbox = mailbox, append_flags = [], append_date = None,
      append_message = message, append_output = None\<rparr>"

definition append_task_set_flags :: "'v flag list \<Rightarrow> 'v append_task \<Rightarrow> 'v append_task" where
  "append_task_set_flags flags self = self\<lparr>append_flags := flags\<rparr>"

definition append_task_add_flag :: "'v flag \<Rightarrow> 'v append_task \<Rightarrow> 'v append_task" where
  "append_task_add_flag flag self = self\<lparr>append_flags := append_flags self @ [flag]\<rparr>"

definition append_task_with_flags :: "'v flag list \<Rightarrow> 'v append_task \<Rightarrow> 'v append_task" where
  "append_task_with_flags flags self = append_task_set_flags flags self"

definition append_task_with_flag :: "'v flag \<Rightarrow> 'v append_task \<Rightarrow> 'v append_task" where
  "append_task_with_flag flag self = append_task_add_flag flag self"

definition append_task_set_date :: "'v \<Rightarrow> 'v append_task \<Rightarrow> 'v append_task" where
  "append_task_set_date date self = self\<lparr>append_date := Some date\<rparr>"

definition append_task_with_date :: "'v \<Rightarrow> 'v append_task \<Rightarrow> 'v append_task" where
  "append_task_with_date date self = append_task_set_date date self"

definition append_task_command_body :: "'v append_task \<Rightarrow> 'v command_body" where
  "append_task_command_body self =
     Cmd_Append (append_mailbox self) (append_flags self) (append_date self) (append_message self)"

fun append_task_process_data ::
    "'v append_task \<Rightarrow> 'v data \<Rightarrow> 'v data option \<times> 'v append_task" where
  "append_task_process_data self (Data_Exists seq) = (None, self\<lparr>append_output := Some seq\<rparr>)"
| "append_task_process_data self data = (Some data, self)"

definition append_task_process_tagged ::
    "'v append_task \<Rightarrow> 'v status_body \<Rightarrow> 'v task_error + u32 option" where
  "append_task_process_tagged self status_body =
     (case sb_kind status_body of
        Kind_Ok \<Rightarrow> Inr (append_output self)
      | Kind_No \<Rightarrow> Inl (UnexpectedNoResponse status_body)
      | Kind_Bad \<Rightarrow> Inl (UnexpectedBadResponse status_body))"

section \<open>PostAppendNoOpTask and PostAppendCheckTask\<close>

record post_append_noop_task =
  post_noop_output :: "u32 option"

definition post_append_noop_task_new :: post_append_noop_task where
  "post_append_noop_task_new = \<lparr>post_noop_output = None\<rparr>"

definition post_append_noop_task_command_body :: "post_append_noop_task \<Rightarrow> 'v command_body" where
  "post_append_noop_task_command_body self = Cmd_Noop"

fun post_append_noop_task_process_data ::
    "post_append_noop_task \<Rightarrow> 'v data \<Rightarrow> 'v data option \<times> post_append_noop_task" where
  "post_append_noop_task_process_data self (Data_Exists seq) =
     (None, self\<lparr>post_noop_output := Some seq\<rparr>)"
| "post_append_noop_task_process_data self data = (Some data, self)"

definition post_append_noop_task_process_tagged ::
    "post_append_noop_task \<Rightarrow> 'v status_body \<Rightarrow> 'v task_error + u32 option" where
  "post_append_noop_task_process_tagged self status_body =
     (case sb_kind status_body of
        Kind_Ok \<Rightarrow> Inr (post_noop_output self)
      | Kind_No \<Rightarrow> Inl (UnexpectedNoResponse status_body)
      | Kind_Bad \<Rightarrow> Inl (UnexpectedBadResponse status_body))"

record post_append_check_task =
  post_check_output :: "u32 option"

definition post_append_check_task_new :: post_append_check_task where
  "post_append_check_task_new = \<lparr>post_check_output = None\<rparr>"

definition post_append_check_task_command_body :: "post_append_check_task \<Rightarrow> 'v command_body" where
  "post_append_check_task_command_body self = Cmd_Check"

fun post_append_check_task_process_data ::
    "post_append_check_task \<Rightarrow> 'v data \<Rightarrow> 'v data option \<times> post_append_check_task" where
  "post_append_check_task_process_data self (Data_Exists seq) =
     (None, self\<lparr>post_check_output := Some seq\<rparr>)"
| "post_append_check_task_process_data self data = (Some data, self)"

definition post_append_check_task_process_tagged ::
    "post_append_check_task \<Rightarrow> 'v status_body \<Rightarrow> 'v task_error + u32 option" where
  "post_append_check_task_process_tagged self status_body =
     (case sb_kind status_body of
        Kind_Ok \<Rightarrow> Inr (post_check_output self)
      | Kind_No \<Rightarrow> Inl (UnexpectedNoResponse status_body)
      | Kind_Bad \<Rightarrow> Inl (UnexpectedBadResponse status_body))"

section \<open>AppendUidTask\<close>

record 'v appenduid_task =
  appenduid_mailbox :: 'v
  appenduid_flags :: "'v flag list"
  appenduid_date :: "'v option"
  appenduid_message :: literal_or_literal8

definition appenduid_task_new :: "'v \<Rightarrow> literal_or_literal8 \<Rightarrow> 'v appenduid_task" where
  "appenduid_task_new mailbox message =
     \<lparr>appenduid_mailbox = mailbox, appenduid_flags = [], appenduid_date = None,
      appenduid_message = message\<rparr>"

definition appenduid_task_set_flags :: "'v flag list \<Rightarrow> 'v appenduid_task \<Rightarrow> 'v appenduid_task" where
  "appenduid_task_set_flags flags self = self\<lparr>appenduid_flags := flags\<rparr>"

definition appenduid_task_add_flag :: "'v flag \<Rightarrow> 'v appenduid_task \<Rightarrow> 'v appenduid_task" where
  "appenduid_task_add_flag flag self = self\<lparr>appenduid_flags := appenduid_flags self @ [flag]\<rparr>"

definition appenduid_task_with_flags :: "'v flag list \<Rightarrow> 'v appenduid_task \<Rightarrow> 'v appenduid_task" where
  "appenduid_task_with_flags flags self = appenduid_task_set_flags flags self"

definition appenduid_task_with_flag :: "'v flag \<Rightarrow> 'v appenduid_task \<Rightarrow> 'v appenduid_task" where
  "appenduid_task_with_flag flag self = appenduid_task_add_flag flag self"

definition appenduid_task_set_date :: "'v \<Rightarrow> 'v appenduid_task \<Rightarrow> 'v appenduid_task" where
  "appenduid_task_set_date date self = self\<lparr>appenduid_date := Some date\<rparr>"

definition appenduid_task_with_date :: "'v \<Rightarrow> 'v appenduid_task \<Rightarrow> 'v appenduid_task" where
  "appenduid_task_with_date date self = appenduid_task_set_date date self"

definition appenduid_task_command_body :: "'v appenduid_task \<Rightarrow> 'v command_body" where
  "appenduid_task_command_body self =
     Cmd_Append (appenduid_mailbox self) (appenduid_flags self) (appenduid_date self)
       (appenduid_message self)"

definition appenduid_task_process_tagged ::
    "'v appenduid_task \<Rightarrow> 'v status_body \<Rightarrow> 'v task_error + (nz_u32 \<times> nz_u32) option" where
  "appenduid_task_process_tagged self status_body =
     (case sb_kind status_body of
        Kind_Ok \<Rightarrow>
          (case sb_code status_body of
             Some (Code_AppendUid uid uid_validity) \<Rightarrow> Inr (Some (uid, uid_validity))
           | _ \<Rightarrow> Inr None)
      | Kind_No \<Rightarrow> Inl (UnexpectedNoResponse status_body)
      | Kind_Bad \<Rightarrow> Inl (UnexpectedBadResponse status_body))"

lemmas append_task_defs [task_simps] =
  append_task_command_body_def append_task_process_tagged_def
  post_append_noop_task_command_body_def post_append_noop_task_process_tagged_def
  post_append_check_task_command_body_def post_append_check_task_process_tagged_def
  appenduid_task_command_body_def appenduid_task_process_tagged_def

section \<open>The sequence number the tasks report\<close>

definition exists_of :: "'v data \<Rightarrow> u32 option" where
  "exists_of d = (case d of Data_Exists seq \<Rightarrow> Some seq | _ \<Rightarrow> None)"

interpretation append_exists: latest_collector append_task_process_data exists_of append_output
  by unfold_locales (auto simp: exists_of_def elim: append_task_process_data.elims split: data.splits)

interpretation post_noop_exists:
  latest_collector post_append_noop_task_process_data exists_of post_noop_output
  by unfold_locales
    (auto simp: exists_of_def elim: post_append_noop_task_process_data.elims split: data.splits)

interpretation post_check_exists:
  latest_collector post_append_check_task_process_data exists_of post_check_output
  by unfold_locales
    (auto simp: exists_of_def elim: post_append_check_task_process_data.elims split: data.splits)

end
