(* ===== verification/Tasks_Search.thy ===== *)
theory Tasks_Search
  imports Task_Trait
begin

text \<open>SEARCH, SORT and THREAD (\<open>src/tasks/tasks/search.rs\<close>, \<open>sort.rs\<close>, \<open>thread.rs\<close>).\<close>

section \<open>SEARCH\<close>

record 'v search_task =
  search_criteria :: "'v search_key list"
  search_uid :: bool
  search_output :: "nz_u32 list"

definition search_task_default :: "'v search_task" where
  "search_task_default = \<lparr>search_criteria = [Key_All], search_uid = True, search_output = []\<rparr>"

definition search_task_new :: "'v search_key list \<Rightarrow> 'v search_task" where
  "search_task_new criteria = search_task_default\<lparr>search_criteria := criteria\<rparr>"

definition search_task_set_uid :: "bool \<Rightarrow> 'v search_task \<Rightarrow> 'v search_task" where
  "search_task_set_uid uid self = self\<lparr>search_uid := uid\<rparr>"

definition search_task_with_uid :: "bool \<Rightarrow> 'v search_task \<Rightarrow> 'v search_task" where
  "search_task_with_uid uid self = search_task_set_uid uid self"

definition search_task_command_body :: "'v search_task \<Rightarrow> 'v command_body" where
  "search_task_command_body self = Cmd_Search None (search_criteria self) (search_uid self)"

fun search_task_process_data ::
    "'v search_task \<Rightarrow> 'v data \<Rightarrow> 'v data option \<times> 'v search_task" where
  "search_task_process_data self (Data_Search ids modseq) = (None, self\<lparr>search_output := ids\<rparr>)"
| "search_task_process_data self data = (Some data, self)"

definition search_task_process_tagged ::
    "'v search_task \<Rightarrow> 'v status_body \<Rightarrow> 'v task_error + nz_u32 list" where
  "search_task_process_tagged self status_body =
     (case sb_kind status_body of
        Kind_Ok \<Rightarrow> Inr (search_output self)
      | Kind_No \<Rightarrow> Inl (UnexpectedNoResponse status_body)
      | Kind_Bad \<Rightarrow> Inl (UnexpectedBadResponse status_body))"

section \<open>SORT\<close>

record 'v sort_task =
  sort_criteria :: "sort_criterion list"
  sort_charset :: 'v
  sort_search_criteria :: "'v search_key list"
  sort_uid :: bool
  sort_output :: "nz_u32 list option"

definition sort_task_new ::
    "'v lib \<Rightarrow> sort_criterion list \<Rightarrow> 'v search_key list \<Rightarrow> 'v sort_task" where
  "sort_task_new L criteria search =
     \<lparr>sort_criteria = criteria, sort_charset = charset_utf8 L, sort_search_criteria = search,
      sort_uid = True, sort_output = None\<rparr>"

definition sort_task_set_charset :: "'v \<Rightarrow> 'v sort_task \<Rightarrow> 'v sort_task" where
  "sort_task_set_charset charset self = self\<lparr>sort_charset := charset\<rparr>"

definition sort_task_with_charset :: "'v \<Rightarrow> 'v sort_task \<Rightarrow> 'v sort_task" where
  "sort_task_with_charset charset self = sort_task_set_charset charset self"

definition sort_task_set_uid :: "bool \<Rightarrow> 'v sort_task \<Rightarrow> 'v sort_task" where
  "sort_task_set_uid uid self = self\<lparr>sort_uid := uid\<rparr>"

definition sort_task_with_uid :: "bool \<Rightarrow> 'v sort_task \<Rightarrow> 'v sort_task" where
  "sort_task_with_uid uid self = sort_task_set_uid uid self"

definition sort_task_command_body :: "'v sort_task \<Rightarrow> 'v command_body" where
  "sort_task_command_body self =
     Cmd_Sort (sort_criteria self) (sort_charset self) (sort_search_criteria self) (sort_uid self)"

fun sort_task_process_data ::
    "'v sort_task \<Rightarrow> 'v data \<Rightarrow> 'v data option \<times> 'v sort_task" where
  "sort_task_process_data self (Data_Sort ids modseq) = (None, self\<lparr>sort_output := Some ids\<rparr>)"
| "sort_task_process_data self data = (Some data, self)"

definition sort_task_process_tagged ::
    "'v sort_task \<Rightarrow> 'v status_body \<Rightarrow> 'v task_error + nz_u32 list" where
  "sort_task_process_tagged self status_body =
     (case sb_kind status_body of
        Kind_Ok \<Rightarrow>
          (case sort_output self of
             Some ids \<Rightarrow> Inr ids
           | None \<Rightarrow> Inl (MissingData ''SORT''))
      | Kind_No \<Rightarrow> Inl (UnexpectedNoResponse status_body)
      | Kind_Bad \<Rightarrow> Inl (UnexpectedBadResponse status_body))"

section \<open>THREAD\<close>

record 'v thread_task =
  thread_algorithm :: 'v
  thread_charset :: 'v
  thread_search_criteria :: "'v search_key list"
  thread_uid :: bool
  thread_output :: "'v list option"

definition thread_task_new :: "'v lib \<Rightarrow> 'v \<Rightarrow> 'v search_key list \<Rightarrow> 'v thread_task" where
  "thread_task_new L algorithm search =
     \<lparr>thread_algorithm = algorithm, thread_charset = charset_utf8 L,
      thread_search_criteria = search, thread_uid = True, thread_output = None\<rparr>"

definition thread_task_set_charset :: "'v \<Rightarrow> 'v thread_task \<Rightarrow> 'v thread_task" where
  "thread_task_set_charset charset self = self\<lparr>thread_charset := charset\<rparr>"

definition thread_task_with_charset :: "'v \<Rightarrow> 'v thread_task \<Rightarrow> 'v thread_task" where
  "thread_task_with_charset charset self = thread_task_set_charset charset self"

definition thread_task_set_uid :: "bool \<Rightarrow> 'v thread_task \<Rightarrow> 'v thread_task" where
  "thread_task_set_uid uid self = self\<lparr>thread_uid := uid\<rparr>"

definition thread_task_with_uid :: "bool \<Rightarrow> 'v thread_task \<Rightarrow> 'v thread_task" where
  "thread_task_with_uid uid self = thread_task_set_uid uid self"

definition thread_task_command_body :: "'v thread_task \<Rightarrow> 'v command_body" where
  "thread_task_command_body self =
     Cmd_Thread (thread_algorithm self) (thread_charset self) (thread_search_criteria self)
       (thread_uid self)"

fun thread_task_process_data ::
    "'v thread_task \<Rightarrow> 'v data \<Rightarrow> 'v data option \<times> 'v thread_task" where
  "thread_task_process_data self (Data_Thread threads) =
     (None, self\<lparr>thread_output := Some threads\<rparr>)"
| "thread_task_process_data self data = (Some data, self)"

text \<open>The missing-data error of THREAD carries the name of SORT.\<close>

definition thread_task_process_tagged ::
    "'v thread_task \<Rightarrow> 'v status_body \<Rightarrow> 'v task_error + 'v list" where
  "thread_task_process_tagged self status_body =
     (case sb_kind status_body of
        Kind_Ok \<Rightarrow>
          (case thread_output self of
             Some threads \<Rightarrow> Inr threads
           | None \<Rightarrow> Inl (MissingData ''SORT''))
      | Kind_No \<Rightarrow> Inl (UnexpectedNoResponse status_body)
      | Kind_Bad \<Rightarrow> Inl (UnexpectedBadResponse status_body))"

lemmas search_task_defs [task_simps] =
  search_task_command_body_def search_task_process_tagged_def
  sort_task_command_body_def sort_task_process_tagged_def
  thread_task_command_body_def thread_task_process_tagged_def

section \<open>The answer the tasks report\<close>

definition search_of :: "'v data \<Rightarrow> nz_u32 list option" where
  "search_of d = (case d of Data_Search ids modseq \<Rightarrow> Some ids | _ \<Rightarrow> None)"

definition sort_of :: "'v data \<Rightarrow> nz_u32 list option" where
  "sort_of d = (case d of Data_Sort ids modseq \<Rightarrow> Some ids | _ \<Rightarrow> None)"

definition thread_of :: "'v data \<Rightarrow> 'v list option" where
  "thread_of d = (case d of Data_Thread threads \<Rightarrow> Some threads | _ \<Rightarrow> None)"

interpretation search: latest_collector search_task_process_data search_of "\<lambda>t. Some (search_output t)"
  by unfold_locales (auto simp: search_of_def elim: search_task_process_data.elims split: data.splits)

interpretation sort: latest_collector sort_task_process_data sort_of sort_output
  by unfold_locales (auto simp: sort_of_def elim: sort_task_process_data.elims split: data.splits)

interpretation thread: latest_collector thread_task_process_data thread_of thread_output
  by unfold_locales (auto simp: thread_of_def elim: thread_task_process_data.elims split: data.splits)

end
