(* ===== verification/Tasks_Select.thy ===== *)
theory Tasks_Select
  imports Task_Trait
begin

text \<open>SELECT and EXAMINE (\<open>src/tasks/tasks/select.rs\<close>).\<close>

record 'v select_data =
  sel_flags :: "'v flag list option"
  sel_exists :: "u32 option"
  sel_recent :: "u32 option"
  sel_unseen :: "nz_u32 option"
  sel_permanent_flags :: "'v list option"
  sel_uid_next :: "nz_u32 option"
  sel_uid_validity :: "nz_u32 option"
  sel_highest_modseq :: "nz_u64 option"

definition select_data_default :: "'v select_data" where
  "select_data_default =
     \<lparr>sel_flags = None, sel_exists = None, sel_recent = None, sel_unseen = None,
      sel_permanent_flags = None, sel_uid_next = None, sel_uid_validity = None,
      sel_highest_modseq = None\<rparr>"

text \<open>
  The messages that \<open>validate\<close> logs, in order, next to its result: the data itself, whatever
  is missing.
\<close>

definition select_data_missing :: "'v select_data \<Rightarrow> string list" where
  "select_data_missing self =
     (if sel_flags self = None then [''missing required FLAGS untagged response''] else []) @
     (if sel_exists self = None then [''missing required EXISTS untagged response''] else []) @
     (if sel_recent self = None then [''missing required RECENT untagged response''] else []) @
     (if sel_unseen self = None then [''missing required UNSEEN OK untagged response''] else []) @
     (if sel_permanent_flags self = None
      then [''missing required PERMANENTFLAGS OK untagged response''] else []) @
     (if sel_uid_next self = None then [''missing required UIDNEXT OK untagged response''] else []) @
     (if sel_uid_validity self = None
      then [''missing required UIDVALIDITY OK untagged response''] else [])"

definition select_data_validate ::
    "'v select_data \<Rightarrow> string list \<times> ('v task_error + 'v select_data)" where
  "select_data_validate self = (select_data_missing self, Inr self)"

record 'v select_task =
  select_mailbox :: 'v
  select_read_only :: bool
  select_condstore_enabled :: bool
  select_output :: "'v select_data"

definition select_task_new :: "'v \<Rightarrow> 'v select_task" where
  "select_task_new mailbox =
     \<lparr>select_mailbox = mailbox, select_read_only = False, select_condstore_enabled = False,
      select_output = select_data_default\<rparr>"

definition select_task_read_only :: "'v \<Rightarrow> 'v select_task" where
  "select_task_read_only mailbox =
     \<lparr>select_mailbox = mailbox, select_read_only = True, select_condstore_enabled = False,
      select_output = select_data_default\<rparr>"

definition select_task_with_condstore :: "bool \<Rightarrow> 'v select_task \<Rightarrow> 'v select_task" where
  "select_task_with_condstore enabled self = self\<lparr>select_condstore_enabled := enabled\<rparr>"

definition select_task_command_body :: "'v select_task \<Rightarrow> 'v command_body" where
  "select_task_command_body self =
     (let mailbox = select_mailbox self;
          parameters = (if select_condstore_enabled self then [Param_CondStore] else [])
      in if select_read_only self then Cmd_Examine mailbox parameters
         else Cmd_Select mailbox parameters)"

fun select_task_process_data ::
    "'v select_task \<Rightarrow> 'v data \<Rightarrow> 'v data option \<times> 'v select_task" where
  "select_task_process_data self (Data_Flags flags) =
     (None, self\<lparr>select_output := (select_output self)\<lparr>sel_flags := Some flags\<rparr>\<rparr>)"
| "select_task_process_data self (Data_Exists n) =
     (None, self\<lparr>select_output := (select_output self)\<lparr>sel_exists := Some n\<rparr>\<rparr>)"
| "select_task_process_data self (Data_Recent n) =
     (None, self\<lparr>select_output := (select_output self)\<lparr>sel_recent := Some n\<rparr>\<rparr>)"
| "select_task_process_data self data = (Some data, self)"

definition select_task_process_untagged ::
    "'v select_task \<Rightarrow> 'v status_body \<Rightarrow> 'v status_body option \<times> 'v select_task" where
  "select_task_process_untagged self status_body =
     (case sb_kind status_body of
        Kind_Ok \<Rightarrow>
          (case sb_code status_body of
             Some (Code_Unseen seq) \<Rightarrow>
               (None, self\<lparr>select_output := (select_output self)\<lparr>sel_unseen := Some seq\<rparr>\<rparr>)
           | Some (Code_PermanentFlags flags) \<Rightarrow>
               (None, self\<lparr>select_output := (select_output self)\<lparr>sel_permanent_flags := Some flags\<rparr>\<rparr>)
           | Some (Code_UidNext uid) \<Rightarrow>
               (None, self\<lparr>select_output := (select_output self)\<lparr>sel_uid_next := Some uid\<rparr>\<rparr>)
           | Some (Code_UidValidity uid) \<Rightarrow>
               (None, self\<lparr>select_output := (select_output self)\<lparr>sel_uid_validity := Some uid\<rparr>\<rparr>)
           | Some (Code_HighestModSeq modseq) \<Rightarrow>
               (None, self\<lparr>select_output := (select_output self)\<lparr>sel_highest_modseq := Some modseq\<rparr>\<rparr>)
           | _ \<Rightarrow> (Some status_body, self))
      | _ \<Rightarrow> (Some status_body, self))"

definition select_task_process_tagged ::
    "'v select_task \<Rightarrow> 'v status_body \<Rightarrow> 'v task_error + 'v select_data" where
  "select_task_process_tagged self status_body =
     (case sb_kind status_body of
        Kind_Ok \<Rightarrow> snd (select_data_validate (select_output self))
      | Kind_No \<Rightarrow> Inl (UnexpectedNoResponse status_body)
      | Kind_Bad \<Rightarrow> Inl (UnexpectedBadResponse status_body))"

lemmas select_task_defs [task_simps] =
  select_task_command_body_def select_task_process_untagged_def select_task_process_tagged_def
  select_data_validate_def

section \<open>The mailbox state the task reports\<close>

definition sel_flags_of :: "'v data \<Rightarrow> 'v flag list option" where
  "sel_flags_of d = (case d of Data_Flags flags \<Rightarrow> Some flags | _ \<Rightarrow> None)"

definition sel_exists_of :: "'v data \<Rightarrow> u32 option" where
  "sel_exists_of d = (case d of Data_Exists n \<Rightarrow> Some n | _ \<Rightarrow> None)"

definition sel_recent_of :: "'v data \<Rightarrow> u32 option" where
  "sel_recent_of d = (case d of Data_Recent n \<Rightarrow> Some n | _ \<Rightarrow> None)"

definition ok_code :: "('v code \<Rightarrow> 'b option) \<Rightarrow> 'v status_body \<Rightarrow> 'b option" where
  "ok_code f b =
     (case sb_kind b of
        Kind_Ok \<Rightarrow> (case sb_code b of Some c \<Rightarrow> f c | None \<Rightarrow> None)
      | _ \<Rightarrow> None)"

definition sel_unseen_of :: "'v status_body \<Rightarrow> nz_u32 option" where
  "sel_unseen_of = ok_code (\<lambda>c. case c of Code_Unseen seq \<Rightarrow> Some seq | _ \<Rightarrow> None)"

definition sel_permanent_flags_of :: "'v status_body \<Rightarrow> 'v list option" where
  "sel_permanent_flags_of = ok_code (\<lambda>c. case c of Code_PermanentFlags fs \<Rightarrow> Some fs | _ \<Rightarrow> None)"

definition sel_uid_next_of :: "'v status_body \<Rightarrow> nz_u32 option" where
  "sel_uid_next_of = ok_code (\<lambda>c. case c of Code_UidNext uid \<Rightarrow> Some uid | _ \<Rightarrow> None)"

definition sel_uid_validity_of :: "'v status_body \<Rightarrow> nz_u32 option" where
  "sel_uid_validity_of = ok_code (\<lambda>c. case c of Code_UidValidity uid \<Rightarrow> Some uid | _ \<Rightarrow> None)"

definition sel_highest_modseq_of :: "'v status_body \<Rightarrow> nz_u64 option" where
  "sel_highest_modseq_of = ok_code (\<lambda>c. case c of Code_HighestModSeq m \<Rightarrow> Some m | _ \<Rightarrow> None)"

lemmas sel_code_defs =
  ok_code_def sel_unseen_of_def sel_permanent_flags_of_def sel_uid_next_of_def
  sel_uid_validity_of_def sel_highest_modseq_of_def

interpretation select_flags:
  latest_collector select_task_process_data sel_flags_of "\<lambda>t. sel_flags (select_output t)"
  by unfold_locales (auto simp: sel_flags_of_def elim: select_task_process_data.elims split: data.splits)

interpretation select_exists:
  latest_collector select_task_process_data sel_exists_of "\<lambda>t. sel_exists (select_output t)"
  by unfold_locales (auto simp: sel_exists_of_def elim: select_task_process_data.elims split: data.splits)

interpretation select_recent:
  latest_collector select_task_process_data sel_recent_of "\<lambda>t. sel_recent (select_output t)"
  by unfold_locales (auto simp: sel_recent_of_def elim: select_task_process_data.elims split: data.splits)

interpretation select_unseen:
  latest_collector select_task_process_untagged sel_unseen_of "\<lambda>t. sel_unseen (select_output t)"
  by unfold_locales
    (auto simp: sel_code_defs select_task_process_untagged_def
      split: option.splits code.splits status_kind.splits)

interpretation select_permanent_flags: latest_collector select_task_process_untagged
    sel_permanent_flags_of "\<lambda>t. sel_permanent_flags (select_output t)"
  by unfold_locales
    (auto simp: sel_code_defs select_task_process_untagged_def
      split: option.splits code.splits status_kind.splits)

interpretation select_uid_next:
  latest_collector select_task_process_untagged sel_uid_next_of "\<lambda>t. sel_uid_next (select_output t)"
  by unfold_locales
    (auto simp: sel_code_defs select_task_process_untagged_def
      split: option.splits code.splits status_kind.splits)

interpretation select_uid_validity: latest_collector select_task_process_untagged
    sel_uid_validity_of "\<lambda>t. sel_uid_validity (select_output t)"
  by unfold_locales
    (auto simp: sel_code_defs select_task_process_untagged_def
      split: option.splits code.splits status_kind.splits)

interpretation select_highest_modseq: latest_collector select_task_process_untagged
    sel_highest_modseq_of "\<lambda>t. sel_highest_modseq (select_output t)"
  by unfold_locales
    (auto simp: sel_code_defs select_task_process_untagged_def
      split: option.splits code.splits status_kind.splits)

end
