(* ===== verification/Tasks_Fetch.thy ===== *)
theory Tasks_Fetch
  imports Task_Trait
begin

text \<open>
  FETCH and STORE (\<open>src/tasks/tasks/fetch.rs\<close>, \<open>store.rs\<close>): the task that merges the items of
  every message, the one that wants a single message, and STORE with and without an answer.
\<close>

section \<open>FetchTask\<close>

record 'v fetch_task =
  fetch_sequence_set :: 'v
  fetch_macro_or_item_names :: "'v macro_or_names"
  fetch_uid :: bool
  fetch_modifiers :: "'v fetch_modifier list"
  fetch_output :: "(nz_u32, 'v item hash_set) hash_map"

definition fetch_task_new :: "'v \<Rightarrow> 'v macro_or_names \<Rightarrow> 'v fetch_task" where
  "fetch_task_new sequence_set items =
     \<lparr>fetch_sequence_set = sequence_set, fetch_macro_or_item_names = items, fetch_uid = True,
      fetch_modifiers = [], fetch_output = []\<rparr>"

definition fetch_task_set_uid :: "bool \<Rightarrow> 'v fetch_task \<Rightarrow> 'v fetch_task" where
  "fetch_task_set_uid uid self = self\<lparr>fetch_uid := uid\<rparr>"

definition fetch_task_with_uid :: "bool \<Rightarrow> 'v fetch_task \<Rightarrow> 'v fetch_task" where
  "fetch_task_with_uid uid self = fetch_task_set_uid uid self"

definition fetch_task_set_modifiers :: "'v fetch_modifier list \<Rightarrow> 'v fetch_task \<Rightarrow> 'v fetch_task" where
  "fetch_task_set_modifiers modifiers self = self\<lparr>fetch_modifiers := modifiers\<rparr>"

definition fetch_task_with_modifiers :: "'v fetch_modifier list \<Rightarrow> 'v fetch_task \<Rightarrow> 'v fetch_task" where
  "fetch_task_with_modifiers modifiers self = self\<lparr>fetch_modifiers := modifiers\<rparr>"

definition fetch_task_with_changed_since :: "nz_u64 \<Rightarrow> 'v fetch_task \<Rightarrow> 'v fetch_task" where
  "fetch_task_with_changed_since modseq self =
     self\<lparr>fetch_modifiers := fetch_modifiers self @ [Mod_ChangedSince modseq]\<rparr>"

definition fetch_task_with_vanished :: "'v fetch_task \<Rightarrow> 'v fetch_task" where
  "fetch_task_with_vanished self = self\<lparr>fetch_modifiers := fetch_modifiers self @ [Mod_Vanished]\<rparr>"

definition fetch_task_command_body :: "'v fetch_task \<Rightarrow> 'v command_body" where
  "fetch_task_command_body self =
     Cmd_Fetch (fetch_modifiers self) (fetch_sequence_set self) (fetch_macro_or_item_names self)
       (fetch_uid self)"

text \<open>
  Items of a message already seen are added to its set in place (\<open>get_mut\<close>, which leaves the
  table as it is); a new message gets a set of its own.
\<close>

fun fetch_task_process_data ::
    "'v lib \<Rightarrow> 'v fetch_task \<Rightarrow> 'v data \<Rightarrow> 'v data option \<times> 'v fetch_task" where
  "fetch_task_process_data L self (Data_Fetch seq items) =
     (case map_of (fetch_output self) seq of
        Some prev_items \<Rightarrow>
          (None, self\<lparr>fetch_output :=
             AList.update seq (hs_extend (item_order L) items prev_items) (fetch_output self)\<rparr>)
      | None \<Rightarrow>
          (None, self\<lparr>fetch_output :=
             hm_insert (seq_order L) seq (hs_extend (item_order L) items []) (fetch_output self)\<rparr>))"
| "fetch_task_process_data L self data = (Some data, self)"

text \<open>The sets become \<open>Vec1\<close>s, unchecked, and the map is collected anew.\<close>

definition fetch_task_process_tagged ::
    "'v lib \<Rightarrow> 'v fetch_task \<Rightarrow> 'v status_body
       \<Rightarrow> 'v task_error + (nz_u32, 'v item list) hash_map" where
  "fetch_task_process_tagged L self status_body =
     (case sb_kind status_body of
        Kind_Ok \<Rightarrow> Inr (hm_extend (seq_order L) (fetch_output self) [])
      | Kind_No \<Rightarrow> Inl (UnexpectedNoResponse status_body)
      | Kind_Bad \<Rightarrow> Inl (UnexpectedBadResponse status_body))"

section \<open>FetchFirstTask\<close>

record 'v fetch_first_task =
  fetch_first_id :: nz_u32
  fetch_first_macro_or_item_names :: "'v macro_or_names"
  fetch_first_uid :: bool
  fetch_first_output :: "'v item list option"

definition fetch_first_task_new :: "nz_u32 \<Rightarrow> 'v macro_or_names \<Rightarrow> 'v fetch_first_task" where
  "fetch_first_task_new msg_id items =
     \<lparr>fetch_first_id = msg_id, fetch_first_macro_or_item_names = items, fetch_first_uid = True,
      fetch_first_output = None\<rparr>"

definition fetch_first_task_set_uid :: "bool \<Rightarrow> 'v fetch_first_task \<Rightarrow> 'v fetch_first_task" where
  "fetch_first_task_set_uid uid self = self\<lparr>fetch_first_uid := uid\<rparr>"

definition fetch_first_task_with_uid :: "bool \<Rightarrow> 'v fetch_first_task \<Rightarrow> 'v fetch_first_task" where
  "fetch_first_task_with_uid uid self = fetch_first_task_set_uid uid self"

definition fetch_first_task_command_body :: "'v lib \<Rightarrow> 'v fetch_first_task \<Rightarrow> 'v command_body" where
  "fetch_first_task_command_body L self =
     Cmd_Fetch [] (seq_set_of_id L (fetch_first_id self)) (fetch_first_macro_or_item_names self)
       (fetch_first_uid self)"

fun fetch_first_task_process_data ::
    "'v fetch_first_task \<Rightarrow> 'v data \<Rightarrow> 'v data option \<times> 'v fetch_first_task" where
  "fetch_first_task_process_data self (Data_Fetch seq items) =
     (None, self\<lparr>fetch_first_output := Some items\<rparr>)"
| "fetch_first_task_process_data self data = (Some data, self)"

definition fetch_first_task_process_tagged ::
    "'v fetch_first_task \<Rightarrow> 'v status_body \<Rightarrow> 'v task_error + 'v item list" where
  "fetch_first_task_process_tagged self status_body =
     (case sb_kind status_body of
        Kind_Ok \<Rightarrow>
          (case fetch_first_output self of
             Some items \<Rightarrow> Inr items
           | None \<Rightarrow> Inl (MissingData ''FETCH: items''))
      | Kind_No \<Rightarrow> Inl (UnexpectedNoResponse status_body)
      | Kind_Bad \<Rightarrow> Inl (UnexpectedBadResponse status_body))"

section \<open>StoreTask and SilentStoreTask\<close>

record 'v store_task =
  store_sequence_set :: 'v
  store_kind :: "'v store_type"
  store_flags :: "'v flag list"
  store_uid :: bool
  store_output :: "(nz_u32, 'v item list) hash_map"

definition store_task_new :: "'v \<Rightarrow> 'v store_type \<Rightarrow> 'v flag list \<Rightarrow> 'v store_task" where
  "store_task_new sequence_set kind flags =
     \<lparr>store_sequence_set = sequence_set, store_kind = kind, store_flags = flags,
      store_uid = True, store_output = []\<rparr>"

definition store_task_set_uid :: "bool \<Rightarrow> 'v store_task \<Rightarrow> 'v store_task" where
  "store_task_set_uid uid self = self\<lparr>store_uid := uid\<rparr>"

definition store_task_with_uid :: "bool \<Rightarrow> 'v store_task \<Rightarrow> 'v store_task" where
  "store_task_with_uid uid self = store_task_set_uid uid self"

definition store_task_command_body :: "'v store_task \<Rightarrow> 'v command_body" where
  "store_task_command_body self =
     Cmd_Store [] (store_sequence_set self) (store_kind self) Answer (store_flags self)
       (store_uid self)"

fun store_task_process_data ::
    "'v lib \<Rightarrow> 'v store_task \<Rightarrow> 'v data \<Rightarrow> 'v data option \<times> 'v store_task" where
  "store_task_process_data L self (Data_Fetch seq items) =
     (None, self\<lparr>store_output := hm_insert (seq_order L) seq items (store_output self)\<rparr>)"
| "store_task_process_data L self data = (Some data, self)"

definition store_task_process_tagged ::
    "'v store_task \<Rightarrow> 'v status_body \<Rightarrow> 'v task_error + (nz_u32, 'v item list) hash_map" where
  "store_task_process_tagged self status_body =
     (case sb_kind status_body of
        Kind_Ok \<Rightarrow> Inr (store_output self)
      | Kind_No \<Rightarrow> Inl (UnexpectedNoResponse status_body)
      | Kind_Bad \<Rightarrow> Inl (UnexpectedBadResponse status_body))"

datatype 'v silent_store_task = SilentStoreTask (silent_store: "'v store_task")

definition silent_store_task_new :: "'v store_task \<Rightarrow> 'v silent_store_task" where
  [simp]: "silent_store_task_new store = SilentStoreTask store"

definition store_task_silent :: "'v store_task \<Rightarrow> 'v silent_store_task" where
  "store_task_silent self = silent_store_task_new self"

definition silent_store_task_command_body :: "'v silent_store_task \<Rightarrow> 'v command_body" where
  "silent_store_task_command_body self =
     (let store = silent_store self
      in Cmd_Store [] (store_sequence_set store) (store_kind store) Silent (store_flags store)
           (store_uid store))"

definition silent_store_task_process_tagged ::
    "'v silent_store_task \<Rightarrow> 'v status_body \<Rightarrow> 'v task_error + unit" where
  "silent_store_task_process_tagged self status_body =
     (case sb_kind status_body of
        Kind_Ok \<Rightarrow> Inr ()
      | Kind_No \<Rightarrow> Inl (UnexpectedNoResponse status_body)
      | Kind_Bad \<Rightarrow> Inl (UnexpectedBadResponse status_body))"

lemmas fetch_task_defs [task_simps] =
  fetch_task_command_body_def fetch_task_process_tagged_def
  fetch_first_task_command_body_def fetch_first_task_process_tagged_def
  store_task_command_body_def store_task_process_tagged_def
  silent_store_task_command_body_def silent_store_task_process_tagged_def

section \<open>The items the tasks report\<close>

definition fetch_of :: "'v data \<Rightarrow> (nz_u32 \<times> 'v item list) option" where
  "fetch_of d = (case d of Data_Fetch seq items \<Rightarrow> Some (seq, items) | _ \<Rightarrow> None)"

definition fetch_items_of :: "nz_u32 \<Rightarrow> 'v data \<Rightarrow> 'v item list option" where
  "fetch_items_of k d =
     (case d of Data_Fetch seq items \<Rightarrow> if seq = k then Some items else None | _ \<Rightarrow> None)"

interpretation fetch_first: latest_collector fetch_first_task_process_data
    "\<lambda>d. map_option snd (fetch_of d)" fetch_first_output
  by unfold_locales
    (auto simp: fetch_of_def elim: fetch_first_task_process_data.elims split: data.splits)

interpretation fetch: response_consumer "fetch_task_process_data L" for L :: "'v lib"
  by unfold_locales (auto elim: fetch_task_process_data.elims split: option.splits)

interpretation store: response_consumer "store_task_process_data L" for L :: "'v lib"
  by unfold_locales (auto elim: store_task_process_data.elims)

text \<open>STORE keeps, for every message, the items of the latest response about it.\<close>

lemma store_task_valid:
  "hm_valid (store_output t) \<Longrightarrow> hm_valid (store_output (feed (store_task_process_data L) ds t))"
proof (induction ds arbitrary: t)
  case (Cons d ds)
  have "hm_valid (store_output (snd (store_task_process_data L t d)))"
    using Cons.prems by (cases d) (auto simp: hm.valid_ins)
  with Cons.IH show ?case by simp
qed simp

lemma store_task_latest:
  "hm_valid (store_output t) \<Longrightarrow>
     map_of (store_output (feed (store_task_process_data L) ds t)) k =
     (case find_map (fetch_items_of k) (rev ds) of
        Some items \<Rightarrow> Some items
      | None \<Rightarrow> map_of (store_output t) k)"
proof (induction ds arbitrary: t)
  case (Cons d ds)
  have "hm_valid (store_output (snd (store_task_process_data L t d)))"
    using Cons.prems by (cases d) (auto simp: hm.valid_ins)
  moreover have "map_of (store_output (snd (store_task_process_data L t d))) k =
      (case fetch_items_of k d of Some items \<Rightarrow> Some items | None \<Rightarrow> map_of (store_output t) k)"
    using Cons.prems by (cases d) (auto simp: fetch_items_of_def hm.get_ins)
  ultimately show ?case
    using Cons.IH by (auto simp: find_map_append split: option.splits)
qed simp

text \<open>FETCH keeps, for every message, all items of all responses about it, each item once.\<close>

definition fetch_task_inv :: "'v fetch_task \<Rightarrow> bool" where
  "fetch_task_inv t \<longleftrightarrow>
     hm_valid (fetch_output t) \<and> (\<forall>(k, items) \<in> set (fetch_output t). distinct items)"

lemma fetch_task_invI:
  "hm_valid (fetch_output t) \<Longrightarrow>
     (\<And>k items. map_of (fetch_output t) k = Some items \<Longrightarrow> distinct items) \<Longrightarrow> fetch_task_inv t"
  by (auto simp: fetch_task_inv_def hm.set_entries)

lemma fetch_task_invD:
  "fetch_task_inv t \<Longrightarrow> hm_valid (fetch_output t)"
  "fetch_task_inv t \<Longrightarrow> map_of (fetch_output t) k = Some items \<Longrightarrow> distinct items"
  by (auto simp: fetch_task_inv_def hm.set_entries)

lemma hm_valid_update: "hm_valid m \<Longrightarrow> hm_valid (AList.update k v m)"
  by (simp add: hm_valid_def distinct_update)

lemma fetch_task_step_inv:
  assumes "fetch_task_inv t"
  shows "fetch_task_inv (snd (fetch_task_process_data L t d))"
proof (cases d)
  case (Data_Fetch seq items)
  then show ?thesis
    using fetch_task_invD [OF assms]
    by (intro fetch_task_invI)
      (auto simp: hm_valid_update hm.valid_ins hm.get_ins map_of_AList_update hs_extend_distinct
        split: option.splits if_splits)
qed (use assms in auto)

lemma fetch_task_step_items:
  assumes "fetch_task_inv t"
  shows "map_option set (map_of (fetch_output (snd (fetch_task_process_data L t d))) k) =
    (case fetch_items_of k d of
       Some items \<Rightarrow> Some (set items \<union> (case map_of (fetch_output t) k of None \<Rightarrow> {} | Some s \<Rightarrow> set s))
     | None \<Rightarrow> map_option set (map_of (fetch_output t) k))"
  using fetch_task_invD [OF assms]
  by (cases d) (auto simp: fetch_items_of_def hm.get_ins map_of_AList_update split: option.splits)

lemma fetch_task_feed_inv:
  "fetch_task_inv t \<Longrightarrow> fetch_task_inv (feed (fetch_task_process_data L) ds t)"
  by (induction ds arbitrary: t) (auto simp: fetch_task_step_inv)

lemma fetch_task_feed_items:
  "fetch_task_inv t \<Longrightarrow>
   map_option set (map_of (fetch_output (feed (fetch_task_process_data L) ds t)) k) =
     (if List.map_filter (fetch_items_of k) ds = [] then map_option set (map_of (fetch_output t) k)
      else Some (set (concat (List.map_filter (fetch_items_of k) ds)) \<union>
             (case map_of (fetch_output t) k of None \<Rightarrow> {} | Some s \<Rightarrow> set s)))"
proof (induction ds arbitrary: t)
  case (Cons d ds)
  show ?case
    using Cons.IH [OF fetch_task_step_inv [OF Cons.prems, of L d]]
      fetch_task_step_items [OF Cons.prems, of L d k]
    by (cases "fetch_items_of k d")
      (auto simp: List.map_filter_simps split: option.splits)
qed (simp add: List.map_filter_simps)

lemma fetch_task_new_inv: "fetch_task_inv (fetch_task_new sequence_set items)"
  by (simp add: fetch_task_new_def fetch_task_inv_def hm.valid_empty)

text \<open>Collecting the finished map anew changes its order, not its entries.\<close>

lemma fetch_task_collected:
  assumes "hm_valid m"
  shows "map_of (hm_extend ord m []) = map_of m" and "hm_valid (hm_extend ord m [])"
  using assms hm_extend_get_distinct [of "[]" m ord] hm_extend_valid [of "[]" ord m]
  by (auto simp: hm_valid_def)

end
