(* ===== verification/Task_Any.thy ===== *)
theory Task_Any
  imports Tasks_Basic Tasks_Session Tasks_Append Tasks_Search Tasks_Select Tasks_Fetch
begin

text \<open>
  Tasks behind one type (\<open>src/tasks/mod.rs\<close>, \<open>Box<dyn TaskAny>\<close>): the tasks of the library are the
  constructors of one datatype, a method call on a trait object is a function by cases, and the
  \<open>Box<dyn Any>\<close> a finished task leaves is a value that knows its Rust type.
\<close>

section \<open>Trait objects\<close>

datatype 'v task =
    T_Append "'v append_task"
  | T_PostAppendNoOp post_append_noop_task
  | T_PostAppendCheck post_append_check_task
  | T_AppendUid "'v appenduid_task"
  | T_Authenticate "'v authenticate_task"
  | T_Capability "'v capability_task"
  | T_Check
  | T_Copy "'v copy_task"
  | T_Create "'v create_task"
  | T_Delete "'v delete_task"
  | T_Enable "'v enable_task"
  | T_Expunge expunge_task
  | T_Fetch "'v fetch_task"
  | T_FetchFirst "'v fetch_first_task"
  | T_Id "'v id_task"
  | T_List "'v list_task"
  | T_Login "'v login_task"
  | T_Logout logout_task
  | T_Move "'v move_task"
  | T_NoOp
  | T_Search "'v search_task"
  | T_Select "'v select_task"
  | T_Sort "'v sort_task"
  | T_Store "'v store_task"
  | T_SilentStore "'v silent_store_task"
  | T_Thread "'v thread_task"

text \<open>A boxed output: one constructor per Rust type that occurs as a task's \<open>Output\<close>.\<close>

datatype 'v any_output =
    Out_Seq "'v task_error + u32 option"
  | Out_UidPair "'v task_error + (nz_u32 \<times> nz_u32) option"
  | Out_CapabilitiesOpt "'v task_error + 'v capability list option"
  | Out_Capabilities "'v task_error + 'v capability list"
  | Out_Unit "'v task_error + unit"
  | Out_Enabled "'v task_error + 'v capability_enable list option"
  | Out_Ids "'v task_error + nz_u32 list"
  | Out_ItemMap "'v task_error + (nz_u32, 'v item list) hash_map"
  | Out_Items "'v task_error + 'v item list"
  | Out_Parameters "'v task_error + ('v \<times> 'v) list option"
  | Out_Mailboxes "'v task_error + ('v \<times> 'v option \<times> 'v list) list"
  | Out_Selected "'v task_error + 'v select_data"
  | Out_Threads "'v task_error + 'v list"

datatype type_id =
    Ty_Seq | Ty_UidPair | Ty_CapabilitiesOpt | Ty_Capabilities | Ty_Unit | Ty_Enabled
  | Ty_Ids | Ty_ItemMap | Ty_Items | Ty_Parameters | Ty_Mailboxes | Ty_Selected | Ty_Threads

text \<open>The \<open>TypeId\<close> of a boxed output, and of the \<open>Output\<close> type each task declares.\<close>

fun output_type :: "'v any_output \<Rightarrow> type_id" where
  "output_type (Out_Seq r) = Ty_Seq"
| "output_type (Out_UidPair r) = Ty_UidPair"
| "output_type (Out_CapabilitiesOpt r) = Ty_CapabilitiesOpt"
| "output_type (Out_Capabilities r) = Ty_Capabilities"
| "output_type (Out_Unit r) = Ty_Unit"
| "output_type (Out_Enabled r) = Ty_Enabled"
| "output_type (Out_Ids r) = Ty_Ids"
| "output_type (Out_ItemMap r) = Ty_ItemMap"
| "output_type (Out_Items r) = Ty_Items"
| "output_type (Out_Parameters r) = Ty_Parameters"
| "output_type (Out_Mailboxes r) = Ty_Mailboxes"
| "output_type (Out_Selected r) = Ty_Selected"
| "output_type (Out_Threads r) = Ty_Threads"

fun task_type :: "'v task \<Rightarrow> type_id" where
  "task_type (T_Append t) = Ty_Seq"
| "task_type (T_PostAppendNoOp t) = Ty_Seq"
| "task_type (T_PostAppendCheck t) = Ty_Seq"
| "task_type (T_AppendUid t) = Ty_UidPair"
| "task_type (T_Authenticate t) = Ty_CapabilitiesOpt"
| "task_type (T_Capability t) = Ty_Capabilities"
| "task_type T_Check = Ty_Unit"
| "task_type (T_Copy t) = Ty_Unit"
| "task_type (T_Create t) = Ty_Unit"
| "task_type (T_Delete t) = Ty_Unit"
| "task_type (T_Enable t) = Ty_Enabled"
| "task_type (T_Expunge t) = Ty_Ids"
| "task_type (T_Fetch t) = Ty_ItemMap"
| "task_type (T_FetchFirst t) = Ty_Items"
| "task_type (T_Id t) = Ty_Parameters"
| "task_type (T_List t) = Ty_Mailboxes"
| "task_type (T_Login t) = Ty_CapabilitiesOpt"
| "task_type (T_Logout t) = Ty_Unit"
| "task_type (T_Move t) = Ty_Unit"
| "task_type T_NoOp = Ty_Unit"
| "task_type (T_Search t) = Ty_Ids"
| "task_type (T_Select t) = Ty_Selected"
| "task_type (T_Sort t) = Ty_Ids"
| "task_type (T_Store t) = Ty_ItemMap"
| "task_type (T_SilentStore t) = Ty_Unit"
| "task_type (T_Thread t) = Ty_Threads"

section \<open>Method calls\<close>

fun task_command_body :: "'v lib \<Rightarrow> 'v task \<Rightarrow> 'v command_body run" where
  "task_command_body L (T_Append t) = Ret (append_task_command_body t)"
| "task_command_body L (T_PostAppendNoOp t) = Ret (post_append_noop_task_command_body t)"
| "task_command_body L (T_PostAppendCheck t) = Ret (post_append_check_task_command_body t)"
| "task_command_body L (T_AppendUid t) = Ret (appenduid_task_command_body t)"
| "task_command_body L (T_Authenticate t) = authenticate_task_command_body t"
| "task_command_body L (T_Capability t) = Ret (capability_task_command_body t)"
| "task_command_body L T_Check = Ret check_task_command_body"
| "task_command_body L (T_Copy t) = Ret (copy_task_command_body t)"
| "task_command_body L (T_Create t) = Ret (create_task_command_body t)"
| "task_command_body L (T_Delete t) = Ret (delete_task_command_body t)"
| "task_command_body L (T_Enable t) = Ret (enable_task_command_body t)"
| "task_command_body L (T_Expunge t) = Ret (expunge_task_command_body t)"
| "task_command_body L (T_Fetch t) = Ret (fetch_task_command_body t)"
| "task_command_body L (T_FetchFirst t) = Ret (fetch_first_task_command_body L t)"
| "task_command_body L (T_Id t) = Ret (id_task_command_body t)"
| "task_command_body L (T_List t) = Ret (list_task_command_body t)"
| "task_command_body L (T_Login t) = Ret (login_task_command_body t)"
| "task_command_body L (T_Logout t) = Ret (logout_task_command_body t)"
| "task_command_body L (T_Move t) = Ret (move_task_command_body t)"
| "task_command_body L T_NoOp = Ret noop_task_command_body"
| "task_command_body L (T_Search t) = Ret (search_task_command_body t)"
| "task_command_body L (T_Select t) = Ret (select_task_command_body t)"
| "task_command_body L (T_Sort t) = Ret (sort_task_command_body t)"
| "task_command_body L (T_Store t) = Ret (store_task_command_body t)"
| "task_command_body L (T_SilentStore t) = Ret (silent_store_task_command_body t)"
| "task_command_body L (T_Thread t) = Ret (thread_task_command_body t)"

text \<open>The task a method of an inner task leaves behind goes back into its box.\<close>

definition reboxed :: "('t \<Rightarrow> 'v task) \<Rightarrow> 'r \<times> 't \<Rightarrow> 'r \<times> 'v task" where
  "reboxed box r = (fst r, box (snd r))"

fun task_process_data :: "'v lib \<Rightarrow> 'v task \<Rightarrow> 'v data \<Rightarrow> 'v data option \<times> 'v task" where
  "task_process_data L (T_Append t) d = reboxed T_Append (append_task_process_data t d)"
| "task_process_data L (T_PostAppendNoOp t) d = reboxed T_PostAppendNoOp (post_append_noop_task_process_data t d)"
| "task_process_data L (T_PostAppendCheck t) d = reboxed T_PostAppendCheck (post_append_check_task_process_data t d)"
| "task_process_data L (T_Authenticate t) d = reboxed T_Authenticate (authenticate_task_process_data t d)"
| "task_process_data L (T_Capability t) d = reboxed T_Capability (capability_task_process_data t d)"
| "task_process_data L (T_Enable t) d = reboxed T_Enable (enable_task_process_data t d)"
| "task_process_data L (T_Expunge t) d = reboxed T_Expunge (expunge_task_process_data t d)"
| "task_process_data L (T_Fetch t) d = reboxed T_Fetch (fetch_task_process_data L t d)"
| "task_process_data L (T_FetchFirst t) d = reboxed T_FetchFirst (fetch_first_task_process_data t d)"
| "task_process_data L (T_Id t) d = reboxed T_Id (id_task_process_data t d)"
| "task_process_data L (T_List t) d = reboxed T_List (list_task_process_data t d)"
| "task_process_data L (T_Login t) d = reboxed T_Login (login_task_process_data t d)"
| "task_process_data L (T_Search t) d = reboxed T_Search (search_task_process_data t d)"
| "task_process_data L (T_Select t) d = reboxed T_Select (select_task_process_data t d)"
| "task_process_data L (T_Sort t) d = reboxed T_Sort (sort_task_process_data t d)"
| "task_process_data L (T_Store t) d = reboxed T_Store (store_task_process_data L t d)"
| "task_process_data L (T_Thread t) d = reboxed T_Thread (thread_task_process_data t d)"
| "task_process_data L t d = default_process t d"

fun task_process_untagged ::
    "'v task \<Rightarrow> 'v status_body \<Rightarrow> 'v status_body option \<times> 'v task" where
  "task_process_untagged (T_Capability t) b = reboxed T_Capability (capability_task_process_untagged t b)"
| "task_process_untagged (T_Select t) b = reboxed T_Select (select_task_process_untagged t b)"
| "task_process_untagged t b = default_process t b"

definition task_process_continuation ::
    "'v task \<Rightarrow> 'v continuation \<Rightarrow> 'v continuation option \<times> 'v task" where
  "task_process_continuation t c = default_process t c"

fun task_process_authenticate ::
    "'v task \<Rightarrow> 'v continuation \<Rightarrow> ('v continuation + auth_data) \<times> 'v task" where
  "task_process_authenticate (T_Authenticate t) c =
     reboxed T_Authenticate (authenticate_task_process_continuation t c)"
| "task_process_authenticate t c = default_process_authenticate t c"

fun task_process_bye :: "'v task \<Rightarrow> 'v \<Rightarrow> 'v option \<times> 'v task" where
  "task_process_bye (T_Logout t) bye = reboxed T_Logout (logout_task_process_bye t bye)"
| "task_process_bye t bye = default_process t bye"

fun task_process_tagged :: "'v lib \<Rightarrow> 'v task \<Rightarrow> 'v status_body \<Rightarrow> 'v any_output" where
  "task_process_tagged L (T_Append t) b = Out_Seq (append_task_process_tagged t b)"
| "task_process_tagged L (T_PostAppendNoOp t) b = Out_Seq (post_append_noop_task_process_tagged t b)"
| "task_process_tagged L (T_PostAppendCheck t) b = Out_Seq (post_append_check_task_process_tagged t b)"
| "task_process_tagged L (T_AppendUid t) b = Out_UidPair (appenduid_task_process_tagged t b)"
| "task_process_tagged L (T_Authenticate t) b = Out_CapabilitiesOpt (authenticate_task_process_tagged t b)"
| "task_process_tagged L (T_Capability t) b = Out_Capabilities (capability_task_process_tagged t b)"
| "task_process_tagged L T_Check b = Out_Unit (check_task_process_tagged b)"
| "task_process_tagged L (T_Copy t) b = Out_Unit (copy_task_process_tagged t b)"
| "task_process_tagged L (T_Create t) b = Out_Unit (create_task_process_tagged t b)"
| "task_process_tagged L (T_Delete t) b = Out_Unit (delete_task_process_tagged t b)"
| "task_process_tagged L (T_Enable t) b = Out_Enabled (enable_task_process_tagged t b)"
| "task_process_tagged L (T_Expunge t) b = Out_Ids (expunge_task_process_tagged t b)"
| "task_process_tagged L (T_Fetch t) b = Out_ItemMap (fetch_task_process_tagged L t b)"
| "task_process_tagged L (T_FetchFirst t) b = Out_Items (fetch_first_task_process_tagged t b)"
| "task_process_tagged L (T_Id t) b = Out_Parameters (id_task_process_tagged t b)"
| "task_process_tagged L (T_List t) b = Out_Mailboxes (list_task_process_tagged t b)"
| "task_process_tagged L (T_Login t) b = Out_CapabilitiesOpt (login_task_process_tagged t b)"
| "task_process_tagged L (T_Logout t) b = Out_Unit (logout_task_process_tagged t b)"
| "task_process_tagged L (T_Move t) b = Out_Unit (move_task_process_tagged t b)"
| "task_process_tagged L T_NoOp b = Out_Unit (noop_task_process_tagged b)"
| "task_process_tagged L (T_Search t) b = Out_Ids (search_task_process_tagged t b)"
| "task_process_tagged L (T_Select t) b = Out_Selected (select_task_process_tagged t b)"
| "task_process_tagged L (T_Sort t) b = Out_Ids (sort_task_process_tagged t b)"
| "task_process_tagged L (T_Store t) b = Out_ItemMap (store_task_process_tagged t b)"
| "task_process_tagged L (T_SilentStore t) b = Out_Unit (silent_store_task_process_tagged t b)"
| "task_process_tagged L (T_Thread t) b = Out_Threads (thread_task_process_tagged t b)"

section \<open>What every task keeps\<close>

lemma reboxed_simps [simp]:
  "fst (reboxed box r) = fst r" "snd (reboxed box r) = box (snd r)"
  by (simp_all add: reboxed_def)

lemma reboxed_Some:
  "reboxed box r = (x, t') \<longleftrightarrow> (\<exists>t. r = (x, t) \<and> t' = box t)"
  by (cases r) (auto simp: reboxed_def)

text \<open>The output a task finishes with has the type the task declares.\<close>

lemma task_process_tagged_type [simp]: "output_type (task_process_tagged L t b) = task_type t"
  by (cases t) simp_all

text \<open>No response changes the type of a task.\<close>

lemma task_process_data_type [simp]: "task_type (snd (task_process_data L t d)) = task_type t"
  by (cases t) (simp_all add: default_process_def)

lemma task_process_untagged_type [simp]: "task_type (snd (task_process_untagged t b)) = task_type t"
  by (cases t) (simp_all add: default_process_def)

lemma task_process_continuation_type [simp]:
  "task_type (snd (task_process_continuation t c)) = task_type t"
  by (simp add: task_process_continuation_def default_process_def)

lemma task_process_authenticate_type [simp]:
  "task_type (snd (task_process_authenticate t c)) = task_type t"
  by (cases t) (simp_all add: default_process_authenticate_def)

lemma task_process_bye_type [simp]: "task_type (snd (task_process_bye t bye)) = task_type t"
  by (cases t) (simp_all add: default_process_def)

lemmas task_hand_backs =
  append_exists.hand_back post_noop_exists.hand_back post_check_exists.hand_back
  authenticate.hand_back capability.hand_back enable.hand_back expunge.hand_back
  fetch.hand_back fetch_first.hand_back id.hand_back list_lines.hand_back login.hand_back
  search.hand_back select_flags.hand_back sort.hand_back store.hand_back thread.hand_back

text \<open>A processing method of trait objects: a consumer that keeps the type of the task.\<close>

locale task_consumer = response_consumer process
  for process :: "'v task \<Rightarrow> 'm \<Rightarrow> 'm option \<times> 'v task" +
  assumes keeps_type: "task_type (snd (process t m)) = task_type t"
begin

lemma trickle_types: "map task_type (snd (trickle_down m ts process)) = map task_type ts"
proof (cases rule: trickle_cases [of ts m])
  case (consumed us t vs t')
  with keeps_type [of t m] show ?thesis by simp
qed simp

end

interpretation any_data: task_consumer "task_process_data L" for L :: "'v lib"
proof (unfold_locales, goal_cases)
  case 2
  show ?case by simp
next
  case (1 t d d' t')
  then show ?case
    by (cases t) (auto simp: reboxed_Some default_process_def dest: task_hand_backs)
qed

interpretation any_untagged: task_consumer task_process_untagged
proof (unfold_locales, goal_cases)
  case 2
  show ?case by simp
next
  case (1 t b b' t')
  then show ?case
    by (cases t) (auto simp: reboxed_Some default_process_def
        dest: capability_untagged.hand_back select_unseen.hand_back)
qed

interpretation any_continuation: task_consumer task_process_continuation
  by unfold_locales (simp_all add: task_process_continuation_def default_process_def)

interpretation any_bye: task_consumer task_process_bye
proof (unfold_locales, goal_cases)
  case 2
  show ?case by simp
next
  case (1 t b b' t')
  then show ?case
    by (cases t) (auto simp: reboxed_Some default_process_def dest: logout.hand_back)
qed

text \<open>Completion with NO or BAD is the same for every task: the error carries the status.\<close>

fun output_error :: "'v any_output \<Rightarrow> 'v task_error option" where
  "output_error (Out_Seq r) = (case r of Inl e \<Rightarrow> Some e | Inr _ \<Rightarrow> None)"
| "output_error (Out_UidPair r) = (case r of Inl e \<Rightarrow> Some e | Inr _ \<Rightarrow> None)"
| "output_error (Out_CapabilitiesOpt r) = (case r of Inl e \<Rightarrow> Some e | Inr _ \<Rightarrow> None)"
| "output_error (Out_Capabilities r) = (case r of Inl e \<Rightarrow> Some e | Inr _ \<Rightarrow> None)"
| "output_error (Out_Unit r) = (case r of Inl e \<Rightarrow> Some e | Inr _ \<Rightarrow> None)"
| "output_error (Out_Enabled r) = (case r of Inl e \<Rightarrow> Some e | Inr _ \<Rightarrow> None)"
| "output_error (Out_Ids r) = (case r of Inl e \<Rightarrow> Some e | Inr _ \<Rightarrow> None)"
| "output_error (Out_ItemMap r) = (case r of Inl e \<Rightarrow> Some e | Inr _ \<Rightarrow> None)"
| "output_error (Out_Items r) = (case r of Inl e \<Rightarrow> Some e | Inr _ \<Rightarrow> None)"
| "output_error (Out_Parameters r) = (case r of Inl e \<Rightarrow> Some e | Inr _ \<Rightarrow> None)"
| "output_error (Out_Mailboxes r) = (case r of Inl e \<Rightarrow> Some e | Inr _ \<Rightarrow> None)"
| "output_error (Out_Selected r) = (case r of Inl e \<Rightarrow> Some e | Inr _ \<Rightarrow> None)"
| "output_error (Out_Threads r) = (case r of Inl e \<Rightarrow> Some e | Inr _ \<Rightarrow> None)"

lemma task_process_tagged_No:
  "sb_kind b = Kind_No \<Longrightarrow> output_error (task_process_tagged L t b) = Some (UnexpectedNoResponse b)"
  by (cases t) (simp_all add: task_simps)

lemma task_process_tagged_Bad:
  "sb_kind b = Kind_Bad \<Longrightarrow> output_error (task_process_tagged L t b) = Some (UnexpectedBadResponse b)"
  by (cases t) (simp_all add: task_simps)

end
