(* ===== verification/Task_Map.thy ===== *)
theory Task_Map
  imports Task_Any
begin

text \<open>
  \<open>TaskMap\<close> (\<open>src/tasks/mod.rs\<close>): a queue of tasks with the handle and the tag of their command,
  from which a task is taken by its handle or by its tag.
\<close>

type_synonym 'v entry = "handle \<times> tag \<times> 'v task"
type_synonym 'v task_map = "'v entry list"

definition entry_handle :: "'v entry \<Rightarrow> handle" where
  "entry_handle e = fst e"

definition entry_tag :: "'v entry \<Rightarrow> tag" where
  "entry_tag e = fst (snd e)"

definition entry_task :: "'v entry \<Rightarrow> 'v task" where
  "entry_task e = snd (snd e)"

lemmas entry_defs = entry_handle_def entry_tag_def entry_task_def

definition tm_push_back :: "handle \<Rightarrow> tag \<Rightarrow> 'v task \<Rightarrow> 'v task_map \<Rightarrow> 'v task_map" where
  "tm_push_back handle tag task tasks = tasks @ [(handle, tag, task)]"

text \<open>
  \<open>get_task_by_handle_mut\<close> lends out the first task with the handle; \<open>tm_put_by_handle\<close> is the
  borrower's write to it.
\<close>

definition tm_get_by_handle :: "handle \<Rightarrow> 'v task_map \<Rightarrow> 'v task option" where
  "tm_get_by_handle handle tasks =
     find_map (\<lambda>(current_handle, _, task). if handle = current_handle then Some task else None) tasks"

fun tm_put_by_handle :: "handle \<Rightarrow> 'v task \<Rightarrow> 'v task_map \<Rightarrow> 'v task_map" where
  "tm_put_by_handle handle task' [] = []"
| "tm_put_by_handle handle task' ((current_handle, tag, task) # tasks) =
     (if handle = current_handle then (current_handle, tag, task') # tasks
      else (current_handle, tag, task) # tm_put_by_handle handle task' tasks)"

definition tm_tasks :: "'v task_map \<Rightarrow> 'v task list" where
  "tm_tasks tasks = map entry_task tasks"

definition tm_put_tasks :: "'v task list \<Rightarrow> 'v task_map \<Rightarrow> 'v task_map" where
  "tm_put_tasks ts tasks = map2 (\<lambda>(handle, tag, _) t. (handle, tag, t)) tasks ts"

definition tm_remove_by_handle :: "handle \<Rightarrow> 'v task_map \<Rightarrow> ('v entry \<times> 'v task_map) option" where
  "tm_remove_by_handle handle tasks =
     (case position (\<lambda>(current_handle, _, _). handle = current_handle) tasks of
        None \<Rightarrow> None
      | Some index \<Rightarrow> vec_remove index tasks)"

definition tm_remove_by_tag :: "tag \<Rightarrow> 'v task_map \<Rightarrow> ('v entry \<times> 'v task_map) option" where
  "tm_remove_by_tag tag tasks =
     (case position (\<lambda>(_, current_tag, _). tag = current_tag) tasks of
        None \<Rightarrow> None
      | Some index \<Rightarrow> vec_remove index tasks)"

section \<open>A queue with a key\<close>

text \<open>
  What the scheduler relies on, for either key: entries join at the end, the first entry with
  the key is the one taken, the others keep their order, and a key is missed only when no
  entry has it.
\<close>

locale keyed_queue =
  fixes push :: "'e \<Rightarrow> 'q \<Rightarrow> 'q"
    and take_key :: "'k \<Rightarrow> 'q \<Rightarrow> ('e \<times> 'q) option"
    and key :: "'e \<Rightarrow> 'k"
    and content :: "'q \<Rightarrow> 'e list"
  assumes content_push: "content (push e q) = content q @ [e]"
    and take_SomeD: "take_key k q = Some (e, q') \<Longrightarrow>
      \<exists>us vs. content q = us @ e # vs \<and> content q' = us @ vs \<and> key e = k \<and> k \<notin> key ` set us"
    and take_None: "take_key k q = None \<longleftrightarrow> k \<notin> key ` set (content q)"
begin

lemma take_key_eq: "take_key k q = Some (e, q') \<Longrightarrow> key e = k"
  using take_SomeD by blast

lemma take_mset:
  "take_key k q = Some (e, q') \<Longrightarrow> mset (content q) = add_mset e (mset (content q'))"
  by (auto dest: take_SomeD)

lemma take_mem: "take_key k q = Some (e, q') \<Longrightarrow> e \<in> set (content q)"
  by (auto dest: take_SomeD)

lemma take_subset: "take_key k q = Some (e, q') \<Longrightarrow> set (content q') \<subseteq> set (content q)"
  by (auto dest: take_SomeD)

lemma take_set:
  "take_key k q = Some (e, q') \<Longrightarrow> set (content q) = insert e (set (content q'))"
  by (auto dest: take_SomeD)

lemma take_distinct_by:
  "take_key k q = Some (e, q') \<Longrightarrow> distinct (map f (content q)) \<Longrightarrow>
     distinct (map f (content q')) \<and> f e \<notin> f ` set (content q')"
  by (auto dest!: take_SomeD)

lemma take_present: "e \<in> set (content q) \<Longrightarrow> \<exists>e' q'. take_key (key e) q = Some (e', q')"
  using take_None [of "key e" q] by (cases "take_key (key e) q") auto

lemma take_unique:
  assumes "distinct (map key (content q))" and "e \<in> set (content q)"
  shows "\<exists>q'. take_key (key e) q = Some (e, q')"
proof -
  from take_present [OF assms(2)] obtain e' q' where t: "take_key (key e) q = Some (e', q')"
    by blast
  then have "e' = e"
    using assms take_mem [OF t] take_key_eq [OF t] by (metis distinct_map inj_on_eq_iff)
  with t show ?thesis by blast
qed

lemma take_after_push:
  "take_key k q = None \<Longrightarrow> key e = k \<Longrightarrow> take_key k (push e q) = Some (e', q') \<Longrightarrow>
     e' = e \<and> content q' = content q"
proof -
  assume none: "take_key k q = None" and e: "key e = k"
    and some: "take_key k (push e q) = Some (e', q')"
  from take_SomeD [OF some] obtain us vs where "content q @ [e] = us @ e' # vs"
    and q': "content q' = us @ vs" and k: "key e' = k"
    by (auto simp: content_push)
  moreover from none have "k \<notin> key ` set (content q)" by (simp add: take_None)
  ultimately have "vs = []"
    by (cases vs rule: rev_cases) (auto simp: append_eq_Cons_conv k)
  with \<open>content q @ [e] = us @ e' # vs\<close> q' show ?thesis by simp
qed

end

lemma tm_remove_by_handle_first:
  "tm_remove_by_handle h tasks = remove_first (\<lambda>e. entry_handle e = h) tasks"
  by (simp add: tm_remove_by_handle_def remove_first_def entry_handle_def split_def eq_commute)

lemma tm_remove_by_tag_first:
  "tm_remove_by_tag tag tasks = remove_first (\<lambda>e. entry_tag e = tag) tasks"
  by (simp add: tm_remove_by_tag_def remove_first_def entry_tag_def split_def eq_commute)

interpretation by_handle: keyed_queue "\<lambda>(h, tag, t). tm_push_back h tag t" tm_remove_by_handle
    entry_handle "\<lambda>tasks. tasks"
  by unfold_locales
    (auto simp: tm_push_back_def tm_remove_by_handle_first dest: remove_first_keyD)

interpretation by_tag: keyed_queue "\<lambda>(h, tag, t). tm_push_back h tag t" tm_remove_by_tag
    entry_tag "\<lambda>tasks. tasks"
  by unfold_locales
    (auto simp: tm_push_back_def tm_remove_by_tag_first dest: remove_first_keyD)

section \<open>Tasks changed in place\<close>

lemma tm_put_tasks_handles:
  "length ts = length tasks \<Longrightarrow> map entry_handle (tm_put_tasks ts tasks) = map entry_handle tasks"
  by (induction ts tasks rule: list_induct2) (auto simp: tm_put_tasks_def entry_handle_def)

lemma tm_put_tasks_tags:
  "length ts = length tasks \<Longrightarrow> map entry_tag (tm_put_tasks ts tasks) = map entry_tag tasks"
  by (induction ts tasks rule: list_induct2) (auto simp: tm_put_tasks_def entry_tag_def)

lemma tm_put_tasks_tasks: "length ts = length tasks \<Longrightarrow> tm_tasks (tm_put_tasks ts tasks) = ts"
  by (induction ts tasks rule: list_induct2)
    (auto simp: tm_put_tasks_def tm_tasks_def entry_task_def)

lemma tm_put_tasks_self [simp]: "tm_put_tasks (tm_tasks tasks) tasks = tasks"
  by (induction tasks) (auto simp: tm_put_tasks_def tm_tasks_def entry_task_def)

lemma tm_tasks_append: "tm_tasks (us @ (h, tag, t) # vs) = tm_tasks us @ t # tm_tasks vs"
  by (simp add: tm_tasks_def entry_task_def)

lemma tm_put_tasks_change:
  "tm_put_tasks (tm_tasks us @ t' # tm_tasks vs) (us @ (h, tag, t) # vs) = us @ (h, tag, t') # vs"
proof (induction us)
  case Nil
  have "tm_tasks [] = ([] :: 'a task list)" by (simp add: tm_tasks_def)
  with tm_put_tasks_self [of vs] show ?case by (simp add: tm_put_tasks_def)
next
  case (Cons u us)
  then show ?case by (cases u) (simp add: tm_put_tasks_def tm_tasks_def entry_task_def)
qed

lemma tm_put_by_handle_handles:
  "map entry_handle (tm_put_by_handle h t tasks) = map entry_handle tasks"
  by (induction h t tasks rule: tm_put_by_handle.induct) (auto simp: entry_handle_def)

lemma tm_put_by_handle_tags: "map entry_tag (tm_put_by_handle h t tasks) = map entry_tag tasks"
  by (induction h t tasks rule: tm_put_by_handle.induct) (auto simp: entry_tag_def)

lemma tm_get_by_handle_None:
  "tm_get_by_handle h tasks = None \<longleftrightarrow> h \<notin> entry_handle ` set tasks"
  by (force simp: tm_get_by_handle_def find_map_None entry_handle_def split: if_splits)

lemma tm_get_by_handle_Some:
  "tm_get_by_handle h tasks = Some t \<Longrightarrow>
     \<exists>us tag vs. tasks = us @ (h, tag, t) # vs \<and> h \<notin> entry_handle ` set us \<and>
       (\<forall>t'. tm_put_by_handle h t' tasks = us @ (h, tag, t') # vs)"
proof (induction tasks)
  case (Cons e tasks)
  obtain h' tag' u where e: "e = (h', tag', u)" by (cases e)
  show ?case
  proof (cases "h = h'")
    case True
    with Cons.prems e show ?thesis
      by (intro exI [of _ "[]"] exI [of _ tag'] exI [of _ tasks])
        (simp add: tm_get_by_handle_def)
  next
    case False
    with Cons e obtain us tag vs where "tasks = us @ (h, tag, t) # vs"
      and "h \<notin> entry_handle ` set us" and "\<forall>t'. tm_put_by_handle h t' tasks = us @ (h, tag, t') # vs"
      by (auto simp: tm_get_by_handle_def)
    with False e show ?thesis
      by (intro exI [of _ "e # us"] exI [of _ tag] exI [of _ vs]) (auto simp: entry_handle_def)
  qed
qed (simp add: tm_get_by_handle_def)

end
