(* ===== verification/Scheduler.thy ===== *)
theory Scheduler
  imports Task_Map
begin

text \<open>
  \<open>Scheduler\<close> (\<open>src/tasks/mod.rs\<close>): it tags and enqueues the commands of tasks, and turns the
  events of imap-next's client into finished tasks and unsolicited responses. A task waits
  until its command has been sent, is active until its command completes, and leaves the
  scheduler as a token that carries its output.
\<close>

section \<open>State, events, errors\<close>

record ('v, 'c, 'g) scheduler =
  client_next :: 'c
  waiting_tasks :: "'v task_map"
  active_tasks :: "'v task_map"
  tag_generator :: 'g

text \<open>\<open>th_type\<close> is the \<open>Output\<close> type of the handle's phantom task.\<close>

record task_handle =
  th_handle :: handle
  th_type :: type_id

record 'v task_token =
  tok_handle :: handle
  tok_output :: "'v any_output option"

datatype 'v scheduler_event =
    Ev_GreetingReceived "'v greeting"
  | Ev_TaskFinished "'v task_token"
  | Ev_Unsolicited "'v response"

datatype 'v scheduler_error =
    Flow "'v next_error"
  | UnexpectedTaggedResponse tag "'v status_body"
  | UnexpectedByeResponse 'v

type_synonym 'v progress_result = "'v scheduler_error interrupt + 'v scheduler_event"

section \<open>Operations\<close>

definition task_handle_new :: "handle \<Rightarrow> type_id \<Rightarrow> task_handle" where
  [simp]: "task_handle_new handle ty = \<lparr>th_handle = handle, th_type = ty\<rparr>"

text \<open>\<open>PartialEq\<close> compares the commands only: both handles have the same type parameter.\<close>

definition task_handle_eq :: "task_handle \<Rightarrow> task_handle \<Rightarrow> bool" where
  "task_handle_eq self other \<longleftrightarrow> th_handle self = th_handle other"

definition scheduler_new :: "('v, 'c, 'g) next_client \<Rightarrow> 'c \<Rightarrow> ('v, 'c, 'g) scheduler" where
  "scheduler_new N c =
     \<lparr>client_next = c, waiting_tasks = [], active_tasks = [], tag_generator = nc_tag_new N\<rparr>"

definition enqueue_task ::
    "('v, 'c, 'g) next_client \<Rightarrow> 'v lib \<Rightarrow> 'v task \<Rightarrow> ('v, 'c, 'g) scheduler
       \<Rightarrow> (task_handle \<times> ('v, 'c, 'g) scheduler) run" where
  "enqueue_task N L task self =
     (case nc_tag_generate N (tag_generator self) of (tag, g) \<Rightarrow>
        (case task_command_body L task of
           Ret body \<Rightarrow>
             (case nc_enqueue_command N \<lparr>cmd_tag = tag, cmd_body = body\<rparr> (client_next self) of
                (handle, c) \<Rightarrow>
                  Ret (task_handle_new handle (task_type task),
                       self\<lparr>client_next := c, tag_generator := g,
                            waiting_tasks := tm_push_back handle tag task (waiting_tasks self)\<rparr>))
         | Panic \<Rightarrow> Panic
         | Diverge \<Rightarrow> Diverge))"

definition scheduler_enqueue_input ::
    "('v, 'c, 'g) next_client \<Rightarrow> bytes \<Rightarrow> ('v, 'c, 'g) scheduler \<Rightarrow> ('v, 'c, 'g) scheduler" where
  "scheduler_enqueue_input N input self =
     self\<lparr>client_next := nc_enqueue_input N input (client_next self)\<rparr>"

text \<open>
  \<open>TaskHandle::resolve\<close>: a token of another task is left alone, a token is emptied at most
  once, and the downcast panics when the boxed output is not of the handle's type.
\<close>

definition handle_resolve ::
    "task_handle \<Rightarrow> 'v task_token \<Rightarrow> ('v any_output option \<times> 'v task_token) run" where
  "handle_resolve self token =
     (if tok_handle token \<noteq> th_handle self then Ret (None, token)
      else (case tok_output token of
              None \<Rightarrow> Ret (None, token)
            | Some out \<Rightarrow>
                if output_type out = th_type self then Ret (Some out, token\<lparr>tok_output := None\<rparr>)
                else Panic))"

text \<open>
  The test of a malformed message that \<open>progress\<close> skips: its third field, between spaces,
  is FETCH in any case.
\<close>

definition is_malformed_fetch :: "bytes \<Rightarrow> bool" where
  "is_malformed_fetch discarded =
     (case drop 2 (split_on CHR '' '' discarded) of
        cmd # _ \<Rightarrow> eq_ignore_ascii_case cmd ''FETCH''
      | [] \<Rightarrow> False)"

text \<open>Offer a response to the active tasks.\<close>

definition trickle_active ::
    "('v task \<Rightarrow> 'm \<Rightarrow> 'm option \<times> 'v task) \<Rightarrow> 'm \<Rightarrow> ('v, 'c, 'g) scheduler
       \<Rightarrow> 'm option \<times> ('v, 'c, 'g) scheduler" where
  "trickle_active f m self =
     (case trickle_down m (tm_tasks (active_tasks self)) f of
        (r, ts) \<Rightarrow> (r, self\<lparr>active_tasks := tm_put_tasks ts (active_tasks self)\<rparr>))"

text \<open>A sent command's task moves to the active tasks.\<close>

definition start_task ::
    "handle \<Rightarrow> ('v, 'c, 'g) scheduler \<Rightarrow> (('v, 'c, 'g) scheduler, 'a) flow" where
  "start_task handle self =
     (case tm_remove_by_handle handle (waiting_tasks self) of
        None \<Rightarrow> Panicking
      | Some ((handle, tag, task), waiting) \<Rightarrow>
          Continue (self\<lparr>waiting_tasks := waiting,
                         active_tasks := tm_push_back handle tag task (active_tasks self)\<rparr>))"

text \<open>A command completed by a status the server sent for its handle finishes its task.\<close>

definition finish_task ::
    "'v lib \<Rightarrow> handle \<Rightarrow> 'v status_body \<Rightarrow> ('v, 'c, 'g) scheduler
       \<Rightarrow> (('v, 'c, 'g) scheduler, 'v progress_result) flow" where
  "finish_task L handle body self =
     (case tm_remove_by_handle handle (active_tasks self) of
        None \<Rightarrow> Panicking
      | Some ((_, _, task), active) \<Rightarrow>
          Break (Inr (Ev_TaskFinished
                   \<lparr>tok_handle = handle, tok_output = Some (task_process_tagged L task body)\<rparr>))
            (self\<lparr>active_tasks := active\<rparr>))"

definition reject_task ::
    "'v lib \<Rightarrow> handle \<Rightarrow> 'v status \<Rightarrow> ('v, 'c, 'g) scheduler
       \<Rightarrow> (('v, 'c, 'g) scheduler, 'v progress_result) flow" where
  "reject_task L handle status self =
     (case status of
        Status_Tagged _ body \<Rightarrow> finish_task L handle body self
      | _ \<Rightarrow> Panicking)"

definition handle_event ::
    "('v, 'c, 'g) next_client \<Rightarrow> 'v lib \<Rightarrow> 'v event \<Rightarrow> ('v, 'c, 'g) scheduler
       \<Rightarrow> (('v, 'c, 'g) scheduler, 'v progress_result) flow" where
  "handle_event N L event self =
     (case event of
        GreetingReceived greeting \<Rightarrow> Break (Inr (Ev_GreetingReceived greeting)) self
      | CommandSent handle \<Rightarrow> start_task handle self
      | CommandRejected handle status \<Rightarrow> reject_task L handle status self
      | AuthenticateStarted handle \<Rightarrow> start_task handle self
      | AuthenticateContinuationRequestReceived handle continuation_request \<Rightarrow>
          (case tm_get_by_handle handle (active_tasks self) of
             None \<Rightarrow> Panicking
           | Some task \<Rightarrow>
               (case task_process_authenticate task continuation_request of
                  (continuation, task') \<Rightarrow>
                    let self = self\<lparr>active_tasks :=
                                      tm_put_by_handle handle task' (active_tasks self)\<rparr>
                    in (case continuation of
                          Inr data \<Rightarrow>
                            (case nc_set_authenticate_data N data (client_next self) of
                               (accepted, c) \<Rightarrow>
                                 if accepted then Continue (self\<lparr>client_next := c\<rparr>)
                                 else Panicking)
                        | Inl continuation \<Rightarrow>
                            Break (Inr (Ev_Unsolicited (Resp_Continuation continuation))) self)))
      | AuthenticateStatusReceived handle status \<Rightarrow> reject_task L handle status self
      | DataReceived data \<Rightarrow>
          (case trickle_active (task_process_data L) data self of
             (Some data, self) \<Rightarrow> Break (Inr (Ev_Unsolicited (Resp_Data data))) self
           | (None, self) \<Rightarrow> Continue self)
      | ContinuationRequestReceived continuation_request \<Rightarrow>
          (case trickle_active task_process_continuation continuation_request self of
             (Some continuation, self) \<Rightarrow>
               Break (Inr (Ev_Unsolicited (Resp_Continuation continuation))) self
           | (None, self) \<Rightarrow> Continue self)
      | StatusReceived status \<Rightarrow>
          (case status of
             Status_Untagged body \<Rightarrow>
               (case trickle_active task_process_untagged body self of
                  (Some body, self) \<Rightarrow>
                    Break (Inr (Ev_Unsolicited (Resp_Status (Status_Untagged body)))) self
                | (None, self) \<Rightarrow> Continue self)
           | Status_Bye bye \<Rightarrow>
               (case trickle_active task_process_bye bye self of
                  (Some bye, self) \<Rightarrow>
                    Break (Inr (Ev_Unsolicited (Resp_Status (Status_Bye bye)))) self
                | (None, self) \<Rightarrow> Continue self)
           | Status_Tagged tag body \<Rightarrow>
               (case tm_remove_by_tag tag (active_tasks self) of
                  None \<Rightarrow> Break (Inl (Int_Error (UnexpectedTaggedResponse tag body))) self
                | Some ((handle, _, task), active) \<Rightarrow>
                    Break (Inr (Ev_TaskFinished
                             \<lparr>tok_handle = handle,
                              tok_output = Some (task_process_tagged L task body)\<rparr>))
                      (self\<lparr>active_tasks := active\<rparr>)))
      | IdleCommandSent handle \<Rightarrow> start_task handle self
      | IdleAccepted handle \<Rightarrow> Continue self
      | IdleRejected handle status \<Rightarrow> reject_task L handle status self
      | IdleDoneSent handle \<Rightarrow> Continue self)"

definition progress_turn ::
    "('v, 'c, 'g) next_client \<Rightarrow> 'v lib \<Rightarrow> ('v, 'c, 'g) scheduler
       \<Rightarrow> (('v, 'c, 'g) scheduler, 'v progress_result) flow" where
  "progress_turn N L self =
     (case nc_next N (client_next self) of (result, c) \<Rightarrow>
        let self = self\<lparr>client_next := c\<rparr> in
        (case result of
           Inr event \<Rightarrow> handle_event N L event self
         | Inl (Int_Io io) \<Rightarrow> Break (Inl (Int_Io io)) self
         | Inl (Int_Error err) \<Rightarrow>
             (case err of
                MalformedMessage discarded \<Rightarrow>
                  if is_malformed_fetch discarded then Continue self
                  else Break (Inl (Int_Error (Flow err))) self
              | _ \<Rightarrow> Break (Inl (Int_Error (Flow err))) self)))"

definition progress ::
    "('v, 'c, 'g) next_client \<Rightarrow> 'v lib \<Rightarrow> ('v, 'c, 'g) scheduler
       \<Rightarrow> ('v progress_result \<times> ('v, 'c, 'g) scheduler) run" where
  "progress N L = rust_loop (progress_turn N L)"

text \<open>\<open>State for Scheduler\<close>: the scheduler as a machine of imap-next.\<close>

definition scheduler_next ::
    "('v, 'c, 'g) next_client \<Rightarrow> 'v lib \<Rightarrow> ('v, 'c, 'g) scheduler
       \<Rightarrow> ('v progress_result \<times> ('v, 'c, 'g) scheduler) run" where
  "scheduler_next N L self = progress N L self"

definition scheduler_state_enqueue_input ::
    "('v, 'c, 'g) next_client \<Rightarrow> bytes \<Rightarrow> ('v, 'c, 'g) scheduler \<Rightarrow> ('v, 'c, 'g) scheduler" where
  "scheduler_state_enqueue_input N input self = scheduler_enqueue_input N input self"

end
