(* ===== verification/Scheduler_Inv.thy ===== *)
theory Scheduler_Inv
  imports Scheduler
begin

text \<open>
  What a turn of the scheduler may do to its tasks, as a step relation with three kinds of
  steps, and the invariants of the scheduler, proved once over that relation. The
  executable \<open>progress_turn\<close> refines it.
\<close>

section \<open>The steps of a scheduler\<close>

datatype 'v sched_label = Started handle | Finished "'v task_token" | Touched

inductive sched_step ::
    "'v lib \<Rightarrow> ('v, 'c, 'g) scheduler \<Rightarrow> 'v sched_label \<Rightarrow> ('v, 'c, 'g) scheduler \<Rightarrow> bool"
  for L where
  start: "waiting_tasks s = us @ (h, tag, t) # vs \<Longrightarrow>
    sched_step L s (Started h)
      (s\<lparr>client_next := c, waiting_tasks := us @ vs, active_tasks := active_tasks s @ [(h, tag, t)]\<rparr>)"
| finish: "active_tasks s = us @ (h, tag, t) # vs \<Longrightarrow>
    sched_step L s (Finished \<lparr>tok_handle = h, tok_output = Some (task_process_tagged L t body)\<rparr>)
      (s\<lparr>client_next := c, active_tasks := us @ vs\<rparr>)"
| touch: "map entry_handle active = map entry_handle (active_tasks s) \<Longrightarrow>
    map entry_tag active = map entry_tag (active_tasks s) \<Longrightarrow>
    map (task_type \<circ> entry_task) active = map (task_type \<circ> entry_task) (active_tasks s) \<Longrightarrow>
    sched_step L s Touched (s\<lparr>client_next := c, active_tasks := active\<rparr>)"

inductive_cases sched_stepE: "sched_step L s l s'"
inductive_cases sched_step_startE: "sched_step L s (Started h) s'"
inductive_cases sched_step_finishE: "sched_step L s (Finished tok) s'"
inductive_cases sched_step_touchE: "sched_step L s Touched s'"

lemma sched_step_stutter: "sched_step L s Touched (s\<lparr>client_next := c\<rparr>)"
  using sched_step.touch [of "active_tasks s" s L c] by simp

section \<open>A turn is a step\<close>

lemma start_task_step:
  assumes "start_task h (s\<lparr>client_next := c\<rparr>) = Continue s'"
  shows "sched_step L s (Started h) s'"
proof -
  from assms obtain h' tag t w where rem: "tm_remove_by_handle h (waiting_tasks s) = Some ((h', tag, t), w)"
    and s': "s' = s\<lparr>client_next := c, waiting_tasks := w,
      active_tasks := active_tasks s @ [(h', tag, t)]\<rparr>"
    by (auto simp: start_task_def tm_push_back_def split: option.splits)
  from by_handle.take_SomeD [OF rem] obtain us vs where "waiting_tasks s = us @ (h', tag, t) # vs"
    and "w = us @ vs" and "h' = h"
    by (auto simp: entry_handle_def)
  with s' show ?thesis by (auto intro: sched_step.start)
qed

lemma start_task_Break [simp]: "start_task h s \<noteq> Break r s'"
  by (auto simp: start_task_def split: option.splits)

lemma finish_task_step:
  assumes "finish_task L h body (s\<lparr>client_next := c\<rparr>) = Break r s'"
  shows "\<exists>tok. r = Inr (Ev_TaskFinished tok) \<and> sched_step L s (Finished tok) s'"
proof -
  from assms obtain h' tag t w where rem: "tm_remove_by_handle h (active_tasks s) = Some ((h', tag, t), w)"
    and "r = Inr (Ev_TaskFinished \<lparr>tok_handle = h, tok_output = Some (task_process_tagged L t body)\<rparr>)"
    and "s' = s\<lparr>client_next := c, active_tasks := w\<rparr>"
    by (auto simp: finish_task_def split: option.splits)
  moreover from by_handle.take_SomeD [OF rem] obtain us vs
    where "active_tasks s = us @ (h', tag, t) # vs" "w = us @ vs" "h' = h"
    by (auto simp: entry_handle_def)
  ultimately show ?thesis using sched_step.finish by fastforce
qed

lemma finish_task_Continue [simp]: "finish_task L h body s \<noteq> Continue s'"
  by (auto simp: finish_task_def split: option.splits)

lemma reject_task_step:
  "reject_task L h status (s\<lparr>client_next := c\<rparr>) = Break r s' \<Longrightarrow>
     \<exists>tok. r = Inr (Ev_TaskFinished tok) \<and> sched_step L s (Finished tok) s'"
  by (auto simp: reject_task_def intro: finish_task_step split: status.splits)

lemma reject_task_Continue [simp]: "reject_task L h status s \<noteq> Continue s'"
  by (auto simp: reject_task_def split: status.splits)

lemma finish_by_tag_step:
  assumes "tm_remove_by_tag tag (active_tasks s) = Some ((h, tag', t), w)"
  shows "sched_step L s (Finished \<lparr>tok_handle = h, tok_output = Some (task_process_tagged L t body)\<rparr>)
    (s\<lparr>client_next := c, active_tasks := w\<rparr>)"
  using by_tag.take_SomeD [OF assms] by (auto intro: sched_step.finish)

text \<open>
  Offering a response touches tasks, and keeps handles, tags and types. The first active task
  that takes the response is the only one that changes.
\<close>

lemma length_tm_tasks: "length (tm_tasks tasks) = length tasks"
  by (simp add: tm_tasks_def)

lemma types_tm_tasks: "map (task_type \<circ> entry_task) tasks = map task_type (tm_tasks tasks)"
  by (simp add: tm_tasks_def)

context task_consumer
begin

lemma trickle_active_step:
  assumes "trickle_active process m (s\<lparr>client_next := c\<rparr>) = (r, s')"
  shows "sched_step L s Touched s'"
proof -
  let ?a = "active_tasks s"
  obtain r' ts where tr: "trickle_down m (tm_tasks ?a) process = (r', ts)"
    by (cases "trickle_down m (tm_tasks ?a) process")
  with assms have s': "s' = s\<lparr>client_next := c, active_tasks := tm_put_tasks ts ?a\<rparr>"
    by (auto simp: trickle_active_def)
  have len: "length ts = length ?a"
    using trickle_down_length [of m "tm_tasks ?a" process] tr by (simp add: length_tm_tasks)
  from trickle_types [of m "tm_tasks ?a"] tm_put_tasks_tasks [OF len]
  have "map (task_type \<circ> entry_task) (tm_put_tasks ts ?a) = map (task_type \<circ> entry_task) ?a"
    by (simp only: types_tm_tasks tr prod.sel)
  with len show ?thesis
    unfolding s' by (intro sched_step.touch) (simp_all add: tm_put_tasks_handles tm_put_tasks_tags)
qed

lemma trickle_active_ignored:
  assumes "\<forall>e \<in> set (active_tasks s). fst (process (entry_task e) m) \<noteq> None"
  shows "trickle_active process m s = (Some m, s)"
proof -
  have "trickle_down m (tm_tasks (active_tasks s)) process = (Some m, tm_tasks (active_tasks s))"
    using assms by (intro trickle_ignored) (auto simp: tm_tasks_def)
  then show ?thesis by (simp add: trickle_active_def)
qed

lemma trickle_active_consumed:
  assumes "active_tasks s = us @ (h, tag, t) # vs"
    and "\<forall>e \<in> set us. fst (process (entry_task e) m) \<noteq> None" and "process t m = (None, t')"
  shows "trickle_active process m s = (None, s\<lparr>active_tasks := us @ (h, tag, t') # vs\<rparr>)"
proof -
  have "trickle_down m (tm_tasks us @ t # tm_tasks vs) process = (None, tm_tasks us @ t' # tm_tasks vs)"
    using assms(2,3) by (intro trickle_consumed) (auto simp: tm_tasks_def)
  then show ?thesis
    using assms(1) by (simp add: trickle_active_def tm_put_tasks_change tm_tasks_append)
qed

lemma trickle_active_cases:
  obtains (ignored) "\<forall>e \<in> set (active_tasks s). fst (process (entry_task e) m) \<noteq> None"
      "trickle_active process m s = (Some m, s)"
  | (consumed) us h tag t vs t' where "active_tasks s = us @ (h, tag, t) # vs"
      "\<forall>e \<in> set us. fst (process (entry_task e) m) \<noteq> None" "process t m = (None, t')"
      "trickle_active process m s = (None, s\<lparr>active_tasks := us @ (h, tag, t') # vs\<rparr>)"
proof (cases "\<forall>e \<in> set (active_tasks s). fst (process (entry_task e) m) \<noteq> None")
  case True
  then show thesis by (intro ignored trickle_active_ignored)
next
  case False
  then have "\<exists>e \<in> set (active_tasks s). fst (process (entry_task e) m) = None" by simp
  from split_list_first_prop [OF this] obtain us e vs
    where a: "active_tasks s = us @ e # vs" and e: "fst (process (entry_task e) m) = None"
      and us: "\<forall>e \<in> set us. fst (process (entry_task e) m) \<noteq> None"
    by auto
  obtain h tag t where "e = (h, tag, t)" by (cases e)
  moreover from this e obtain t' where "process t m = (None, t')"
    by (cases "process t m") (simp add: entry_task_def)
  ultimately show thesis
    using a us by (intro consumed trickle_active_consumed) auto
qed

end

lemmas trickle_active_steps =
  any_data.trickle_active_step any_untagged.trickle_active_step
  any_continuation.trickle_active_step any_bye.trickle_active_step

lemma active_client_commute:
  "s\<lparr>active_tasks := a, client_next := c\<rparr> = s\<lparr>client_next := c, active_tasks := a\<rparr>"
  by simp

lemma put_task_step:
  assumes "tm_get_by_handle h (active_tasks s) = Some t" and "task_type t' = task_type t"
  shows "sched_step L s Touched
    (s\<lparr>client_next := c, active_tasks := tm_put_by_handle h t' (active_tasks s)\<rparr>)"
proof -
  from tm_get_by_handle_Some [OF assms(1)] obtain us tag vs
    where "active_tasks s = us @ (h, tag, t) # vs"
      and "tm_put_by_handle h t' (active_tasks s) = us @ (h, tag, t') # vs"
    by blast
  with assms(2) show ?thesis by (intro sched_step.touch) (simp_all add: entry_defs)
qed

definition turn_label :: "'v progress_result \<Rightarrow> 'v sched_label" where
  "turn_label r = (case r of Inr (Ev_TaskFinished tok) \<Rightarrow> Finished tok | _ \<Rightarrow> Touched)"

definition event_label :: "'v event \<Rightarrow> 'v sched_label" where
  "event_label e =
     (case e of
        CommandSent h \<Rightarrow> Started h
      | AuthenticateStarted h \<Rightarrow> Started h
      | IdleCommandSent h \<Rightarrow> Started h
      | _ \<Rightarrow> Touched)"

lemma authenticate_event_step:
  assumes "handle_event N L (AuthenticateContinuationRequestReceived h cont) (s\<lparr>client_next := c\<rparr>) = fl"
  shows "fl = Continue s' \<Longrightarrow> sched_step L s Touched s'"
    and "fl = Break r s' \<Longrightarrow> sched_step L s (turn_label r) s'"
proof -
  assume "fl = Continue s'"
  with assms obtain t t' c' where "tm_get_by_handle h (active_tasks s) = Some t"
    and "t' = snd (task_process_authenticate t cont)"
    and "s' = s\<lparr>active_tasks := tm_put_by_handle h t' (active_tasks s), client_next := c'\<rparr>"
    by (auto simp: handle_event_def Let_def split: option.splits prod.splits sum.splits if_splits)
  then show "sched_step L s Touched s'"
    using put_task_step [of h s t t' L c'] by (simp add: active_client_commute)
next
  assume "fl = Break r s'"
  with assms obtain t t' where "tm_get_by_handle h (active_tasks s) = Some t"
    and "t' = snd (task_process_authenticate t cont)"
    and "s' = s\<lparr>client_next := c, active_tasks := tm_put_by_handle h t' (active_tasks s)\<rparr>"
    and "turn_label r = Touched"
    by (auto simp: handle_event_def Let_def turn_label_def
        split: option.splits prod.splits sum.splits if_splits)
  then show "sched_step L s (turn_label r) s'"
    using put_task_step [of h s t t'] by simp
qed

lemma handle_event_Continue:
  assumes "handle_event N L e (s\<lparr>client_next := c\<rparr>) = Continue s'"
  shows "sched_step L s (event_label e) s'"
proof (cases e)
  case (AuthenticateContinuationRequestReceived h cont)
  from authenticate_event_step(1) [OF assms [unfolded this] refl] show ?thesis
    by (simp add: event_label_def AuthenticateContinuationRequestReceived)
next
  case (CommandSent h)
  with assms start_task_step show ?thesis by (fastforce simp: handle_event_def event_label_def)
next
  case (AuthenticateStarted h)
  with assms start_task_step show ?thesis by (fastforce simp: handle_event_def event_label_def)
next
  case (IdleCommandSent h)
  with assms start_task_step show ?thesis by (fastforce simp: handle_event_def event_label_def)
next
  case (DataReceived d)
  with assms show ?thesis
    by (auto simp: handle_event_def event_label_def dest: trickle_active_steps
        split: prod.splits option.splits)
next
  case (ContinuationRequestReceived cont)
  with assms show ?thesis
    by (auto simp: handle_event_def event_label_def dest: trickle_active_steps
        split: prod.splits option.splits)
next
  case (StatusReceived st)
  with assms show ?thesis
    by (auto simp: handle_event_def event_label_def dest: trickle_active_steps
        split: prod.splits option.splits status.splits)
qed (use assms sched_step_stutter in \<open>fastforce simp: handle_event_def event_label_def\<close>)+

lemma event_label_unfinished [simp]: "event_label e \<noteq> Finished tok"
  by (simp add: event_label_def split: event.split)

lemma handle_event_Break:
  assumes "handle_event N L e (s\<lparr>client_next := c\<rparr>) = Break r s'"
  shows "sched_step L s (turn_label r) s'"
proof (cases e)
  case (AuthenticateContinuationRequestReceived h cont)
  with assms authenticate_event_step(2) show ?thesis by metis
next
  case (CommandRejected h st)
  with assms reject_task_step show ?thesis by (fastforce simp: handle_event_def turn_label_def)
next
  case (AuthenticateStatusReceived h st)
  with assms reject_task_step show ?thesis by (fastforce simp: handle_event_def turn_label_def)
next
  case (IdleRejected h st)
  with assms reject_task_step show ?thesis by (fastforce simp: handle_event_def turn_label_def)
next
  case (DataReceived d)
  with assms show ?thesis
    by (auto simp: handle_event_def turn_label_def dest: trickle_active_steps
        split: prod.splits option.splits)
next
  case (ContinuationRequestReceived cont)
  with assms show ?thesis
    by (auto simp: handle_event_def turn_label_def dest: trickle_active_steps
        split: prod.splits option.splits)
next
  case (StatusReceived st)
  show ?thesis
  proof (cases st)
    case (Status_Tagged tag body)
    show ?thesis
    proof (cases "tm_remove_by_tag tag (active_tasks s)")
      case None
      with assms StatusReceived Status_Tagged sched_step_stutter show ?thesis
        by (auto simp: handle_event_def turn_label_def)
    next
      case (Some p)
      with assms StatusReceived Status_Tagged finish_by_tag_step [of tag s] show ?thesis
        by (auto simp: handle_event_def turn_label_def split: prod.splits)
    qed
  qed (use assms StatusReceived in \<open>auto simp: handle_event_def turn_label_def
      dest: trickle_active_steps split: prod.splits option.splits\<close>)
qed (use assms sched_step_stutter in \<open>auto simp: handle_event_def turn_label_def\<close>)

text \<open>The event a turn handles decides what it starts.\<close>

definition turn_start :: "('v, 'c, 'g) next_client \<Rightarrow> ('v, 'c, 'g) scheduler \<Rightarrow> 'v sched_label" where
  "turn_start N s = (case nc_next N (client_next s) of (Inr e, _) \<Rightarrow> event_label e | _ \<Rightarrow> Touched)"

lemma turn_start_unfinished [simp]: "turn_start N s \<noteq> Finished tok"
  by (simp add: turn_start_def split: prod.split sum.split)

lemma progress_turn_Continue_start:
  assumes "progress_turn N L s = Continue s'"
  shows "sched_step L s (turn_start N s) s'"
proof -
  obtain res c where n: "nc_next N (client_next s) = (res, c)" by (cases "nc_next N (client_next s)")
  show ?thesis
  proof (cases res)
    case (Inr e)
    with assms n handle_event_Continue show ?thesis by (simp add: progress_turn_def turn_start_def)
  next
    case (Inl i)
    with assms n have "s' = s\<lparr>client_next := c\<rparr>"
      by (auto simp: progress_turn_def Let_def split: interrupt.splits next_error.splits if_splits)
    with Inl n show ?thesis by (simp add: turn_start_def sched_step_stutter)
  qed
qed

lemma progress_turn_Continue:
  "progress_turn N L s = Continue s' \<Longrightarrow> \<exists>l. sched_step L s l s' \<and> (\<forall>tok. l \<noteq> Finished tok)"
  using progress_turn_Continue_start turn_start_unfinished by metis

lemma progress_turn_Break:
  assumes "progress_turn N L s = Break r s'"
  shows "sched_step L s (turn_label r) s'"
proof -
  obtain res c where n: "nc_next N (client_next s) = (res, c)" by (cases "nc_next N (client_next s)")
  show ?thesis
  proof (cases res)
    case (Inr e)
    with assms n handle_event_Break show ?thesis by (simp add: progress_turn_def)
  next
    case (Inl i)
    with assms n have "s' = s\<lparr>client_next := c\<rparr>" and "turn_label r = Touched"
      by (auto simp: progress_turn_def Let_def turn_label_def
          split: interrupt.splits next_error.splits if_splits)
    then show ?thesis using sched_step_stutter by simp
  qed
qed

end
