(* ===== verification/Scheduler_Props.thy ===== *)
theory Scheduler_Props
  imports Scheduler_Inv
begin

text \<open>
  Invariants of the scheduler and what they give: handles and tags stay distinct, every task
  keeps the output type its handle was issued with, a turn loses no task, and \<open>progress\<close>
  reports a finished task exactly when it has left the scheduler.
\<close>

section \<open>Invariants\<close>

definition sched_entries :: "('v, 'c, 'g) scheduler \<Rightarrow> 'v entry list" where
  "sched_entries s = waiting_tasks s @ active_tasks s"

definition sched_handles :: "('v, 'c, 'g) scheduler \<Rightarrow> handle set" where
  "sched_handles s = entry_handle ` set (sched_entries s)"

definition sched_tags :: "('v, 'c, 'g) scheduler \<Rightarrow> tag set" where
  "sched_tags s = entry_tag ` set (sched_entries s)"

definition sched_wf :: "('v, 'c, 'g) scheduler \<Rightarrow> bool" where
  "sched_wf s \<longleftrightarrow>
     distinct (map entry_handle (sched_entries s)) \<and> distinct (map entry_tag (sched_entries s))"

definition entry_type :: "'v entry \<Rightarrow> handle \<times> type_id" where
  "entry_type e = (entry_handle e, task_type (entry_task e))"

definition sched_typed :: "(handle \<rightharpoonup> type_id) \<Rightarrow> ('v, 'c, 'g) scheduler \<Rightarrow> bool" where
  "sched_typed \<Gamma> s \<longleftrightarrow>
     (\<forall>e \<in> set (sched_entries s). \<Gamma> (entry_handle e) = Some (task_type (entry_task e)))"

text \<open>A property of schedulers that every step keeps, and therefore every call of \<open>progress\<close>.\<close>

locale scheduler_invariant =
  fixes L :: "'v lib" and I :: "('v, 'c, 'g) scheduler \<Rightarrow> bool"
  assumes step_keeps: "sched_step L s l s' \<Longrightarrow> I s \<Longrightarrow> I s'"
begin

lemma turn_keeps:
  "progress_turn N L s = Continue s' \<Longrightarrow> I s \<Longrightarrow> I s'"
  "progress_turn N L s = Break r s' \<Longrightarrow> I s \<Longrightarrow> I s'"
  using progress_turn_Continue progress_turn_Break step_keeps by blast+

lemma progress_keeps:
  assumes "progress N L s = Ret (r, s')" and "I s"
  shows "I s'"
  using assms(1) unfolding progress_def
  by (rule rust_loop_rule [where I = I and post = "\<lambda>r s'. I s'"])
    (use assms(2) turn_keeps in blast)+

end

lemma sched_step_Started:
  "sched_step L s (Started h) s' \<Longrightarrow> mset (sched_entries s') = mset (sched_entries s)"
  by (erule sched_step_startE) (simp add: sched_entries_def)

lemma sched_step_Finished:
  "sched_step L s (Finished tok) s' \<Longrightarrow>
     \<exists>e body. mset (sched_entries s) = mset (e # sched_entries s') \<and>
       tok = \<lparr>tok_handle = entry_handle e,
              tok_output = Some (task_process_tagged L (entry_task e) body)\<rparr>"
  by (erule sched_step_finishE) (force simp: sched_entries_def entry_defs)

lemma sched_step_Touched:
  "sched_step L s Touched s' \<Longrightarrow>
     map entry_handle (sched_entries s') = map entry_handle (sched_entries s) \<and>
     map entry_tag (sched_entries s') = map entry_tag (sched_entries s) \<and>
     map (task_type \<circ> entry_task) (sched_entries s') = map (task_type \<circ> entry_task) (sched_entries s)"
  by (erule sched_step_touchE) (simp add: sched_entries_def)

lemma distinct_map_mset: "mset xs = mset ys \<Longrightarrow> distinct (map f xs) = distinct (map f ys)"
  by (metis mset_eq_imp_distinct_iff mset_map)

lemma sched_step_wf:
  assumes "sched_step L s l s'" and "sched_wf s"
  shows "sched_wf s'"
proof (cases l)
  case (Started h)
  with assms sched_step_Started [of L s h s'] show ?thesis
    using distinct_map_mset [of "sched_entries s'" "sched_entries s" entry_handle]
      distinct_map_mset [of "sched_entries s'" "sched_entries s" entry_tag]
    by (simp add: sched_wf_def)
next
  case (Finished tok)
  with assms(1) obtain e where "mset (sched_entries s) = mset (e # sched_entries s')"
    using sched_step_Finished by blast
  from distinct_map_mset [OF this, of entry_handle] distinct_map_mset [OF this, of entry_tag]
  show ?thesis using assms(2) by (simp add: sched_wf_def)
next
  case Touched
  with assms sched_step_Touched [of L s s'] show ?thesis by (simp add: sched_wf_def)
qed

lemma map_entry_type: "map entry_type xs = zip (map entry_handle xs) (map (task_type \<circ> entry_task) xs)"
  by (induction xs) (auto simp: entry_type_def)

lemma sched_step_types:
  assumes "sched_step L s l s'"
  shows "set (map entry_type (sched_entries s')) \<subseteq> set (map entry_type (sched_entries s))"
proof (cases l)
  case (Started h)
  with assms sched_step_Started mset_eq_setD have "set (sched_entries s') = set (sched_entries s)"
    by metis
  then show ?thesis by simp
next
  case (Finished tok)
  with assms sched_step_Finished mset_eq_setD
  obtain e where "set (sched_entries s) = set (e # sched_entries s')"
    by metis
  then show ?thesis by auto
next
  case Touched
  with assms sched_step_Touched [of L s s'] show ?thesis by (simp only: map_entry_type)
qed

lemma sched_step_typed: "sched_step L s l s' \<Longrightarrow> sched_typed \<Gamma> s \<Longrightarrow> sched_typed \<Gamma> s'"
  by (drule sched_step_types) (fastforce simp: sched_typed_def entry_type_def)

interpretation wf: scheduler_invariant L sched_wf for L :: "'v lib"
  by unfold_locales (rule sched_step_wf)

interpretation typed: scheduler_invariant L "sched_typed \<Gamma>" for L :: "'v lib" and \<Gamma>
  by unfold_locales (rule sched_step_typed)

section \<open>No task is lost, none finishes twice\<close>

text \<open>The handle a result reports as finished.\<close>

definition finished_handles :: "'v progress_result \<Rightarrow> handle set" where
  "finished_handles r = (case r of Inr (Ev_TaskFinished tok) \<Rightarrow> {tok_handle tok} | _ \<Rightarrow> {})"

lemma sched_step_handles:
  assumes "sched_step L s l s'" and "\<forall>tok. l \<noteq> Finished tok"
  shows "sched_handles s' = sched_handles s"
proof (cases l)
  case (Started h)
  with assms(1) sched_step_Started mset_eq_setD have "set (sched_entries s') = set (sched_entries s)"
    by metis
  then show ?thesis by (simp add: sched_handles_def)
next
  case Touched
  with assms(1) sched_step_Touched
  have "set (map entry_handle (sched_entries s')) = set (map entry_handle (sched_entries s))"
    by metis
  then show ?thesis by (simp add: sched_handles_def)
qed (use assms(2) in blast)

lemma sched_step_finished_handles:
  assumes "sched_step L s (Finished tok) s'"
  shows "sched_handles s = insert (tok_handle tok) (sched_handles s')"
    and "sched_wf s \<Longrightarrow> tok_handle tok \<notin> sched_handles s'"
proof -
  from sched_step_Finished [OF assms] obtain e
    where e: "mset (sched_entries s) = mset (e # sched_entries s')" and h: "tok_handle tok = entry_handle e"
    by auto
  from mset_eq_setD [OF e] h show "sched_handles s = insert (tok_handle tok) (sched_handles s')"
    by (simp add: sched_handles_def)
  from distinct_map_mset [OF e, of entry_handle] h
  show "sched_wf s \<Longrightarrow> tok_handle tok \<notin> sched_handles s'"
    by (simp add: sched_handles_def sched_wf_def)
qed

lemma progress_turn_handles:
  "progress_turn N L s = Continue s' \<Longrightarrow> sched_handles s' = sched_handles s"
  using progress_turn_Continue sched_step_handles by blast

lemma progress_turn_finished_handles:
  assumes "progress_turn N L s = Break r s'"
  shows "sched_handles s = sched_handles s' \<union> finished_handles r"
    and "sched_wf s \<Longrightarrow> finished_handles r \<inter> sched_handles s' = {}"
proof -
  from progress_turn_Break [OF assms] have st: "sched_step L s (turn_label r) s'" .
  consider (finished) tok where "r = Inr (Ev_TaskFinished tok)"
    | (other) "turn_label r = Touched" "finished_handles r = {}"
    by (cases r; cases "projr r"; force simp: turn_label_def finished_handles_def)
  then have "sched_handles s = sched_handles s' \<union> finished_handles r \<and>
      (sched_wf s \<longrightarrow> finished_handles r \<inter> sched_handles s' = {})"
  proof cases
    case finished
    with st sched_step_finished_handles [of L s tok s'] show ?thesis
      by (auto simp: turn_label_def finished_handles_def)
  next
    case other
    with st sched_step_handles [of L s Touched s'] show ?thesis by simp
  qed
  then show "sched_handles s = sched_handles s' \<union> finished_handles r"
    and "sched_wf s \<Longrightarrow> finished_handles r \<inter> sched_handles s' = {}"
    by blast+
qed

lemma progress_handles:
  assumes "progress N L s = Ret (r, s')" and "sched_wf s"
  shows "sched_handles s = sched_handles s' \<union> finished_handles r \<and>
    finished_handles r \<inter> sched_handles s' = {}"
proof (rule rust_loop_rule [where I = "\<lambda>t. sched_wf t \<and> sched_handles t = sched_handles s"
      and post = "\<lambda>r s'. sched_handles s = sched_handles s' \<union> finished_handles r \<and>
        finished_handles r \<inter> sched_handles s' = {}"])
  show "rust_loop (progress_turn N L) s = Ret (r, s')" using assms(1) by (simp add: progress_def)
next
  fix t t' assume "sched_wf t \<and> sched_handles t = sched_handles s" "progress_turn N L t = Continue t'"
  then show "sched_wf t' \<and> sched_handles t' = sched_handles s"
    using wf.turn_keeps(1) progress_turn_handles by metis
next
  fix t a t' assume "sched_wf t \<and> sched_handles t = sched_handles s" "progress_turn N L t = Break a t'"
  then show "sched_handles s = sched_handles t' \<union> finished_handles a \<and>
      finished_handles a \<inter> sched_handles t' = {}"
    using progress_turn_finished_handles by metis
qed (use assms(2) in simp)

section \<open>Reachable schedulers\<close>

text \<open>
  A scheduler in use: created, given tasks and input, and made to progress. \<open>\<Gamma>\<close> records the
  output type each handle was issued with. The premises of the second rule are what the
  scheduler relies on: \<open>enqueue_command\<close> returns a handle and \<open>TagGenerator\<close> a tag that were
  not handed out before.
\<close>

inductive reached ::
    "('v, 'c, 'g) next_client \<Rightarrow> 'v lib \<Rightarrow> (handle \<rightharpoonup> type_id) \<Rightarrow> ('v, 'c, 'g) scheduler \<Rightarrow> bool"
  for N L where
  created: "reached N L Map.empty (scheduler_new N c)"
| enqueued: "reached N L \<Gamma> s \<Longrightarrow> enqueue_task N L task s = Ret (th, s') \<Longrightarrow>
    th_handle th \<notin> dom \<Gamma> \<Longrightarrow> fst (nc_tag_generate N (tag_generator s)) \<notin> sched_tags s \<Longrightarrow>
    reached N L (\<Gamma>(th_handle th \<mapsto> th_type th)) s'"
| fed: "reached N L \<Gamma> s \<Longrightarrow> reached N L \<Gamma> (scheduler_enqueue_input N input s)"
| turned: "reached N L \<Gamma> s \<Longrightarrow> progress_turn N L s = Continue s' \<Longrightarrow> reached N L \<Gamma> s'"
| returned: "reached N L \<Gamma> s \<Longrightarrow> progress_turn N L s = Break r s' \<Longrightarrow> reached N L \<Gamma> s'"

lemma enqueue_task_Ret:
  assumes "enqueue_task N L task s = Ret (th, s')"
  shows "\<exists>tag g body c. nc_tag_generate N (tag_generator s) = (tag, g) \<and>
    task_command_body L task = Ret body \<and>
    nc_enqueue_command N \<lparr>cmd_tag = tag, cmd_body = body\<rparr> (client_next s) = (th_handle th, c) \<and>
    th_type th = task_type task \<and>
    s' = s\<lparr>client_next := c, tag_generator := g,
           waiting_tasks := waiting_tasks s @ [(th_handle th, tag, task)]\<rparr>"
  using assms by (auto simp: enqueue_task_def tm_push_back_def split: prod.splits run.splits)

lemma sched_typed_handles: "sched_typed \<Gamma> s \<Longrightarrow> sched_handles s \<subseteq> dom \<Gamma>"
  by (force simp: sched_typed_def sched_handles_def)

lemma enqueue_task_keeps:
  assumes "enqueue_task N L task s = Ret (th, s')" and "th_handle th \<notin> dom \<Gamma>"
    and "fst (nc_tag_generate N (tag_generator s)) \<notin> sched_tags s"
    and "sched_wf s" and "sched_typed \<Gamma> s"
  shows "sched_wf s'" and "sched_typed (\<Gamma>(th_handle th \<mapsto> th_type th)) s'"
proof -
  from enqueue_task_Ret [OF assms(1)] obtain tag g c
    where "nc_tag_generate N (tag_generator s) = (tag, g)" and ty: "th_type th = task_type task"
      and s': "s' = s\<lparr>client_next := c, tag_generator := g,
        waiting_tasks := waiting_tasks s @ [(th_handle th, tag, task)]\<rparr>"
    by blast
  moreover from assms(2,5) have "th_handle th \<notin> sched_handles s"
    using sched_typed_handles by blast
  ultimately show "sched_wf s'"
    using assms(3,4)
    by (auto simp: sched_wf_def sched_entries_def sched_handles_def sched_tags_def entry_defs)
  have "\<Gamma> (entry_handle e) = Some (task_type (entry_task e)) \<and> entry_handle e \<noteq> th_handle th"
    if "e \<in> set (sched_entries s)" for e
    using that assms(2,5) by (force simp: sched_typed_def)
  then show "sched_typed (\<Gamma>(th_handle th \<mapsto> th_type th)) s'"
    using s' ty unfolding sched_typed_def sched_entries_def by (simp add: entry_defs)
qed

lemma reached_invariant: "reached N L \<Gamma> s \<Longrightarrow> sched_wf s \<and> sched_typed \<Gamma> s"
proof (induction rule: reached.induct)
  case (created c)
  then show ?case
    by (simp add: scheduler_new_def sched_wf_def sched_typed_def sched_entries_def)
next
  case (enqueued \<Gamma> s task th s')
  then show ?case using enqueue_task_keeps by blast
next
  case (fed \<Gamma> s input)
  then show ?case
    by (simp add: scheduler_enqueue_input_def sched_wf_def sched_typed_def sched_entries_def)
qed (use wf.turn_keeps typed.turn_keeps in blast)+

text \<open>Whole calls of \<open>progress\<close> stay among the reachable schedulers.\<close>

lemma reached_progress:
  assumes "reached N L \<Gamma> s" and "progress N L s = Ret (r, s')"
  shows "reached N L \<Gamma> s'"
  using assms(2) unfolding progress_def
  by (rule rust_loop_rule [where I = "reached N L \<Gamma>" and post = "\<lambda>r s'. reached N L \<Gamma> s'"])
    (fact assms(1), erule (1) reached.turned, erule (1) reached.returned)

section \<open>Handles resolve to their own type\<close>

text \<open>A finished task's output has the type its handle was issued with.\<close>

lemma progress_turn_output:
  assumes "progress_turn N L s = Break (Inr (Ev_TaskFinished tok)) s'" and "sched_typed \<Gamma> s"
  shows "\<exists>out. tok_output tok = Some out \<and> \<Gamma> (tok_handle tok) = Some (output_type out)"
proof -
  from progress_turn_Break [OF assms(1)] have "sched_step L s (Finished tok) s'"
    by (simp add: turn_label_def)
  from sched_step_Finished [OF this] obtain e body
    where e: "mset (sched_entries s) = mset (e # sched_entries s')"
      and tok: "tok = \<lparr>tok_handle = entry_handle e,
        tok_output = Some (task_process_tagged L (entry_task e) body)\<rparr>"
    by blast
  from mset_eq_setD [OF e] have "e \<in> set (sched_entries s)" by simp
  with assms(2) tok show ?thesis by (force simp: sched_typed_def)
qed

lemma progress_output:
  assumes "progress N L s = Ret (Inr (Ev_TaskFinished tok), s')" and "sched_typed \<Gamma> s"
  shows "\<exists>out. tok_output tok = Some out \<and> \<Gamma> (tok_handle tok) = Some (output_type out)"
proof -
  have "\<forall>tok. r = Inr (Ev_TaskFinished tok) \<longrightarrow>
      (\<exists>out. tok_output tok = Some out \<and> \<Gamma> (tok_handle tok) = Some (output_type out))"
    if "progress N L s = Ret (r, s')" for r
    using that unfolding progress_def
    by (rule rust_loop_rule [where I = "sched_typed \<Gamma>" and post = "\<lambda>r s'. \<forall>tok.
          r = Inr (Ev_TaskFinished tok) \<longrightarrow>
          (\<exists>out. tok_output tok = Some out \<and> \<Gamma> (tok_handle tok) = Some (output_type out))"])
      (use assms(2) typed.turn_keeps(1) progress_turn_output in blast)+
  with assms(1) show ?thesis by blast
qed

lemma handle_resolve_typed:
  assumes "tok_output tok = Some out" and "\<Gamma> (tok_handle tok) = Some (output_type out)"
    and "\<Gamma> (th_handle th) = Some (th_type th)"
  shows "handle_resolve th tok =
    Ret (if tok_handle tok = th_handle th then (Some out, tok\<lparr>tok_output := None\<rparr>) else (None, tok))"
  using assms by (auto simp: handle_resolve_def)

end
