(* ===== verification/Scheduler_Events.thy ===== *)
theory Scheduler_Events
  imports Scheduler_Props
begin

text \<open>
  What each event does: which events make the scheduler panic, where a response goes, which
  malformed messages are skipped, and that \<open>progress\<close> returns when imap-next does not keep
  producing events without asking for input or output.
\<close>

section \<open>Panics\<close>

text \<open>
  The events the scheduler is prepared for: a command that was sent is one that waits, a
  command that is completed by its handle is active and completed by a tagged status, and
  imap-next takes the authentication data the task answers with.
\<close>

definition is_waiting :: "handle \<Rightarrow> ('v, 'c, 'g) scheduler \<Rightarrow> bool" where
  "is_waiting h s \<longleftrightarrow> h \<in> entry_handle ` set (waiting_tasks s)"

definition is_active :: "handle \<Rightarrow> ('v, 'c, 'g) scheduler \<Rightarrow> bool" where
  "is_active h s \<longleftrightarrow> h \<in> entry_handle ` set (active_tasks s)"

definition is_tagged :: "'v status \<Rightarrow> bool" where
  "is_tagged st = (case st of Status_Tagged _ _ \<Rightarrow> True | _ \<Rightarrow> False)"

fun event_expected :: "('v, 'c, 'g) next_client \<Rightarrow> 'v event \<Rightarrow> ('v, 'c, 'g) scheduler \<Rightarrow> bool" where
  "event_expected N (CommandSent h) s = is_waiting h s"
| "event_expected N (AuthenticateStarted h) s = is_waiting h s"
| "event_expected N (IdleCommandSent h) s = is_waiting h s"
| "event_expected N (CommandRejected h st) s = (is_tagged st \<and> is_active h s)"
| "event_expected N (AuthenticateStatusReceived h st) s = (is_tagged st \<and> is_active h s)"
| "event_expected N (IdleRejected h st) s = (is_tagged st \<and> is_active h s)"
| "event_expected N (AuthenticateContinuationRequestReceived h cont) s =
     (case tm_get_by_handle h (active_tasks s) of
        None \<Rightarrow> False
      | Some t \<Rightarrow>
          (case fst (task_process_authenticate t cont) of
             Inl _ \<Rightarrow> True
           | Inr data \<Rightarrow> fst (nc_set_authenticate_data N data (client_next s))))"
| "event_expected N _ s = True"

lemma start_task_panics: "start_task h s = Panicking \<longleftrightarrow> \<not> is_waiting h s"
  using by_handle.take_None [of h "waiting_tasks s"]
  by (auto simp: start_task_def is_waiting_def split: option.splits)

lemma finish_task_panics: "finish_task L h body s = Panicking \<longleftrightarrow> \<not> is_active h s"
  using by_handle.take_None [of h "active_tasks s"]
  by (auto simp: finish_task_def is_active_def split: option.splits)

lemma reject_task_panics:
  "reject_task L h st s = Panicking \<longleftrightarrow> \<not> (is_tagged st \<and> is_active h s)"
  by (cases st) (auto simp: reject_task_def is_tagged_def finish_task_panics)

lemma handle_event_panics: "handle_event N L e s = Panicking \<longleftrightarrow> \<not> event_expected N e s"
proof (cases e)
  case (AuthenticateContinuationRequestReceived h cont)
  then show ?thesis
    by (auto simp: handle_event_def Let_def split: option.splits prod.splits sum.splits if_splits)
next
  case (StatusReceived st)
  then show ?thesis
    by (cases st) (auto simp: handle_event_def split: option.splits prod.splits)
qed (auto simp: handle_event_def start_task_panics reject_task_panics split: option.splits prod.splits)

lemma handle_event_returns [simp]: "handle_event N L e s \<noteq> Diverging"
proof (cases e)
  case (AuthenticateContinuationRequestReceived h cont)
  then show ?thesis
    by (auto simp: handle_event_def Let_def split: option.splits prod.splits sum.splits if_splits)
next
  case (StatusReceived st)
  then show ?thesis
    by (cases st) (auto simp: handle_event_def split: option.splits prod.splits)
qed (auto simp: handle_event_def start_task_def reject_task_def finish_task_def
      split: option.splits prod.splits status.splits)

lemma progress_turn_returns [simp]: "progress_turn N L s \<noteq> Diverging"
  by (auto simp: progress_turn_def Let_def
      split: prod.splits sum.splits interrupt.splits next_error.splits)

section \<open>One turn per event\<close>

lemma progress_turn_event:
  "nc_next N (client_next s) = (Inr e, c) \<Longrightarrow>
     progress_turn N L s = handle_event N L e (s\<lparr>client_next := c\<rparr>)"
  by (simp add: progress_turn_def Let_def)

lemma progress_turn_io:
  "nc_next N (client_next s) = (Inl (Int_Io io), c) \<Longrightarrow>
     progress_turn N L s = Break (Inl (Int_Io io)) (s\<lparr>client_next := c\<rparr>)"
  by (simp add: progress_turn_def Let_def)

lemma progress_turn_error:
  "nc_next N (client_next s) = (Inl (Int_Error err), c) \<Longrightarrow>
     progress_turn N L s =
       (if \<exists>b. err = MalformedMessage b \<and> is_malformed_fetch b then Continue (s\<lparr>client_next := c\<rparr>)
        else Break (Inl (Int_Error (Flow err))) (s\<lparr>client_next := c\<rparr>))"
  by (auto simp: progress_turn_def Let_def split: next_error.split)

lemma progress_turn_panics:
  "progress_turn N L s = Panicking \<longleftrightarrow>
     (\<exists>e c. nc_next N (client_next s) = (Inr e, c) \<and> \<not> event_expected N e (s\<lparr>client_next := c\<rparr>))"
proof -
  obtain r c where n: "nc_next N (client_next s) = (r, c)" by (cases "nc_next N (client_next s)")
  show ?thesis
  proof (cases r)
    case (Inr e)
    with n show ?thesis by (simp add: progress_turn_event handle_event_panics)
  next
    case (Inl i)
    with n progress_turn_io [of N s] progress_turn_error [of N s] show ?thesis by (cases i) auto
  qed
qed

lemma progress_panics_at:
  assumes "progress N L s = Panic"
  shows "\<exists>t c e. continues (progress_turn N L) s t \<and> nc_next N (client_next t) = (Inr e, c) \<and>
    \<not> event_expected N e (t\<lparr>client_next := c\<rparr>)"
  using rust_loop_Panic_reached [of "progress_turn N L" s] assms
  by (simp add: progress_def progress_turn_panics) blast

lemma progress_Continue: "progress_turn N L s = Continue s' \<Longrightarrow> progress N L s = progress N L s'"
  by (simp add: progress_def run_simps)

lemma progress_Break: "progress_turn N L s = Break r s' \<Longrightarrow> progress N L s = Ret (r, s')"
  by (simp add: progress_def run_simps)

lemma progress_Panicking: "progress_turn N L s = Panicking \<Longrightarrow> progress N L s = Panic"
  by (simp add: progress_def run_simps)

section \<open>Responses\<close>

text \<open>
  Where a response goes, said directly: to the first task that takes it, and only there.
\<close>

fun first_taker :: "('v task \<Rightarrow> 'm option \<times> 'v task) \<Rightarrow> 'v task_map \<Rightarrow> 'v task_map option" where
  "first_taker f [] = None"
| "first_taker f ((h, tag, t) # tasks) =
     (case f t of
        (None, t') \<Rightarrow> Some ((h, tag, t') # tasks)
      | (Some _, _) \<Rightarrow> map_option (\<lambda>ts. (h, tag, t) # ts) (first_taker f tasks))"

lemma first_taker_None:
  "(\<forall>e \<in> set tasks. fst (f (entry_task e)) \<noteq> None) \<Longrightarrow> first_taker f tasks = None"
  by (induction f tasks rule: first_taker.induct)
    (auto simp: entry_task_def split: prod.splits option.splits)

lemma first_taker_Some:
  "(\<forall>e \<in> set us. fst (f (entry_task e)) \<noteq> None) \<Longrightarrow> f t = (None, t') \<Longrightarrow>
     first_taker f (us @ (h, tag, t) # vs) = Some (us @ (h, tag, t') # vs)"
  by (induction us) (auto simp: entry_task_def split: prod.splits option.splits)

context task_consumer
begin

lemma trickle_active_first_taker:
  "trickle_active process m s =
     (case first_taker (\<lambda>t. process t m) (active_tasks s) of
        None \<Rightarrow> (Some m, s)
      | Some active \<Rightarrow> (None, s\<lparr>active_tasks := active\<rparr>))"
proof (cases rule: trickle_active_cases [of s m])
  case ignored
  then show ?thesis by (simp add: first_taker_None)
next
  case (consumed us h tag t vs t')
  then show ?thesis
    by (simp add: first_taker_Some [where f = "\<lambda>t. process t m"])
qed

end

text \<open>A tagged status completes the active task with that tag, or is an error.\<close>

lemma tagged_status_finishes:
  assumes "active_tasks s = us @ (h, tag, t) # vs" and "tag \<notin> entry_tag ` set us"
  shows "handle_event N L (StatusReceived (Status_Tagged tag body)) s =
    Break (Inr (Ev_TaskFinished
        \<lparr>tok_handle = h, tok_output = Some (task_process_tagged L t body)\<rparr>))
      (s\<lparr>active_tasks := us @ vs\<rparr>)"
proof -
  have "tm_remove_by_tag tag (us @ (h, tag, t) # vs) = Some ((h, tag, t), us @ vs)"
    using assms(2) unfolding tm_remove_by_tag_first
    by (induction us) (auto simp: entry_tag_def)
  with assms(1) show ?thesis by (simp add: handle_event_def)
qed

lemma tagged_status_unexpected:
  assumes "tag \<notin> entry_tag ` set (active_tasks s)"
  shows "handle_event N L (StatusReceived (Status_Tagged tag body)) s =
    Break (Inl (Int_Error (UnexpectedTaggedResponse tag body))) s"
  using assms by (simp add: handle_event_def by_tag.take_None [THEN iffD2])

lemma command_sent_starts:
  assumes "waiting_tasks s = us @ (h, tag, t) # vs" and "h \<notin> entry_handle ` set us"
  shows "start_task h s =
    Continue (s\<lparr>waiting_tasks := us @ vs, active_tasks := active_tasks s @ [(h, tag, t)]\<rparr>)"
proof -
  have "tm_remove_by_handle h (us @ (h, tag, t) # vs) = Some ((h, tag, t), us @ vs)"
    using assms(2) unfolding tm_remove_by_handle_first
    by (induction us) (auto simp: entry_handle_def)
  with assms(1) show ?thesis by (simp add: start_task_def tm_push_back_def)
qed

section \<open>Malformed messages\<close>

text \<open>The three space-separated fields of a message, and what the test looks at.\<close>

lemma is_malformed_fetch_third_field:
  assumes "CHR '' '' \<notin> set a" and "CHR '' '' \<notin> set b" and "CHR '' '' \<notin> set c"
    and "rest = [] \<or> hd rest = CHR '' ''"
  shows "is_malformed_fetch (a @ '' '' @ b @ '' '' @ c @ rest) = eq_ignore_ascii_case c ''FETCH''"
proof (cases rest)
  case Nil
  with assms show ?thesis
    by (simp add: is_malformed_fetch_def split_on_field split_on_last)
next
  case (Cons x xs)
  with assms show ?thesis
    by (simp add: is_malformed_fetch_def split_on_field)
qed

lemma length_split_on: "length (split_on c xs) = Suc (count_list xs c)"
  by (induction xs) (auto split: list.splits)

lemma is_malformed_fetch_short:
  assumes "count_list xs (CHR '' '') < 2"
  shows "\<not> is_malformed_fetch xs"
proof -
  have "drop 2 (split_on (CHR '' '') xs) = []"
    using assms by (simp add: length_split_on)
  then show ?thesis by (simp add: is_malformed_fetch_def)
qed

lemma split_on_Cons:
  assumes "split_on c xs = f # fs"
  shows "c \<notin> set f \<and> (if fs = [] then xs = f else \<exists>ys. xs = f @ c # ys \<and> split_on c ys = fs)"
  using assms
proof (induction xs arbitrary: f)
  case (Cons x xs)
  then show ?case
    by (cases "split_on c xs") (auto split: if_splits simp: split_on_nonempty)
qed simp

text \<open>So the test holds of nothing else: a message with fewer fields never passes it.\<close>

definition third_field_fetch :: "bytes \<Rightarrow> bool" where
  "third_field_fetch msg \<longleftrightarrow>
     (\<exists>a b field rest. msg = a @ '' '' @ b @ '' '' @ field @ rest \<and>
        CHR '' '' \<notin> set a \<union> set b \<union> set field \<and> (rest = [] \<or> hd rest = CHR '' '') \<and>
        eq_ignore_ascii_case field ''FETCH'')"

lemma is_malformed_fetch_iff: "is_malformed_fetch msg \<longleftrightarrow> third_field_fetch msg"
proof
  assume test: "is_malformed_fetch msg"
  then obtain field fs where drop: "drop 2 (split_on (CHR '' '') msg) = field # fs"
    and fetch: "eq_ignore_ascii_case field ''FETCH''"
    by (auto simp: is_malformed_fetch_def split: list.splits)
  from drop obtain a b where fields: "split_on (CHR '' '') msg = a # b # field # fs"
    by (cases "split_on (CHR '' '') msg"; cases "tl (split_on (CHR '' '') msg)") auto
  from split_on_Cons [OF fields] obtain bs
    where a: "CHR '' '' \<notin> set a" "msg = a @ CHR '' '' # bs"
      and bs: "split_on (CHR '' '') bs = b # field # fs" by auto
  from split_on_Cons [OF bs] obtain cs
    where b: "CHR '' '' \<notin> set b" "bs = b @ CHR '' '' # cs"
      and cs: "split_on (CHR '' '') cs = field # fs" by auto
  obtain rest where "CHR '' '' \<notin> set field" "cs = field @ rest" "rest = [] \<or> hd rest = CHR '' ''"
  proof (cases "fs = []")
    case True
    with split_on_Cons [OF cs] that [of "[]"] show thesis by simp
  next
    case False
    with split_on_Cons [OF cs] obtain ys where "CHR '' '' \<notin> set field" "cs = field @ CHR '' '' # ys" by auto
    with that [of "CHR '' '' # ys"] show thesis by simp
  qed
  with a b fetch show "third_field_fetch msg" unfolding third_field_fetch_def
    by (intro exI [of _ a] exI [of _ b] exI [of _ field] exI [of _ rest]) simp
next
  assume "third_field_fetch msg"
  then obtain a b field rest where "msg = a @ '' '' @ b @ '' '' @ field @ rest"
    "CHR '' '' \<notin> set a" "CHR '' '' \<notin> set b" "CHR '' '' \<notin> set field"
    "rest = [] \<or> hd rest = CHR '' ''" "eq_ignore_ascii_case field ''FETCH''"
    unfolding third_field_fetch_def Un_iff by blast
  with is_malformed_fetch_third_field [of a b field rest] show "is_malformed_fetch msg" by simp
qed

section \<open>Termination\<close>

lemma handle_event_client:
  assumes "handle_event N L e s = Continue s'"
  shows "client_next s' = client_next s \<or>
    (\<exists>data. client_next s' = snd (nc_set_authenticate_data N data (client_next s)))"
proof (cases e)
  case (AuthenticateContinuationRequestReceived h cont)
  with assms show ?thesis
    by (auto simp: handle_event_def Let_def split: option.splits prod.splits sum.splits if_splits)
      (metis snd_conv)
next
  case (StatusReceived st)
  with assms show ?thesis
    by (cases st)
      (auto simp: handle_event_def trickle_active_def split: option.splits prod.splits)
qed (use assms in \<open>auto simp: handle_event_def trickle_active_def start_task_def
      split: option.splits prod.splits\<close>)

text \<open>\<open>m\<close> counts what the client can still report on its own.\<close>

lemma progress_terminates:
  fixes m :: "'c \<Rightarrow> nat"
  assumes less: "\<And>c r c'. nc_next N c = (r, c') \<Longrightarrow> (\<forall>io. r \<noteq> Inl (Int_Io io)) \<Longrightarrow> m c' < m c"
    and auth: "\<And>data c. m (snd (nc_set_authenticate_data N data c)) \<le> m c"
  shows "progress N L s \<noteq> Diverge"
  unfolding progress_def
proof (rule rust_loop_terminates [where I = "\<lambda>_. True" and m = "\<lambda>s. m (client_next s)"])
  fix s s'
  assume turn: "progress_turn N L s = Continue s'"
  obtain r c where n: "nc_next N (client_next s) = (r, c)" by (cases "nc_next N (client_next s)")
  with turn have "\<forall>io. r \<noteq> Inl (Int_Io io)" by (auto simp: progress_turn_def Let_def)
  with less n have smaller: "m c < m (client_next s)" by blast
  have "m (client_next s') \<le> m c"
  proof (cases r)
    case (Inr e)
    with turn n have "handle_event N L e (s\<lparr>client_next := c\<rparr>) = Continue s'"
      by (simp add: progress_turn_def)
    from handle_event_client [OF this] auth show ?thesis by auto
  next
    case (Inl i)
    with turn n show ?thesis
      by (auto simp: progress_turn_def Let_def split: interrupt.splits next_error.splits if_splits)
  qed
  with smaller show "True \<and> m (client_next s') < m (client_next s)" by simp
qed simp_all

section \<open>A scripted client\<close>

text \<open>
  A concrete \<open>next_client\<close> for closed examples: it reports a list of results, then asks for
  input; handles and tags count up; what it is given is recorded.
\<close>

record 'v script =
  sc_results :: "('v next_error interrupt + 'v event) list"
  sc_next_handle :: handle
  sc_commands :: "'v command list"
  sc_auth :: "auth_data list"

definition script :: "('v next_error interrupt + 'v event) list \<Rightarrow> 'v script" where
  "script rs = \<lparr>sc_results = rs, sc_next_handle = 0, sc_commands = [], sc_auth = []\<rparr>"

definition script_client :: "('v, 'v script, nat) next_client" where
  "script_client =
     \<lparr>nc_next = (\<lambda>c. case sc_results c of
                      [] \<Rightarrow> (Inl (Int_Io Io_NeedMoreInput), c)
                    | r # rs \<Rightarrow> (r, c\<lparr>sc_results := rs\<rparr>)),
      nc_enqueue_command = (\<lambda>cmd c. (sc_next_handle c,
        c\<lparr>sc_next_handle := Suc (sc_next_handle c), sc_commands := sc_commands c @ [cmd]\<rparr>)),
      nc_enqueue_input = (\<lambda>_ c. c),
      nc_set_authenticate_data = (\<lambda>data c. (True, c\<lparr>sc_auth := sc_auth c @ [data]\<rparr>)),
      nc_set_idle_done = (\<lambda>c. c),
      nc_tag_new = 0,
      nc_tag_generate = (\<lambda>n. (decimal n, Suc n))\<rparr>"

lemmas script_defs = script_def script_client_def

end
