(* ===== verification/Resolver.thy ===== *)
theory Resolver
  imports Scheduler_Events
begin

text \<open>
  \<open>Resolver\<close> and \<open>ResolvingTask\<close> (\<open>src/tasks/resolver.rs\<close>): run one task to its end, dropping
  what belongs to nobody.
\<close>

record ('v, 'c, 'g) resolver =
  resolver_scheduler :: "('v, 'c, 'g) scheduler"

definition resolver_new :: "('v, 'c, 'g) next_client \<Rightarrow> 'c \<Rightarrow> ('v, 'c, 'g) resolver" where
  "resolver_new N c = \<lparr>resolver_scheduler = scheduler_new N c\<rparr>"

definition resolver_resolve ::
    "('v, 'c, 'g) next_client \<Rightarrow> 'v lib \<Rightarrow> 'v task \<Rightarrow> ('v, 'c, 'g) resolver
       \<Rightarrow> (task_handle \<times> ('v, 'c, 'g) resolver) run" where
  "resolver_resolve N L task self =
     (case enqueue_task N L task (resolver_scheduler self) of
        Ret (handle, s) \<Rightarrow> Ret (handle, self\<lparr>resolver_scheduler := s\<rparr>)
      | Panic \<Rightarrow> Panic
      | Diverge \<Rightarrow> Diverge)"

definition resolver_enqueue_input ::
    "('v, 'c, 'g) next_client \<Rightarrow> bytes \<Rightarrow> ('v, 'c, 'g) resolver \<Rightarrow> ('v, 'c, 'g) resolver" where
  "resolver_enqueue_input N input self =
     self\<lparr>resolver_scheduler := scheduler_enqueue_input N input (resolver_scheduler self)\<rparr>"

definition resolver_next ::
    "('v, 'c, 'g) next_client \<Rightarrow> 'v lib \<Rightarrow> ('v, 'c, 'g) resolver
       \<Rightarrow> ('v progress_result \<times> ('v, 'c, 'g) resolver) run" where
  "resolver_next N L self =
     (case progress N L (resolver_scheduler self) of
        Ret (r, s) \<Rightarrow> Ret (r, self\<lparr>resolver_scheduler := s\<rparr>)
      | Panic \<Rightarrow> Panic
      | Diverge \<Rightarrow> Diverge)"

text \<open>
  The resolving task is a handle and the resolver it borrows: its methods take both, and leave
  the resolver behind.
\<close>

definition resolving_enqueue_input ::
    "('v, 'c, 'g) next_client \<Rightarrow> task_handle \<Rightarrow> bytes \<Rightarrow> ('v, 'c, 'g) resolver \<Rightarrow> ('v, 'c, 'g) resolver" where
  [simp]: "resolving_enqueue_input N handle bytes resolver = resolver_enqueue_input N bytes resolver"

definition resolving_turn ::
    "('v, 'c, 'g) next_client \<Rightarrow> 'v lib \<Rightarrow> task_handle \<Rightarrow> ('v, 'c, 'g) resolver
       \<Rightarrow> (('v, 'c, 'g) resolver, 'v scheduler_error interrupt + 'v any_output) flow" where
  "resolving_turn N L handle resolver =
     (case resolver_next N L resolver of
        Ret (Inl interrupt, resolver) \<Rightarrow> Break (Inl interrupt) resolver
      | Ret (Inr event, resolver) \<Rightarrow>
          (case event of
             Ev_GreetingReceived greeting \<Rightarrow> Continue resolver
           | Ev_TaskFinished token \<Rightarrow>
               (case handle_resolve handle token of
                  Ret (Some output, token) \<Rightarrow> Break (Inr output) resolver
                | Ret (None, token) \<Rightarrow> Continue resolver
                | Panic \<Rightarrow> Panicking
                | Diverge \<Rightarrow> Diverging)
           | Ev_Unsolicited unsolicited \<Rightarrow>
               (case unsolicited of
                  Resp_Status (Status_Bye bye) \<Rightarrow>
                    Break (Inl (Int_Error (UnexpectedByeResponse bye))) resolver
                | _ \<Rightarrow> Continue resolver))
      | Panic \<Rightarrow> Panicking
      | Diverge \<Rightarrow> Diverging)"

definition resolving_next ::
    "('v, 'c, 'g) next_client \<Rightarrow> 'v lib \<Rightarrow> task_handle \<Rightarrow> ('v, 'c, 'g) resolver
       \<Rightarrow> (('v scheduler_error interrupt + 'v any_output) \<times> ('v, 'c, 'g) resolver) run" where
  "resolving_next N L handle = rust_loop (resolving_turn N L handle)"

section \<open>Only its own output\<close>

text \<open>Types are kept along the loop, so what comes out has the type of the handle.\<close>

lemma resolver_next_scheduler:
  "resolver_next N L rs = Ret (r, rs') \<Longrightarrow>
     progress N L (resolver_scheduler rs) = Ret (r, resolver_scheduler rs')"
  by (auto simp: resolver_next_def split: run.splits prod.splits)

lemma resolving_turn_Continue:
  "resolving_turn N L th rs = Continue rs' \<Longrightarrow>
     \<exists>r. progress N L (resolver_scheduler rs) = Ret (r, resolver_scheduler rs')"
  by (auto simp: resolving_turn_def dest: resolver_next_scheduler
      split: run.splits prod.splits sum.splits scheduler_event.splits option.splits
        response.splits status.splits)

lemma resolving_turn_output:
  "resolving_turn N L th rs = Break (Inr out) rs' \<Longrightarrow>
     \<exists>tok tok'. progress N L (resolver_scheduler rs) =
         Ret (Inr (Ev_TaskFinished tok), resolver_scheduler rs') \<and>
       handle_resolve th tok = Ret (Some out, tok')"
  by (auto simp: resolving_turn_def dest: resolver_next_scheduler
      split: run.splits prod.splits sum.splits scheduler_event.splits option.splits
        response.splits status.splits)

lemma handle_resolve_Some:
  "handle_resolve th tok = Ret (Some out, tok') \<Longrightarrow>
     tok_handle tok = th_handle th \<and> tok_output tok = Some out \<and> output_type out = th_type th \<and>
     tok' = tok\<lparr>tok_output := None\<rparr>"
  by (auto simp: handle_resolve_def split: if_splits option.splits)

lemma resolving_turn_safe:
  assumes "sched_typed \<Gamma> (resolver_scheduler rs)" and "\<Gamma> (th_handle th) = Some (th_type th)"
    and "progress N L (resolver_scheduler rs) \<noteq> Panic"
  shows "resolving_turn N L th rs \<noteq> Panicking"
proof (cases "progress N L (resolver_scheduler rs)")
  case (Ret p)
  show ?thesis
  proof (cases "\<exists>tok s. p = (Inr (Ev_TaskFinished tok), s)")
    case True
    then obtain tok s where p: "p = (Inr (Ev_TaskFinished tok), s)" by blast
    with Ret progress_output [of N L _ tok s \<Gamma>] assms(1) obtain out
      where "tok_output tok = Some out" "\<Gamma> (tok_handle tok) = Some (output_type out)"
      by blast
    with assms(2) Ret p show ?thesis
      by (auto simp: resolving_turn_def resolver_next_def handle_resolve_typed)
  next
    case False
    with Ret show ?thesis
      by (auto simp: resolving_turn_def resolver_next_def
          split: prod.splits sum.splits scheduler_event.splits response.splits status.splits)
  qed
qed (use assms(3) in \<open>simp_all add: resolving_turn_def resolver_next_def\<close>)

section \<open>From the command to its output\<close>

text \<open>The events a client reports next, one after the other.\<close>

fun emits :: "('v, 'c, 'g) next_client \<Rightarrow> 'c \<Rightarrow> 'v event list \<Rightarrow> 'c \<Rightarrow> bool" where
  "emits N c [] c' = (c = c')"
| "emits N c (e # es) c' =
     (case nc_next N c of (Inr e', c1) \<Rightarrow> e' = e \<and> emits N c1 es c' | (Inl _, _) \<Rightarrow> False)"

lemma emits_Cons:
  "emits N c (e # es) c' \<longleftrightarrow> (\<exists>c1. nc_next N c = (Inr e, c1) \<and> emits N c1 es c')"
  by (auto split: prod.splits sum.splits)

text \<open>
  The events that may come between a command and its completion without ending it, and what
  they leave of the one active task.
\<close>

fun between :: "'v event \<Rightarrow> bool" where
  "between (DataReceived d) = True"
| "between (StatusReceived (Status_Untagged b)) = True"
| "between (ContinuationRequestReceived c) = True"
| "between (GreetingReceived g) = True"
| "between _ = False"

fun task_after_event :: "'v lib \<Rightarrow> 'v event \<Rightarrow> 'v task \<Rightarrow> 'v task" where
  "task_after_event L (DataReceived d) t = snd (task_process_data L t d)"
| "task_after_event L (StatusReceived (Status_Untagged b)) t = snd (task_process_untagged t b)"
| "task_after_event L _ t = t"

definition task_after :: "'v lib \<Rightarrow> 'v event list \<Rightarrow> 'v task \<Rightarrow> 'v task" where
  "task_after L es t = fold (task_after_event L) es t"

lemma resolving_skip_Continue:
  assumes "progress_turn N L (resolver_scheduler rs) = Continue s"
  shows "resolving_next N L th rs = resolving_next N L th (rs\<lparr>resolver_scheduler := s\<rparr>)"
proof -
  have "resolver_next N L rs = resolver_next N L (rs\<lparr>resolver_scheduler := s\<rparr>)"
    using progress_Continue [OF assms]
    by (auto simp: resolver_next_def split: run.split prod.split)
  then have "resolving_turn N L th rs = resolving_turn N L th (rs\<lparr>resolver_scheduler := s\<rparr>)"
    by (simp add: resolving_turn_def)
  then show ?thesis
    unfolding resolving_next_def by (rule rust_loop_same_turn)
qed

lemma resolving_skip_Break:
  assumes "progress_turn N L (resolver_scheduler rs) = Break (Inr ev) s"
    and "(\<exists>g. ev = Ev_GreetingReceived g) \<or>
      (\<exists>u. ev = Ev_Unsolicited u \<and> (\<forall>bye. u \<noteq> Resp_Status (Status_Bye bye)))"
  shows "resolving_next N L th rs = resolving_next N L th (rs\<lparr>resolver_scheduler := s\<rparr>)"
  using assms unfolding resolving_next_def
  by (auto simp: resolving_turn_def resolver_next_def progress_Break
      intro!: rust_loop_Continue split: response.split status.split)

lemma resolver_eta: "rs\<lparr>resolver_scheduler := resolver_scheduler rs\<rparr> = rs"
  by simp

lemma fst_None_pair: "fst p = None \<Longrightarrow> p = (None, snd p)"
  by (cases p) simp

lemma resolving_between:
  assumes act: "active_tasks (resolver_scheduler rs) = [(h, tag, t)]" and b: "between e"
    and n: "nc_next N (client_next (resolver_scheduler rs)) = (Inr e, c)"
  shows "resolving_next N L th rs = resolving_next N L th (rs\<lparr>resolver_scheduler :=
    (resolver_scheduler rs)\<lparr>client_next := c, active_tasks := [(h, tag, task_after_event L e t)]\<rparr>\<rparr>)"
    (is "_ = resolving_next N L th (rs\<lparr>resolver_scheduler := ?s'\<rparr>)")
proof -
  let ?s = "(resolver_scheduler rs)\<lparr>client_next := c\<rparr>"
  have turn: "progress_turn N L (resolver_scheduler rs) = handle_event N L e ?s"
    by (rule progress_turn_event [OF n])
  have stay: "?s\<lparr>active_tasks := [(h, tag, t)]\<rparr> = ?s" using act by simp
  show ?thesis
    using b
  proof (cases e rule: between.cases)
    case (1 d)
    show ?thesis
    proof (cases "fst (task_process_data L t d)")
      case None
      from fst_None_pair [OF this] have "handle_event N L e ?s = Continue ?s'"
        using any_data.trickle_active_consumed [of ?s "[]" h tag t "[]" L d] act 1
        by (simp add: handle_event_def)
      with turn show ?thesis by (simp add: resolving_skip_Continue)
    next
      case (Some d')
      then have "handle_event N L e ?s = Break (Inr (Ev_Unsolicited (Resp_Data d))) ?s"
        using any_data.trickle_active_ignored [of ?s L d] act 1
        by (simp add: handle_event_def entry_task_def)
      moreover from Some any_data.not_interested [of L t d] have "task_after_event L e t = t"
        using 1 by simp
      ultimately show ?thesis using turn stay by (simp add: resolving_skip_Break)
    qed
  next
    case (2 sb)
    show ?thesis
    proof (cases "fst (task_process_untagged t sb)")
      case None
      from fst_None_pair [OF this] have "handle_event N L e ?s = Continue ?s'"
        using any_untagged.trickle_active_consumed [of ?s "[]" h tag t "[]" sb] act 2
        by (simp add: handle_event_def)
      with turn show ?thesis by (simp add: resolving_skip_Continue)
    next
      case (Some sb')
      then have "handle_event N L e ?s =
          Break (Inr (Ev_Unsolicited (Resp_Status (Status_Untagged sb)))) ?s"
        using any_untagged.trickle_active_ignored [of ?s sb] act 2
        by (simp add: handle_event_def entry_task_def)
      moreover from Some any_untagged.not_interested [of t sb] have "task_after_event L e t = t"
        using 2 by simp
      ultimately show ?thesis using turn stay by (simp add: resolving_skip_Break)
    qed
  next
    case (3 cont)
    have "handle_event N L e ?s = Break (Inr (Ev_Unsolicited (Resp_Continuation cont))) ?s"
      using any_continuation.trickle_active_ignored [of ?s cont] act 3
      by (simp add: handle_event_def task_process_continuation_def default_process_def)
    with turn stay 3 show ?thesis by (simp add: resolving_skip_Break)
  next
    case (4 g)
    then have "handle_event N L e ?s = Break (Inr (Ev_GreetingReceived g)) ?s"
      by (simp add: handle_event_def)
    with turn stay 4 show ?thesis by (simp add: resolving_skip_Break)
  qed simp_all
qed

lemma resolving_until_tagged:
  assumes "active_tasks (resolver_scheduler rs) = [(h, tag, t)]" and "\<forall>e \<in> set es. between e"
    and "emits N (client_next (resolver_scheduler rs))
      (es @ [StatusReceived (Status_Tagged tag body)]) c'"
    and "th_handle th = h" and "th_type th = task_type t"
  shows "resolving_next N L th rs =
    Ret (Inr (task_process_tagged L (task_after L es t) body),
         rs\<lparr>resolver_scheduler := (resolver_scheduler rs)\<lparr>client_next := c', active_tasks := []\<rparr>\<rparr>)"
  using assms
proof (induction es arbitrary: rs t)
  case Nil
  from Nil.prems(3) have
    "nc_next N (client_next (resolver_scheduler rs)) = (Inr (StatusReceived (Status_Tagged tag body)), c')"
    by (simp only: append_Nil emits_Cons emits.simps) blast
  from progress_turn_event [OF this, of L]
  have "progress N L (resolver_scheduler rs) =
      Ret (Inr (Ev_TaskFinished \<lparr>tok_handle = h, tok_output = Some (task_process_tagged L t body)\<rparr>),
        (resolver_scheduler rs)\<lparr>client_next := c', active_tasks := []\<rparr>)"
    using tagged_status_finishes [of "(resolver_scheduler rs)\<lparr>client_next := c'\<rparr>" "[]" h tag t "[]"]
      Nil.prems(1)
    by (simp add: progress_Break)
  then have "resolving_turn N L th rs = Break (Inr (task_process_tagged L t body))
      (rs\<lparr>resolver_scheduler := (resolver_scheduler rs)\<lparr>client_next := c', active_tasks := []\<rparr>\<rparr>)"
    using Nil.prems(4,5) by (simp add: resolving_turn_def resolver_next_def handle_resolve_def)
  then show ?case by (simp add: resolving_next_def run_simps task_after_def)
next
  case (Cons e es)
  from Cons.prems(3) obtain c
    where n: "nc_next N (client_next (resolver_scheduler rs)) = (Inr e, c)"
      and es: "emits N c (es @ [StatusReceived (Status_Tagged tag body)]) c'"
    by (simp only: append_Cons emits_Cons) blast
  have ty: "task_type (task_after_event L e t) = task_type t"
    by (cases e rule: between.cases) simp_all
  let ?rs = "rs\<lparr>resolver_scheduler := (resolver_scheduler rs)
      \<lparr>client_next := c, active_tasks := [(h, tag, task_after_event L e t)]\<rparr>\<rparr>"
  have "resolving_next N L th rs = resolving_next N L th ?rs"
    using resolving_between [OF Cons.prems(1) _ n] Cons.prems(2) by simp
  also have "\<dots> = Ret (Inr (task_process_tagged L (task_after L es (task_after_event L e t)) body),
      ?rs\<lparr>resolver_scheduler := (resolver_scheduler ?rs)\<lparr>client_next := c', active_tasks := []\<rparr>\<rparr>)"
    using Cons.prems es ty by (intro Cons.IH) simp_all
  finally show ?case by (simp add: task_after_def)
qed

end
