(* ===== verification/Client_State.thy ===== *)
theory Client_State
  imports Resolver
begin

text \<open>
  The state of a client (\<open>src/client/mod.rs\<close>): the resolver, the server's capabilities as last
  announced, the timeout of IDLE and whether CONDSTORE has been enabled.
\<close>

type_synonym duration = nat \<comment> \<open>\<open>std::time::Duration\<close>, in nanoseconds\<close>

definition from_secs :: "nat \<Rightarrow> duration" where
  "from_secs n = n * 1000000000"

record ('v, 'c, 'g) client_state =
  cs_resolver :: "('v, 'c, 'g) resolver"
  cs_capabilities :: "'v capability list"
  cs_idle_timeout :: duration
  cs_condstore_enabled :: bool

definition client_state_new :: "('v, 'c, 'g) next_client \<Rightarrow> 'c \<Rightarrow> ('v, 'c, 'g) client_state" where
  "client_state_new N c =
     \<lparr>cs_resolver = resolver_new N c, cs_capabilities = [Cap_Imap4Rev1],
      cs_idle_timeout = from_secs (5 * 60), cs_condstore_enabled = False\<rparr>"

definition get_idle_timeout :: "('v, 'c, 'g) client_state \<Rightarrow> duration" where
  "get_idle_timeout self = cs_idle_timeout self"

definition set_idle_timeout :: "duration \<Rightarrow> ('v, 'c, 'g) client_state \<Rightarrow> ('v, 'c, 'g) client_state" where
  "set_idle_timeout timeout self = self\<lparr>cs_idle_timeout := timeout\<rparr>"

definition set_some_idle_timeout ::
    "duration option \<Rightarrow> ('v, 'c, 'g) client_state \<Rightarrow> ('v, 'c, 'g) client_state" where
  "set_some_idle_timeout timeout self =
     (case timeout of Some timeout \<Rightarrow> set_idle_timeout timeout self | None \<Rightarrow> self)"

definition with_idle_timeout :: "duration \<Rightarrow> ('v, 'c, 'g) client_state \<Rightarrow> ('v, 'c, 'g) client_state" where
  "with_idle_timeout timeout self = set_idle_timeout timeout self"

definition with_some_idle_timeout ::
    "duration option \<Rightarrow> ('v, 'c, 'g) client_state \<Rightarrow> ('v, 'c, 'g) client_state" where
  "with_some_idle_timeout timeout self = set_some_idle_timeout timeout self"

definition client_capabilities :: "('v, 'c, 'g) client_state \<Rightarrow> 'v capability list" where
  [simp]: "client_capabilities self = cs_capabilities self"

definition capabilities_iter :: "('v, 'c, 'g) client_state \<Rightarrow> 'v capability list" where
  [simp]: "capabilities_iter self = client_capabilities self"

definition client_condstore_enabled :: "('v, 'c, 'g) client_state \<Rightarrow> bool" where
  "client_condstore_enabled self = cs_condstore_enabled self"

definition supported_auth_mechanisms :: "('v, 'c, 'g) client_state \<Rightarrow> 'v auth_mechanism list" where
  "supported_auth_mechanisms self =
     List.map_filter (\<lambda>capability. case capability of Cap_Auth mechanism \<Rightarrow> Some mechanism | _ \<Rightarrow> None)
       (capabilities_iter self)"

definition supports_auth_mechanism :: "'v auth_mechanism \<Rightarrow> ('v, 'c, 'g) client_state \<Rightarrow> bool" where
  "supports_auth_mechanism mechanism self \<longleftrightarrow>
     list_ex (\<lambda>capability. case capability of Cap_Auth m \<Rightarrow> m = mechanism | _ \<Rightarrow> False)
       (capabilities_iter self)"

definition login_supported :: "('v, 'c, 'g) client_state \<Rightarrow> bool" where
  "login_supported self \<longleftrightarrow>
     \<not> list_ex (\<lambda>c. case c of Cap_LoginDisabled \<Rightarrow> True | _ \<Rightarrow> False) (capabilities_iter self)"

definition ext_enable_supported :: "('v, 'c, 'g) client_state \<Rightarrow> bool" where
  "ext_enable_supported self \<longleftrightarrow>
     list_ex (\<lambda>c. case c of Cap_Enable \<Rightarrow> True | _ \<Rightarrow> False) (capabilities_iter self)"

definition ext_sasl_ir_supported :: "('v, 'c, 'g) client_state \<Rightarrow> bool" where
  "ext_sasl_ir_supported self \<longleftrightarrow>
     list_ex (\<lambda>c. case c of Cap_SaslIr \<Rightarrow> True | _ \<Rightarrow> False) (capabilities_iter self)"

definition ext_id_supported :: "('v, 'c, 'g) client_state \<Rightarrow> bool" where
  "ext_id_supported self \<longleftrightarrow>
     list_ex (\<lambda>c. case c of Cap_Id \<Rightarrow> True | _ \<Rightarrow> False) (capabilities_iter self)"

definition ext_uidplus_supported :: "('v, 'c, 'g) client_state \<Rightarrow> bool" where
  "ext_uidplus_supported self \<longleftrightarrow>
     list_ex (\<lambda>c. case c of Cap_UidPlus \<Rightarrow> True | _ \<Rightarrow> False) (capabilities_iter self)"

definition ext_sort_supported :: "('v, 'c, 'g) client_state \<Rightarrow> bool" where
  "ext_sort_supported self \<longleftrightarrow>
     list_ex (\<lambda>c. case c of Cap_Sort _ \<Rightarrow> True | _ \<Rightarrow> False) (capabilities_iter self)"

definition ext_thread_supported :: "('v, 'c, 'g) client_state \<Rightarrow> bool" where
  "ext_thread_supported self \<longleftrightarrow>
     list_ex (\<lambda>c. case c of Cap_Thread _ \<Rightarrow> True | _ \<Rightarrow> False) (capabilities_iter self)"

definition ext_idle_supported :: "('v, 'c, 'g) client_state \<Rightarrow> bool" where
  "ext_idle_supported self \<longleftrightarrow>
     list_ex (\<lambda>c. case c of Cap_Idle \<Rightarrow> True | _ \<Rightarrow> False) (capabilities_iter self)"

definition ext_binary_supported :: "('v, 'c, 'g) client_state \<Rightarrow> bool" where
  "ext_binary_supported self \<longleftrightarrow>
     list_ex (\<lambda>c. case c of Cap_Binary \<Rightarrow> True | _ \<Rightarrow> False) (capabilities_iter self)"

definition ext_move_supported :: "('v, 'c, 'g) client_state \<Rightarrow> bool" where
  "ext_move_supported self \<longleftrightarrow>
     list_ex (\<lambda>c. case c of Cap_Move \<Rightarrow> True | _ \<Rightarrow> False) (capabilities_iter self)"

definition ext_condstore_supported :: "('v, 'c, 'g) client_state \<Rightarrow> bool" where
  "ext_condstore_supported self \<longleftrightarrow>
     list_ex (\<lambda>c. case c of Cap_CondStore \<Rightarrow> True | _ \<Rightarrow> False) (capabilities_iter self)"

lemmas capability_test_defs =
  supports_auth_mechanism_def login_supported_def ext_enable_supported_def ext_sasl_ir_supported_def
  ext_id_supported_def ext_uidplus_supported_def ext_sort_supported_def ext_thread_supported_def
  ext_idle_supported_def ext_binary_supported_def ext_move_supported_def ext_condstore_supported_def

text \<open>A capability test that names one constructor asks for membership.\<close>

lemma list_ex_eq: "(\<And>c. P c \<longleftrightarrow> c = a) \<Longrightarrow> list_ex P cs \<longleftrightarrow> a \<in> set cs"
  by (induction cs) auto

lemma list_ex_image: "(\<And>c. P c \<longleftrightarrow> (\<exists>x. c = f x)) \<Longrightarrow> list_ex P cs \<longleftrightarrow> (\<exists>x. f x \<in> set cs)"
  by (auto simp: list_ex_iff)

lemma ext_supported_iff:
  "supports_auth_mechanism m self \<longleftrightarrow> Cap_Auth m \<in> set (cs_capabilities self)"
  "login_supported self \<longleftrightarrow> Cap_LoginDisabled \<notin> set (cs_capabilities self)"
  "ext_enable_supported self \<longleftrightarrow> Cap_Enable \<in> set (cs_capabilities self)"
  "ext_sasl_ir_supported self \<longleftrightarrow> Cap_SaslIr \<in> set (cs_capabilities self)"
  "ext_id_supported self \<longleftrightarrow> Cap_Id \<in> set (cs_capabilities self)"
  "ext_uidplus_supported self \<longleftrightarrow> Cap_UidPlus \<in> set (cs_capabilities self)"
  "ext_sort_supported self \<longleftrightarrow> (\<exists>a. Cap_Sort a \<in> set (cs_capabilities self))"
  "ext_thread_supported self \<longleftrightarrow> (\<exists>a. Cap_Thread a \<in> set (cs_capabilities self))"
  "ext_idle_supported self \<longleftrightarrow> Cap_Idle \<in> set (cs_capabilities self)"
  "ext_binary_supported self \<longleftrightarrow> Cap_Binary \<in> set (cs_capabilities self)"
  "ext_move_supported self \<longleftrightarrow> Cap_Move \<in> set (cs_capabilities self)"
  "ext_condstore_supported self \<longleftrightarrow> Cap_CondStore \<in> set (cs_capabilities self)"
  unfolding capability_test_defs
  by (subst list_ex_eq list_ex_image; auto split: capability.split)+

text \<open>Every capability test is about the capabilities last announced, and nothing else: an
  extension is supported when it is listed, LOGIN when LOGINDISABLED is not, an
  authentication mechanism when it is among the supported mechanisms, which are listed in the
  server's order.\<close>

theorem capability_tests:
  "(supports_auth_mechanism m self \<longleftrightarrow> m \<in> set (supported_auth_mechanisms self)) \<and>
   map Cap_Auth (supported_auth_mechanisms self) =
     filter (\<lambda>c. \<exists>m. c = Cap_Auth m) (cs_capabilities self) \<and>
   (login_supported self \<longleftrightarrow> Cap_LoginDisabled \<notin> set (cs_capabilities self)) \<and>
   (ext_sort_supported self \<longleftrightarrow> (\<exists>a. Cap_Sort a \<in> set (cs_capabilities self))) \<and>
   (ext_move_supported self \<longleftrightarrow> Cap_Move \<in> set (cs_capabilities self)) \<and>
   (ext_uidplus_supported self \<longleftrightarrow> Cap_UidPlus \<in> set (cs_capabilities self))"
proof -
  have "map Cap_Auth (List.map_filter (\<lambda>c. case c of Cap_Auth m \<Rightarrow> Some m | _ \<Rightarrow> None) cs) =
      filter (\<lambda>c. \<exists>m. c = Cap_Auth m) cs" for cs :: "'a capability list"
    by (induction cs) (auto simp: List.map_filter_simps split: capability.split)
  then have mechs: "map Cap_Auth (supported_auth_mechanisms self) =
      filter (\<lambda>c. \<exists>m. c = Cap_Auth m) (cs_capabilities self)"
    by (simp add: supported_auth_mechanisms_def)
  from arg_cong [OF this, of set] have "m \<in> set (supported_auth_mechanisms self) \<longleftrightarrow>
      Cap_Auth m \<in> set (cs_capabilities self)"
    by auto
  with mechs show ?thesis by (simp add: ext_supported_iff)
qed

end
