(* ===== verification/Stream_IO.thy ===== *)
theory Stream_IO
  imports Imap_Types
begin

text \<open>
  \<open>Stream\<close> (\<open>src/stream.rs\<close>): it drives a sans-I/O state machine over a socket until the machine
  has an event. The socket (\<open>tokio\<close>) and the machine (\<open>imap_next::State\<close>) are parameters.
\<close>

section \<open>Socket and state machine\<close>

text \<open>An \<open>io::Error\<close>, with the one \<open>ErrorKind\<close> the code asks for.\<close>

datatype 'v io_error = Io_WriteZero 'v | Io_Error_Other 'v

text \<open>
  What is called of a socket: \<open>read\<close> into a buffer of a given size (with the bytes it filled in),
  \<open>write_all\<close> and \<open>flush\<close>. A future that is never ready is \<open>Diverge\<close>.
\<close>

record ('s, 'v) socket =
  sk_read :: "nat \<Rightarrow> 's \<Rightarrow> (('v io_error + bytes) \<times> 's) run"
  sk_write_all :: "bytes \<Rightarrow> 's \<Rightarrow> (('v io_error + unit) \<times> 's) run"
  sk_flush :: "'s \<Rightarrow> (('v io_error + unit) \<times> 's) run"

record ('f, 'ev, 'e) machine =
  sm_next :: "'f \<Rightarrow> (('e interrupt + 'ev) \<times> 'f) run"
  sm_enqueue_input :: "bytes \<Rightarrow> 'f \<Rightarrow> 'f"

section \<open>The stream\<close>

record 's stream =
  stream_socket :: 's
  stream_buf :: bytes

datatype ('e, 'v) stream_error = Closed | Stream_Io "'v io_error" | Stream_State 'e

definition stream_new :: "'s \<Rightarrow> 's stream" where
  "stream_new s = \<lparr>stream_socket = s, stream_buf = replicate 1024 CHR 0x00\<rparr>"

definition stream_into_inner :: "'s stream \<Rightarrow> 's" where
  "stream_into_inner self = stream_socket self"

text \<open>The output bytes are written whole, then flushed.\<close>

definition stream_output ::
    "('s, 'v) socket \<Rightarrow> bytes \<Rightarrow> 's stream \<Rightarrow> ((('e, 'v) stream_error + unit) \<times> 's stream) run" where
  "stream_output K bytes self =
     (case sk_write_all K bytes (stream_socket self) of
        Ret (Inr _, s) \<Rightarrow>
          (case sk_flush K s of
             Ret (Inr _, s) \<Rightarrow> Ret (Inr (), self\<lparr>stream_socket := s\<rparr>)
           | Ret (Inl e, s) \<Rightarrow> Ret (Inl (Stream_Io e), self\<lparr>stream_socket := s\<rparr>)
           | Panic \<Rightarrow> Panic
           | Diverge \<Rightarrow> Diverge)
      | Ret (Inl e, s) \<Rightarrow>
          Ret (Inl (case e of Io_WriteZero _ \<Rightarrow> Closed | _ \<Rightarrow> Stream_Io e), self\<lparr>stream_socket := s\<rparr>)
      | Panic \<Rightarrow> Panic
      | Diverge \<Rightarrow> Diverge)"

text \<open>
  One read into the buffer. No bytes mean the stream is closed; slicing the buffer beyond its
  end would panic.
\<close>

definition stream_input ::
    "('s, 'v) socket \<Rightarrow> 's stream \<Rightarrow> ((('e, 'v) stream_error + bytes) \<times> 's stream) run" where
  "stream_input K self =
     (case sk_read K (length (stream_buf self)) (stream_socket self) of
        Ret (Inl e, s) \<Rightarrow> Ret (Inl (Stream_Io e), self\<lparr>stream_socket := s\<rparr>)
      | Ret (Inr got, s) \<Rightarrow>
          (let n = length got;
               buf = got @ drop n (stream_buf self)
           in if n = 0 then Ret (Inl Closed, self\<lparr>stream_socket := s\<rparr>)
              else if n > length (stream_buf self) then Panic
              else Ret (Inr (take n buf), self\<lparr>stream_socket := s, stream_buf := buf\<rparr>))
      | Panic \<Rightarrow> Panic
      | Diverge \<Rightarrow> Diverge)"

text \<open>The I/O of one turn: output when there is some, and a read in any case.\<close>

definition stream_io ::
    "('s, 'v) socket \<Rightarrow> io \<Rightarrow> 's stream \<Rightarrow> ((('e, 'v) stream_error + bytes) \<times> 's stream) run" where
  "stream_io K io self =
     (case io of
        Io_Output bytes \<Rightarrow>
          (case stream_output K bytes self of
             Ret (Inr _, self) \<Rightarrow> stream_input K self
           | Ret (Inl e, self) \<Rightarrow> Ret (Inl e, self)
           | Panic \<Rightarrow> Panic
           | Diverge \<Rightarrow> Diverge)
      | Io_NeedMoreInput \<Rightarrow> stream_input K self)"

definition stream_turn ::
    "('s, 'v) socket \<Rightarrow> ('f, 'ev, 'e) machine \<Rightarrow> 's stream \<times> 'f
       \<Rightarrow> ('s stream \<times> 'f, ('e, 'v) stream_error + 'ev) flow" where
  "stream_turn K M x =
     (case x of (self, state) \<Rightarrow>
        (case sm_next M state of
           Ret (Inr event, state) \<Rightarrow> Break (Inr event) (self, state)
         | Ret (Inl (Int_Error err), state) \<Rightarrow> Break (Inl (Stream_State err)) (self, state)
         | Ret (Inl (Int_Io io), state) \<Rightarrow>
             (case stream_io K io self of
                Ret (Inl e, self) \<Rightarrow> Break (Inl e) (self, state)
              | Ret (Inr bytes, self) \<Rightarrow> Continue (self, sm_enqueue_input M bytes state)
              | Panic \<Rightarrow> Panicking
              | Diverge \<Rightarrow> Diverging)
         | Panic \<Rightarrow> Panicking
         | Diverge \<Rightarrow> Diverging))"

definition stream_next ::
    "('s, 'v) socket \<Rightarrow> ('f, 'ev, 'e) machine \<Rightarrow> 's stream \<times> 'f
       \<Rightarrow> ((('e, 'v) stream_error + 'ev) \<times> 's stream \<times> 'f) run" where
  "stream_next K M = rust_loop (stream_turn K M)"

section \<open>What goes over the wire\<close>

text \<open>
  Two observers that change nothing: one writes down what a socket did, the other what a
  machine asked for and was given.
\<close>

datatype wire_event = Wrote bytes | Flushed | Got bytes

datatype machine_event = Emitted bytes | Fed bytes

definition watched_socket :: "('s, 'v) socket \<Rightarrow> ('s \<times> wire_event list, 'v) socket" where
  "watched_socket K =
     \<lparr>sk_read = (\<lambda>n (s, log). case sk_read K n s of
        Ret (r, s) \<Rightarrow> Ret (r, s, case r of Inr got \<Rightarrow> if got = [] then log else log @ [Got got] | Inl _ \<Rightarrow> log)
      | Panic \<Rightarrow> Panic | Diverge \<Rightarrow> Diverge),
      sk_write_all = (\<lambda>b (s, log). case sk_write_all K b s of
        Ret (r, s) \<Rightarrow> Ret (r, s, case r of Inr _ \<Rightarrow> log @ [Wrote b] | Inl _ \<Rightarrow> log)
      | Panic \<Rightarrow> Panic | Diverge \<Rightarrow> Diverge),
      sk_flush = (\<lambda>(s, log). case sk_flush K s of
        Ret (r, s) \<Rightarrow> Ret (r, s, case r of Inr _ \<Rightarrow> log @ [Flushed] | Inl _ \<Rightarrow> log)
      | Panic \<Rightarrow> Panic | Diverge \<Rightarrow> Diverge)\<rparr>"

definition watched_machine :: "('f, 'ev, 'e) machine \<Rightarrow> ('f \<times> machine_event list, 'ev, 'e) machine" where
  "watched_machine M =
     \<lparr>sm_next = (\<lambda>(f, log). case sm_next M f of
        Ret (r, f) \<Rightarrow> Ret (r, f, case r of Inl (Int_Io (Io_Output b)) \<Rightarrow> log @ [Emitted b] | _ \<Rightarrow> log)
      | Panic \<Rightarrow> Panic | Diverge \<Rightarrow> Diverge),
      sm_enqueue_input = (\<lambda>b (f, log). (sm_enqueue_input M b f, log @ [Fed b]))\<rparr>"

text \<open>What a faithful transport does for the machine.\<close>

fun transported :: "machine_event \<Rightarrow> wire_event list" where
  "transported (Emitted b) = [Wrote b, Flushed]"
| "transported (Fed b) = [Got b]"

definition transport :: "machine_event list \<Rightarrow> wire_event list" where
  "transport log = concat (map transported log)"

lemma transport_simps [simp]:
  "transport [] = []" "transport (log @ [e]) = transport log @ transported e"
  by (simp_all add: transport_def)

definition wire_of :: "('s \<times> wire_event list) stream \<Rightarrow> wire_event list" where
  "wire_of self = snd (stream_socket self)"

lemma wire_of_update [simp]:
  "wire_of (self\<lparr>stream_socket := s\<rparr>) = snd s" "wire_of (self\<lparr>stream_buf := b\<rparr>) = wire_of self"
  by (simp_all add: wire_of_def)

lemma stream_input_wire:
  "stream_input (watched_socket K) self = Ret (r, self') \<Longrightarrow>
     wire_of self' = wire_of self @ (case r of Inr got \<Rightarrow> [Got got] | Inl _ \<Rightarrow> [])"
  by (cases "stream_socket self")
    (auto simp: stream_input_def watched_socket_def Let_def wire_of_def
      split: run.splits sum.splits if_splits)

lemma stream_output_wire:
  "stream_output (watched_socket K) b self = Ret (r, self') \<Longrightarrow>
     (r = Inr () \<longrightarrow> wire_of self' = wire_of self @ [Wrote b, Flushed]) \<and>
     (\<forall>e. r = Inl e \<longrightarrow> wire_of self' = wire_of self \<or> wire_of self' = wire_of self @ [Wrote b])"
  by (cases "stream_socket self")
    (auto simp: stream_output_def watched_socket_def wire_of_def split: run.splits sum.splits)

text \<open>The bytes an I/O turn owes the machine.\<close>

definition io_event :: "io \<Rightarrow> machine_event list" where
  "io_event io = (case io of Io_Output b \<Rightarrow> [Emitted b] | Io_NeedMoreInput \<Rightarrow> [])"

text \<open>What a failed turn may leave behind: at most the output that was emitted last, or its flush.\<close>

definition left_behind :: "machine_event list \<Rightarrow> wire_event list \<Rightarrow> bool" where
  "left_behind log owed \<longleftrightarrow>
     owed = [] \<or> (\<exists>before b. log = before @ [Emitted b] \<and> owed \<in> {[Flushed], [Wrote b, Flushed]})"

lemma stream_io_wire:
  assumes "stream_io (watched_socket K) io self = Ret (r, self')"
  shows "r = Inr got \<Longrightarrow> wire_of self' = wire_of self @ transport (io_event io) @ [Got got]"
    and "r = Inl e \<Longrightarrow> \<exists>owed. wire_of self @ transport (io_event io) = wire_of self' @ owed \<and>
      left_behind (log @ io_event io) owed"
  using assms
  by (auto simp: stream_io_def io_event_def transport_def left_behind_def
      dest!: stream_input_wire stream_output_wire split: io.splits run.splits sum.splits)

end
