(* ===== verification/Client_Core.thy ===== *)
theory Client_Core
  imports Client_State Stream_IO
begin

text \<open>
  The asynchronous client (\<open>src/client/tokio.rs\<close>), its state, errors and the two ways it drives
  the stream: waiting for the greeting, and resolving a task. Also the shape of its methods:
  every \<open>?\<close> is an \<open>op_bind\<close>.
\<close>

section \<open>State and errors\<close>

datatype 'v client_error =
    ClientAlreadyTlsError
  | DoStarttlsPrefixError "'v io_error"
  | Client_Stream "('v scheduler_error, 'v) stream_error"
  | Validation 'v
  | ConnectToTcpStreamError "'v io_error"
  | ConnectToTlsStreamError "'v io_error"
  | TlsConfig 'v
  | ReceiveGreeting "('v scheduler_error, 'v) stream_error"
  | ResolveTask "'v task_error"
  | EmptyCert string
  | InvalidCert 'v string

record ('v, 'c, 'g, 's) client =
  cl_host :: string
  cl_state :: "('v, 'c, 'g) client_state"
  cl_stream :: "'s stream"

text \<open>The third-party code a client runs on: imap-next, imap-types and the socket.\<close>

record ('v, 'c, 'g, 's) env =
  env_next :: "('v, 'c, 'g) next_client"
  env_lib :: "'v lib"
  env_socket :: "('s, 'v) socket"

text \<open>A method of the client.\<close>

type_synonym ('v, 'c, 'g, 's, 'a) op =
  "('v, 'c, 'g, 's) client \<Rightarrow> (('v client_error + 'a) \<times> ('v, 'c, 'g, 's) client) run"

definition op_return :: "'a \<Rightarrow> ('v, 'c, 'g, 's, 'a) op" where
  "op_return a self = Ret (Inr a, self)"

definition op_throw :: "'v client_error \<Rightarrow> ('v, 'c, 'g, 's, 'a) op" where
  "op_throw e self = Ret (Inl e, self)"

definition op_bind ::
    "('v, 'c, 'g, 's, 'a) op \<Rightarrow> ('a \<Rightarrow> ('v, 'c, 'g, 's, 'b) op) \<Rightarrow> ('v, 'c, 'g, 's, 'b) op" where
  "op_bind m f self =
     (case m self of
        Ret (Inr a, self) \<Rightarrow> f a self
      | Ret (Inl e, self) \<Rightarrow> Ret (Inl e, self)
      | Panic \<Rightarrow> Panic
      | Diverge \<Rightarrow> Diverge)"

text \<open>A conversion that may fail with a \<open>ValidationError\<close>.\<close>

definition op_try :: "'v + 'a \<Rightarrow> ('v, 'c, 'g, 's, 'a) op" where
  "op_try r = (case r of Inl e \<Rightarrow> op_throw (Validation e) | Inr a \<Rightarrow> op_return a)"

definition op_state :: "(('v, 'c, 'g) client_state \<Rightarrow> ('v, 'c, 'g, 's, 'a) op) \<Rightarrow> ('v, 'c, 'g, 's, 'a) op" where
  "op_state f self = f (cl_state self) self"

definition op_modify :: "(('v, 'c, 'g) client_state \<Rightarrow> ('v, 'c, 'g) client_state) \<Rightarrow> ('v, 'c, 'g, 's, unit) op" where
  "op_modify f self = Ret (Inr (), self\<lparr>cl_state := f (cl_state self)\<rparr>)"

named_theorems op_simps \<open>evaluation of the client's methods\<close>

lemmas op_defs = op_return_def op_throw_def op_bind_def op_try_def op_state_def op_modify_def

lemma op_bind_return [simp]: "op_bind (op_return a) f = f a"
  by (rule ext) (simp add: op_bind_def op_return_def)

lemma op_bind_throw [simp]: "op_bind (op_throw e) f = op_throw e"
  by (rule ext) (simp add: op_bind_def op_throw_def)

lemma op_bind_assoc: "op_bind (op_bind m f) g = op_bind m (\<lambda>a. op_bind (f a) g)"
  by (rule ext) (auto simp: op_bind_def split: run.splits sum.splits prod.splits)

section \<open>Driving the stream\<close>

text \<open>The three state machines a client hands to its stream.\<close>

definition resolver_machine ::
    "('v, 'c, 'g) next_client \<Rightarrow> 'v lib
       \<Rightarrow> (('v, 'c, 'g) resolver, 'v scheduler_event, 'v scheduler_error) machine" where
  "resolver_machine N L =
     \<lparr>sm_next = resolver_next N L, sm_enqueue_input = resolver_enqueue_input N\<rparr>"

definition resolving_machine ::
    "('v, 'c, 'g) next_client \<Rightarrow> 'v lib \<Rightarrow> task_handle
       \<Rightarrow> (('v, 'c, 'g) resolver, 'v any_output, 'v scheduler_error) machine" where
  "resolving_machine N L handle =
     \<lparr>sm_next = resolving_next N L handle, sm_enqueue_input = resolving_enqueue_input N handle\<rparr>"

definition next_machine :: "('v, 'c, 'g) next_client \<Rightarrow> ('c, 'v event, 'v next_error) machine" where
  "next_machine N = \<lparr>sm_next = (\<lambda>c. Ret (nc_next N c)), sm_enqueue_input = nc_enqueue_input N\<rparr>"

definition cl_put ::
    "'s stream \<Rightarrow> ('v, 'c, 'g) resolver \<Rightarrow> ('v, 'c, 'g, 's) client \<Rightarrow> ('v, 'c, 'g, 's) client" where
  "cl_put stream resolver self =
     self\<lparr>cl_stream := stream, cl_state := (cl_state self)\<lparr>cs_resolver := resolver\<rparr>\<rparr>"

text \<open>\<open>Client::resolve\<close>: enqueue the task and drive the stream until it is resolved.\<close>

definition client_resolve :: "('v, 'c, 'g, 's) env \<Rightarrow> 'v task \<Rightarrow> ('v, 'c, 'g, 's, 'v any_output) op" where
  "client_resolve E task self =
     (case resolver_resolve (env_next E) (env_lib E) task (cs_resolver (cl_state self)) of
        Ret (handle, resolver) \<Rightarrow>
          (case stream_next (env_socket E) (resolving_machine (env_next E) (env_lib E) handle)
                  (cl_stream self, resolver) of
             Ret (r, stream, resolver) \<Rightarrow>
               Ret (case r of Inl e \<Rightarrow> Inl (Client_Stream e) | Inr out \<Rightarrow> Inr out,
                    cl_put stream resolver self)
           | Panic \<Rightarrow> Panic
           | Diverge \<Rightarrow> Diverge)
      | Panic \<Rightarrow> Panic
      | Diverge \<Rightarrow> Diverge)"

text \<open>
  \<open>self.resolve(task).await??\<close> at a task whose output type is known: \<open>out\<close> is the projection
  from the boxed output, which never fails for a task of that type.
\<close>

definition client_task ::
    "('v, 'c, 'g, 's) env \<Rightarrow> ('v any_output \<Rightarrow> ('v task_error + 'a) option) \<Rightarrow> 'v task
       \<Rightarrow> ('v, 'c, 'g, 's, 'a) op" where
  "client_task E out task =
     op_bind (client_resolve E task) (\<lambda>output self.
       case out output of
         Some (Inr a) \<Rightarrow> Ret (Inr a, self)
       | Some (Inl e) \<Rightarrow> Ret (Inl (ResolveTask e), self)
       | None \<Rightarrow> Panic)"

definition as_seq :: "'v any_output \<Rightarrow> ('v task_error + u32 option) option" where
  "as_seq out = (case out of Out_Seq r \<Rightarrow> Some r | _ \<Rightarrow> None)"

definition as_uid_pair :: "'v any_output \<Rightarrow> ('v task_error + (nz_u32 \<times> nz_u32) option) option" where
  "as_uid_pair out = (case out of Out_UidPair r \<Rightarrow> Some r | _ \<Rightarrow> None)"

definition as_capabilities_opt :: "'v any_output \<Rightarrow> ('v task_error + 'v capability list option) option" where
  "as_capabilities_opt out = (case out of Out_CapabilitiesOpt r \<Rightarrow> Some r | _ \<Rightarrow> None)"

definition as_capabilities :: "'v any_output \<Rightarrow> ('v task_error + 'v capability list) option" where
  "as_capabilities out = (case out of Out_Capabilities r \<Rightarrow> Some r | _ \<Rightarrow> None)"

definition as_unit :: "'v any_output \<Rightarrow> ('v task_error + unit) option" where
  "as_unit out = (case out of Out_Unit r \<Rightarrow> Some r | _ \<Rightarrow> None)"

definition as_enabled :: "'v any_output \<Rightarrow> ('v task_error + 'v capability_enable list option) option" where
  "as_enabled out = (case out of Out_Enabled r \<Rightarrow> Some r | _ \<Rightarrow> None)"

definition as_ids :: "'v any_output \<Rightarrow> ('v task_error + nz_u32 list) option" where
  "as_ids out = (case out of Out_Ids r \<Rightarrow> Some r | _ \<Rightarrow> None)"

definition as_item_map :: "'v any_output \<Rightarrow> ('v task_error + (nz_u32, 'v item list) hash_map) option" where
  "as_item_map out = (case out of Out_ItemMap r \<Rightarrow> Some r | _ \<Rightarrow> None)"

definition as_items :: "'v any_output \<Rightarrow> ('v task_error + 'v item list) option" where
  "as_items out = (case out of Out_Items r \<Rightarrow> Some r | _ \<Rightarrow> None)"

definition as_parameters :: "'v any_output \<Rightarrow> ('v task_error + ('v \<times> 'v) list option) option" where
  "as_parameters out = (case out of Out_Parameters r \<Rightarrow> Some r | _ \<Rightarrow> None)"

definition as_mailboxes :: "'v any_output \<Rightarrow> ('v task_error + ('v \<times> 'v option \<times> 'v list) list) option" where
  "as_mailboxes out = (case out of Out_Mailboxes r \<Rightarrow> Some r | _ \<Rightarrow> None)"

definition as_selected :: "'v any_output \<Rightarrow> ('v task_error + 'v select_data) option" where
  "as_selected out = (case out of Out_Selected r \<Rightarrow> Some r | _ \<Rightarrow> None)"

definition as_threads :: "'v any_output \<Rightarrow> ('v task_error + 'v list) option" where
  "as_threads out = (case out of Out_Threads r \<Rightarrow> Some r | _ \<Rightarrow> None)"

lemmas as_defs [op_simps] =
  as_seq_def as_uid_pair_def as_capabilities_opt_def as_capabilities_def as_unit_def as_enabled_def
  as_ids_def as_item_map_def as_items_def as_parameters_def as_mailboxes_def as_selected_def
  as_threads_def

section \<open>The greeting\<close>

text \<open>\<open>receive_greeting\<close> answers whether the greeting carried the capabilities.\<close>

definition receive_greeting :: "('v, 'c, 'g, 's) env \<Rightarrow> ('v, 'c, 'g, 's, bool) op" where
  "receive_greeting E self =
     (case stream_next (env_socket E) (resolver_machine (env_next E) (env_lib E))
             (cl_stream self, cs_resolver (cl_state self)) of
        Ret (r, stream, resolver) \<Rightarrow>
          (let self = cl_put stream resolver self
           in case r of
                Inl e \<Rightarrow> Ret (Inl (ReceiveGreeting e), self)
              | Inr (Ev_GreetingReceived greeting) \<Rightarrow>
                  (case gr_code greeting of
                     Some (Code_Capability capabilities) \<Rightarrow>
                       Ret (Inr True,
                         self\<lparr>cl_state := (cl_state self)\<lparr>cs_capabilities := capabilities\<rparr>\<rparr>)
                   | _ \<Rightarrow> Ret (Inr False, self))
              | Inr _ \<Rightarrow> Ret (Inr False, self))
      | Panic \<Rightarrow> Panic
      | Diverge \<Rightarrow> Diverge)"

end
