(* ===== verification/Client_Ops.thy ===== *)
theory Client_Ops
  imports Client_Core
begin

text \<open>
  The low-level and medium-level API of the client (\<open>src/client/tokio.rs\<close>): one method per
  command, and the methods that keep the capabilities up to date. A \<open>TryInto\<close> argument is the
  result of its conversion.
\<close>

section \<open>Low-level API\<close>

definition client_enable ::
    "('v, 'c, 'g, 's) env \<Rightarrow> 'v capability_enable list
       \<Rightarrow> ('v, 'c, 'g, 's, 'v capability_enable list option) op" where
  "client_enable E capabilities =
     op_state (\<lambda>state.
       if \<not> ext_enable_supported state then op_return None
       else if capabilities = [] then op_return None
       else client_task E as_enabled (T_Enable (enable_task_new capabilities)))"

definition enable_condstore_if_supported :: "('v, 'c, 'g, 's) env \<Rightarrow> ('v, 'c, 'g, 's, bool) op" where
  "enable_condstore_if_supported E =
     op_state (\<lambda>state.
       if \<not> ext_condstore_supported state \<or> \<not> ext_enable_supported state then op_return False
       else
         op_bind (client_enable E [CapEnable_CondStore]) (\<lambda>capabilities.
         let enabled = (case capabilities of
                          Some capabilities \<Rightarrow> CapEnable_CondStore \<in> set capabilities
                        | None \<Rightarrow> False)
         in op_bind (op_modify (\<lambda>state. state\<lparr>cs_condstore_enabled := enabled\<rparr>)) (\<lambda>_.
            op_return enabled)))"

definition client_create :: "('v, 'c, 'g, 's) env \<Rightarrow> 'v + 'v \<Rightarrow> ('v, 'c, 'g, 's, unit) op" where
  "client_create E mailbox =
     op_bind (op_try mailbox) (\<lambda>mbox. client_task E as_unit (T_Create (create_task_new mbox)))"

definition client_list ::
    "('v, 'c, 'g, 's) env \<Rightarrow> 'v + 'v \<Rightarrow> 'v + 'v
       \<Rightarrow> ('v, 'c, 'g, 's, ('v \<times> 'v option \<times> 'v list) list) op" where
  "client_list E mailbox mailbox_wildcard =
     op_bind (op_try mailbox) (\<lambda>mbox.
     op_bind (op_try mailbox_wildcard) (\<lambda>mbox_wcard.
     client_task E as_mailboxes (T_List (list_task_new mbox mbox_wcard))))"

definition client_select :: "('v, 'c, 'g, 's) env \<Rightarrow> 'v + 'v \<Rightarrow> ('v, 'c, 'g, 's, 'v select_data) op" where
  "client_select E mailbox =
     op_bind (op_try mailbox) (\<lambda>mbox.
     op_state (\<lambda>state.
     client_task E as_selected
       (T_Select (select_task_with_condstore (cs_condstore_enabled state) (select_task_new mbox)))))"

definition client_examine :: "('v, 'c, 'g, 's) env \<Rightarrow> 'v + 'v \<Rightarrow> ('v, 'c, 'g, 's, 'v select_data) op" where
  "client_examine E mailbox =
     op_bind (op_try mailbox) (\<lambda>mbox.
     op_state (\<lambda>state.
     client_task E as_selected
       (T_Select (select_task_with_condstore (cs_condstore_enabled state) (select_task_read_only mbox)))))"

definition client_expunge :: "('v, 'c, 'g, 's) env \<Rightarrow> ('v, 'c, 'g, 's, nz_u32 list) op" where
  "client_expunge E = client_task E as_ids (T_Expunge expunge_task_new)"

definition client_delete :: "('v, 'c, 'g, 's) env \<Rightarrow> 'v + 'v \<Rightarrow> ('v, 'c, 'g, 's, unit) op" where
  "client_delete E mailbox =
     op_bind (op_try mailbox) (\<lambda>mbox. client_task E as_unit (T_Delete (delete_task_new mbox)))"

definition client_do_search ::
    "('v, 'c, 'g, 's) env \<Rightarrow> 'v search_key list \<Rightarrow> bool \<Rightarrow> ('v, 'c, 'g, 's, nz_u32 list) op" where
  "client_do_search E criteria uid =
     (let criteria = (if criteria = [] then [Key_All] else criteria)
      in client_task E as_ids (T_Search (search_task_with_uid uid (search_task_new criteria))))"

definition client_search ::
    "('v, 'c, 'g, 's) env \<Rightarrow> 'v search_key list \<Rightarrow> ('v, 'c, 'g, 's, nz_u32 list) op" where
  "client_search E criteria = client_do_search E criteria False"

definition client_uid_search ::
    "('v, 'c, 'g, 's) env \<Rightarrow> 'v search_key list \<Rightarrow> ('v, 'c, 'g, 's, nz_u32 list) op" where
  "client_uid_search E criteria = client_do_search E criteria True"

definition client_do_sort ::
    "('v, 'c, 'g, 's) env \<Rightarrow> sort_criterion list \<Rightarrow> 'v search_key list \<Rightarrow> bool
       \<Rightarrow> ('v, 'c, 'g, 's, nz_u32 list) op" where
  "client_do_sort E criteria keys uid =
     (let sort = (if criteria = [] then [\<lparr>sc_reverse = True, sc_key = Sort_Date\<rparr>] else criteria);
          search = (if keys = [] then [Key_All] else keys)
      in client_task E as_ids (T_Sort (sort_task_with_uid uid (sort_task_new (env_lib E) sort search))))"

definition client_sort ::
    "('v, 'c, 'g, 's) env \<Rightarrow> sort_criterion list \<Rightarrow> 'v search_key list
       \<Rightarrow> ('v, 'c, 'g, 's, nz_u32 list) op" where
  "client_sort E criteria keys = client_do_sort E criteria keys False"

definition client_uid_sort ::
    "('v, 'c, 'g, 's) env \<Rightarrow> sort_criterion list \<Rightarrow> 'v search_key list
       \<Rightarrow> ('v, 'c, 'g, 's, nz_u32 list) op" where
  "client_uid_sort E criteria keys = client_do_sort E criteria keys True"

definition client_do_thread ::
    "('v, 'c, 'g, 's) env \<Rightarrow> 'v \<Rightarrow> 'v search_key list \<Rightarrow> bool \<Rightarrow> ('v, 'c, 'g, 's, 'v list) op" where
  "client_do_thread E algorithm keys uid =
     (let search = (if keys = [] then [Key_All] else keys)
      in client_task E as_threads
           (T_Thread (thread_task_with_uid uid (thread_task_new (env_lib E) algorithm search))))"

definition client_thread ::
    "('v, 'c, 'g, 's) env \<Rightarrow> 'v \<Rightarrow> 'v search_key list \<Rightarrow> ('v, 'c, 'g, 's, 'v list) op" where
  "client_thread E algorithm keys = client_do_thread E algorithm keys False"

definition client_uid_thread ::
    "('v, 'c, 'g, 's) env \<Rightarrow> 'v \<Rightarrow> 'v search_key list \<Rightarrow> ('v, 'c, 'g, 's, 'v list) op" where
  "client_uid_thread E algorithm keys = client_do_thread E algorithm keys True"

definition client_do_store ::
    "('v, 'c, 'g, 's) env \<Rightarrow> 'v \<Rightarrow> 'v store_type \<Rightarrow> 'v flag list \<Rightarrow> bool
       \<Rightarrow> ('v, 'c, 'g, 's, (nz_u32, 'v item list) hash_map) op" where
  "client_do_store E sequence_set kind flags uid =
     client_task E as_item_map
       (T_Store (store_task_with_uid uid (store_task_new sequence_set kind flags)))"

definition client_store ::
    "('v, 'c, 'g, 's) env \<Rightarrow> 'v \<Rightarrow> 'v store_type \<Rightarrow> 'v flag list
       \<Rightarrow> ('v, 'c, 'g, 's, (nz_u32, 'v item list) hash_map) op" where
  "client_store E sequence_set kind flags = client_do_store E sequence_set kind flags False"

definition client_uid_store ::
    "('v, 'c, 'g, 's) env \<Rightarrow> 'v \<Rightarrow> 'v store_type \<Rightarrow> 'v flag list
       \<Rightarrow> ('v, 'c, 'g, 's, (nz_u32, 'v item list) hash_map) op" where
  "client_uid_store E sequence_set kind flags = client_do_store E sequence_set kind flags True"

definition client_do_silent_store ::
    "('v, 'c, 'g, 's) env \<Rightarrow> 'v \<Rightarrow> 'v store_type \<Rightarrow> 'v flag list \<Rightarrow> bool \<Rightarrow> ('v, 'c, 'g, 's, unit) op" where
  "client_do_silent_store E sequence_set kind flags uid =
     client_task E as_unit
       (T_SilentStore (store_task_silent (store_task_with_uid uid (store_task_new sequence_set kind flags))))"

definition client_silent_store ::
    "('v, 'c, 'g, 's) env \<Rightarrow> 'v \<Rightarrow> 'v store_type \<Rightarrow> 'v flag list \<Rightarrow> ('v, 'c, 'g, 's, unit) op" where
  "client_silent_store E sequence_set kind flags = client_do_silent_store E sequence_set kind flags False"

definition client_uid_silent_store ::
    "('v, 'c, 'g, 's) env \<Rightarrow> 'v \<Rightarrow> 'v store_type \<Rightarrow> 'v flag list \<Rightarrow> ('v, 'c, 'g, 's, unit) op" where
  "client_uid_silent_store E sequence_set kind flags = client_do_silent_store E sequence_set kind flags True"

definition post_append_noop :: "('v, 'c, 'g, 's) env \<Rightarrow> ('v, 'c, 'g, 's, u32 option) op" where
  "post_append_noop E = client_task E as_seq (T_PostAppendNoOp post_append_noop_task_new)"

definition post_append_check :: "('v, 'c, 'g, 's) env \<Rightarrow> ('v, 'c, 'g, 's, u32 option) op" where
  "post_append_check E = client_task E as_seq (T_PostAppendCheck post_append_check_task_new)"

definition client_do_fetch_first ::
    "('v, 'c, 'g, 's) env \<Rightarrow> nz_u32 \<Rightarrow> 'v macro_or_names \<Rightarrow> bool \<Rightarrow> ('v, 'c, 'g, 's, 'v item list) op" where
  "client_do_fetch_first E msg_id items uid =
     client_task E as_items
       (T_FetchFirst (fetch_first_task_with_uid uid (fetch_first_task_new msg_id items)))"

definition client_fetch_first ::
    "('v, 'c, 'g, 's) env \<Rightarrow> nz_u32 \<Rightarrow> 'v macro_or_names \<Rightarrow> ('v, 'c, 'g, 's, 'v item list) op" where
  "client_fetch_first E msg_id items = client_do_fetch_first E msg_id items False"

definition client_uid_fetch_first ::
    "('v, 'c, 'g, 's) env \<Rightarrow> nz_u32 \<Rightarrow> 'v macro_or_names \<Rightarrow> ('v, 'c, 'g, 's, 'v item list) op" where
  "client_uid_fetch_first E msg_id items = client_do_fetch_first E msg_id items True"

definition client_do_copy ::
    "('v, 'c, 'g, 's) env \<Rightarrow> 'v \<Rightarrow> 'v + 'v \<Rightarrow> bool \<Rightarrow> ('v, 'c, 'g, 's, unit) op" where
  "client_do_copy E sequence_set mailbox uid =
     op_bind (op_try mailbox) (\<lambda>mbox.
     client_task E as_unit (T_Copy (copy_task_with_uid uid (copy_task_new sequence_set mbox))))"

definition client_copy :: "('v, 'c, 'g, 's) env \<Rightarrow> 'v \<Rightarrow> 'v + 'v \<Rightarrow> ('v, 'c, 'g, 's, unit) op" where
  "client_copy E sequence_set mailbox = client_do_copy E sequence_set mailbox False"

definition client_uid_copy :: "('v, 'c, 'g, 's) env \<Rightarrow> 'v \<Rightarrow> 'v + 'v \<Rightarrow> ('v, 'c, 'g, 's, unit) op" where
  "client_uid_copy E sequence_set mailbox = client_do_copy E sequence_set mailbox True"

definition client_do_move ::
    "('v, 'c, 'g, 's) env \<Rightarrow> 'v \<Rightarrow> 'v + 'v \<Rightarrow> bool \<Rightarrow> ('v, 'c, 'g, 's, unit) op" where
  "client_do_move E sequence_set mailbox uid =
     op_bind (op_try mailbox) (\<lambda>mbox.
     client_task E as_unit (T_Move (move_task_with_uid uid (move_task_new sequence_set mbox))))"

definition client_move :: "('v, 'c, 'g, 's) env \<Rightarrow> 'v \<Rightarrow> 'v + 'v \<Rightarrow> ('v, 'c, 'g, 's, unit) op" where
  "client_move E sequence_set mailbox = client_do_move E sequence_set mailbox False"

definition client_uid_move :: "('v, 'c, 'g, 's) env \<Rightarrow> 'v \<Rightarrow> 'v + 'v \<Rightarrow> ('v, 'c, 'g, 's, unit) op" where
  "client_uid_move E sequence_set mailbox = client_do_move E sequence_set mailbox True"

definition client_check :: "('v, 'c, 'g, 's) env \<Rightarrow> ('v, 'c, 'g, 's, unit) op" where
  "client_check E = client_task E as_unit T_Check"

definition client_noop :: "('v, 'c, 'g, 's) env \<Rightarrow> ('v, 'c, 'g, 's, unit) op" where
  "client_noop E = client_task E as_unit T_NoOp"

section \<open>Medium-level API\<close>

definition set_capabilities :: "'v capability list \<Rightarrow> ('v, 'c, 'g, 's, unit) op" where
  "set_capabilities capabilities = op_modify (\<lambda>state. state\<lparr>cs_capabilities := capabilities\<rparr>)"

definition refresh_capabilities :: "('v, 'c, 'g, 's) env \<Rightarrow> ('v, 'c, 'g, 's, unit) op" where
  "refresh_capabilities E =
     op_bind (client_task E as_capabilities (T_Capability capability_task_new)) set_capabilities"

definition client_login ::
    "('v, 'c, 'g, 's) env \<Rightarrow> 'v + 'v \<Rightarrow> 'v + 'v \<Rightarrow> ('v, 'c, 'g, 's, unit) op" where
  "client_login E username password =
     op_bind (op_try username) (\<lambda>username.
     op_bind (op_try password) (\<lambda>password.
     op_bind (client_task E as_capabilities_opt (T_Login (login_task_new username password)))
       (\<lambda>output. case output of
          Some capabilities \<Rightarrow> set_capabilities capabilities
        | None \<Rightarrow> refresh_capabilities E)))"

definition client_authenticate ::
    "('v, 'c, 'g, 's) env \<Rightarrow> 'v authenticate_task \<Rightarrow> ('v, 'c, 'g, 's, unit) op" where
  "client_authenticate E task =
     op_bind (client_task E as_capabilities_opt (T_Authenticate task))
       (\<lambda>output. case output of
          Some capabilities \<Rightarrow> set_capabilities capabilities
        | None \<Rightarrow> refresh_capabilities E)"

definition client_authenticate_plain ::
    "('v, 'c, 'g, 's) env \<Rightarrow> bytes \<Rightarrow> bytes \<Rightarrow> ('v, 'c, 'g, 's, unit) op" where
  "client_authenticate_plain E login password =
     op_state (\<lambda>state.
     client_authenticate E (authenticate_task_plain login password (ext_sasl_ir_supported state)))"

definition client_authenticate_xoauth2 ::
    "('v, 'c, 'g, 's) env \<Rightarrow> bytes \<Rightarrow> bytes \<Rightarrow> ('v, 'c, 'g, 's, unit) op" where
  "client_authenticate_xoauth2 E login token =
     op_state (\<lambda>state.
     client_authenticate E (authenticate_task_xoauth2 login token (ext_sasl_ir_supported state)))"

definition client_authenticate_oauthbearer ::
    "('v, 'c, 'g, 's) env \<Rightarrow> bytes \<Rightarrow> bytes \<Rightarrow> u16 \<Rightarrow> bytes \<Rightarrow> ('v, 'c, 'g, 's, unit) op" where
  "client_authenticate_oauthbearer E user host port token =
     op_state (\<lambda>state.
     client_authenticate E
       (authenticate_task_oauthbearer user host port token (ext_sasl_ir_supported state)))"

definition client_id ::
    "('v, 'c, 'g, 's) env \<Rightarrow> ('v \<times> 'v) list option \<Rightarrow> ('v, 'c, 'g, 's, ('v \<times> 'v) list option) op" where
  "client_id E params =
     op_state (\<lambda>state.
       if ext_id_supported state then client_task E as_parameters (T_Id (id_task_new params))
       else op_return None)"

text \<open>A message becomes a \<open>literal8\<close> when BINARY is supported, and has to be a valid literal otherwise.\<close>

definition to_static_literal :: "'v lib \<Rightarrow> bytes \<Rightarrow> bool \<Rightarrow> 'v + literal_or_literal8" where
  "to_static_literal L message binary_supported =
     (if binary_supported then Inr (Lit_Literal8 message Mode_Sync)
      else (case literal_validate L message of
              Inl e \<Rightarrow> Inl e
            | Inr _ \<Rightarrow> Inr (Lit_Literal message)))"

definition client_append ::
    "('v, 'c, 'g, 's) env \<Rightarrow> 'v + 'v \<Rightarrow> 'v flag list \<Rightarrow> bytes \<Rightarrow> ('v, 'c, 'g, 's, u32 option) op" where
  "client_append E mailbox flags message =
     op_bind (op_try mailbox) (\<lambda>mbox.
     op_state (\<lambda>state.
     op_bind (op_try (to_static_literal (env_lib E) message (ext_binary_supported state))) (\<lambda>msg.
     client_task E as_seq (T_Append (append_task_with_flags flags (append_task_new mbox msg))))))"

definition client_appenduid ::
    "('v, 'c, 'g, 's) env \<Rightarrow> 'v + 'v \<Rightarrow> 'v flag list \<Rightarrow> bytes
       \<Rightarrow> ('v, 'c, 'g, 's, (nz_u32 \<times> nz_u32) option) op" where
  "client_appenduid E mailbox flags message =
     op_bind (op_try mailbox) (\<lambda>mbox.
     op_state (\<lambda>state.
     op_bind (op_try (to_static_literal (env_lib E) message (ext_binary_supported state))) (\<lambda>msg.
     client_task E as_uid_pair
       (T_AppendUid (appenduid_task_with_flags flags (appenduid_task_new mbox msg))))))"

text \<open>A plain-TCP client, once connected: the capabilities are requested unless the greeting had them.\<close>

definition insecure_connected :: "('v, 'c, 'g, 's) env \<Rightarrow> ('v, 'c, 'g, 's, unit) op" where
  "insecure_connected E =
     op_bind (receive_greeting E) (\<lambda>found.
     if \<not> found then refresh_capabilities E else op_return ())"

end
