(* ===== verification/Fetch_Order.thy ===== *)
theory Fetch_Order
  imports Imap_Types "HOL-Library.Sorting_Algorithms" "HOL-Library.List_Lexorder"
    "HOL-Library.Option_ord"
begin

text \<open>
  The client-side order of fetched messages (\<open>cmp_fetch_items\<close> and the closure of \<open>sort_by\<close> in
  \<open>src/client/tokio.rs\<close>). \<open>Vec::sort_by\<close> is a stable sort as long as it is given a total
  preorder; this theory proves that it is.
\<close>

section \<open>Comparing the items of two messages\<close>

definition cmp_ord :: "'a::linorder \<Rightarrow> 'a \<Rightarrow> comp" where
  "cmp_ord a b = (if a < b then Less else if a = b then Equiv else Greater)"

definition comp_reverse :: "comp \<Rightarrow> comp" where
  "comp_reverse c = (case c of Less \<Rightarrow> Greater | Equiv \<Rightarrow> Equiv | Greater \<Rightarrow> Less)"

text \<open>What each criterion looks at: the first item that has it, bytes compared as numbers.\<close>

definition arrival_of :: "'v lib \<Rightarrow> 'v item list \<Rightarrow> int option" where
  "arrival_of L = find_map (\<lambda>i. case i of Item_InternalDate dt \<Rightarrow> Some (instant L dt) | _ \<Rightarrow> None)"

definition octets :: "bytes \<Rightarrow> nat list" where
  "octets = map of_char"

definition date_of :: "'v item list \<Rightarrow> nat list option" where
  "date_of = find_map (\<lambda>i. case i of
     Item_Envelope envelope \<Rightarrow> map_option (\<lambda>d. octets (istring_bytes d)) (env_date envelope) | _ \<Rightarrow> None)"

definition size_of :: "'v item list \<Rightarrow> u32 option" where
  "size_of = find_map (\<lambda>i. case i of Item_Rfc822Size n \<Rightarrow> Some n | _ \<Rightarrow> None)"

definition subject_of :: "'v item list \<Rightarrow> nat list option" where
  "subject_of = find_map (\<lambda>i. case i of
     Item_Envelope envelope \<Rightarrow> map_option (\<lambda>s. octets (istring_bytes s)) (env_subject envelope) | _ \<Rightarrow> None)"

definition cmp_fetch_items :: "'v lib \<Rightarrow> sort_key \<Rightarrow> 'v item list \<Rightarrow> 'v item list \<Rightarrow> comp" where
  "cmp_fetch_items L criterion a b =
     (case criterion of
        Sort_Arrival \<Rightarrow> cmp_ord (arrival_of L a) (arrival_of L b)
      | Sort_Date \<Rightarrow> cmp_ord (date_of a) (date_of b)
      | Sort_Size \<Rightarrow> cmp_ord (size_of a) (size_of b)
      | Sort_Subject \<Rightarrow> cmp_ord (subject_of a) (subject_of b)
      | _ \<Rightarrow> Equiv)"

text \<open>The closure: the first criterion that tells the messages apart decides, then the date.\<close>

fun cmp_fetches :: "'v lib \<Rightarrow> sort_criterion list \<Rightarrow> 'v item list \<Rightarrow> 'v item list \<Rightarrow> comp" where
  "cmp_fetches L [] a b = cmp_fetch_items L Sort_Date a b"
| "cmp_fetches L (criterion # criteria) a b =
     (let cmp = cmp_fetch_items L (sc_key criterion) a b;
          cmp = (if sc_reverse criterion then comp_reverse cmp else cmp)
      in if cmp \<noteq> Equiv then cmp else cmp_fetches L criteria a b)"

section \<open>It is a total preorder\<close>

lemma comparator_ord: "comparator (\<lambda>a b. cmp_ord (f a) (f b))"
  by unfold_locales (auto simp: cmp_ord_def split: if_splits)

lemma comparator_flat: "comparator (\<lambda>a b. Equiv)"
  by unfold_locales simp_all

lemma comp_reverse_simps [simp]:
  "comp_reverse c = Equiv \<longleftrightarrow> c = Equiv" "comp_reverse c = Less \<longleftrightarrow> c = Greater"
  "comp_reverse c = Greater \<longleftrightarrow> c = Less"
  by (cases c; simp add: comp_reverse_def)+

lemma comparator_reverse: "comparator c \<Longrightarrow> comparator (\<lambda>a b. comp_reverse (c a b))"
  by unfold_locales
    (auto intro: comparator.trans_equiv comparator.trans_less
      simp: comparator.refl comparator.greater_iff_sym_less)

lemma comparator_lex:
  assumes c: "comparator c" and d: "comparator d"
  shows "comparator (\<lambda>a b. if c a b \<noteq> Equiv then c a b else d a b)"
proof
  fix x y z
  show "(if c x x \<noteq> Equiv then c x x else d x x) = Equiv"
    using c d by (simp add: comparator.refl)
  show "(if c x y \<noteq> Equiv then c x y else d x y) = Equiv \<Longrightarrow> (if c y z \<noteq> Equiv then c y z else d y z) = Equiv
      \<Longrightarrow> (if c x z \<noteq> Equiv then c x z else d x z) = Equiv"
    using comparator.trans_equiv [OF c] comparator.trans_equiv [OF d] by (auto split: if_splits)
  show "(if c x y \<noteq> Equiv then c x y else d x y) = Less \<Longrightarrow> (if c y z \<noteq> Equiv then c y z else d y z) = Less
      \<Longrightarrow> (if c x z \<noteq> Equiv then c x z else d x z) = Less"
    using comparator.trans_equiv [OF c, of x y z] comparator.trans_less [OF c, of x y z]
      comparator.trans_less [OF d, of x y z] comparator.trans_equiv_less [OF c, of x y z]
      comparator.trans_less_equiv [OF c, of x y z]
    by (cases "c x y"; cases "c y z") simp_all
  show "(if c y x \<noteq> Equiv then c y x else d y x) = Greater \<longleftrightarrow> (if c x y \<noteq> Equiv then c x y else d x y) = Less"
    using comparator.greater_iff_sym_less [OF c, of y x] comparator.greater_iff_sym_less [OF d, of y x]
      comparator.sym [OF c, of y x]
    by auto
qed

lemma comparator_fetch_items: "comparator (cmp_fetch_items L criterion)"
  by (cases criterion) (simp_all add: cmp_fetch_items_def [abs_def] comparator_ord comparator_flat)

lemma comparator_fetches: "comparator (cmp_fetches L criteria)"
proof (induction criteria)
  case Nil
  have "cmp_fetches L [] = cmp_fetch_items L Sort_Date" by (intro ext) simp
  then show ?case by (simp add: comparator_fetch_items)
next
  case (Cons c cs)
  have "comparator (\<lambda>a b. if sc_reverse c then comp_reverse (cmp_fetch_items L (sc_key c) a b)
      else cmp_fetch_items L (sc_key c) a b)"
    using comparator_fetch_items comparator_reverse by (cases "sc_reverse c") auto
  from comparator_lex [OF this Cons] show ?case by (simp add: Let_def cong: if_cong)
qed

text \<open>The library's comparators then have it as one of them, and \<open>sort_by\<close> is the library's stable sort.\<close>

interpretation fetch_order: comparator "cmp_fetches L criteria" for L :: "'v lib" and criteria
  by (rule comparator_fetches)

lift_definition fetches_comparator :: "'v lib \<Rightarrow> sort_criterion list \<Rightarrow> 'v item list comparator"
  is cmp_fetches
  by (rule comparator_fetches)

definition sort_fetches :: "'v lib \<Rightarrow> sort_criterion list \<Rightarrow> 'v item list list \<Rightarrow> 'v item list list" where
  "sort_fetches L criteria = Sorting_Algorithms.sort (fetches_comparator L criteria)"

lemma mset_sort_fetches: "mset (sort_fetches L criteria xs) = mset xs"
  by (simp add: sort_fetches_def)

lemma sort_fetches_sorted: "sorted_wrt (\<lambda>a b. cmp_fetches L criteria a b \<noteq> Greater) (sort_fetches L criteria xs)"
proof -
  have "sorted_wrt (\<lambda>a b. compare cmp a b \<noteq> Greater) ys" if "Sorting_Algorithms.sorted cmp ys"
    for cmp :: "'b comparator" and ys
    using that by (induction rule: Sorting_Algorithms.sorted_induct) auto
  from this [of "fetches_comparator L criteria"] show ?thesis
    by (simp add: sort_fetches_def fetches_comparator.rep_eq)
qed

lemma sort_fetches_stable:
  "filter (\<lambda>y. cmp_fetches L criteria x y = Equiv) (sort_fetches L criteria xs) =
     filter (\<lambda>y. cmp_fetches L criteria x y = Equiv) xs"
  using Sorting_Algorithms.stable_sort [of "fetches_comparator L criteria" x xs]
  by (simp add: sort_fetches_def fetches_comparator.rep_eq)

end
