(* ===== verification/Client_High.thy ===== *)
theory Client_High
  imports Client_Ops Fetch_Order
begin

text \<open>
  The high-level API of the client (\<open>src/client/tokio.rs\<close>): FETCH by UID, sorting, appending and
  moving with a fallback for servers without the extension, and the IDLE methods, which go past
  the scheduler.
\<close>

section \<open>FETCH\<close>

definition macro_names :: "'v lib \<Rightarrow> 'v macro_or_names \<Rightarrow> 'v item_name list" where
  "macro_names L items = (case items of Macro m \<Rightarrow> macro_expand L m | Item_Names names \<Rightarrow> names)"

definition uid_item :: "'v item list \<Rightarrow> nz_u32 option" where
  "uid_item = find_map (\<lambda>item. case item of Item_Uid uid \<Rightarrow> Some uid | _ \<Rightarrow> None)"

text \<open>The map by sequence number becomes a map by UID; messages without a UID are dropped.\<close>

definition uid_map_of :: "'v lib \<Rightarrow> (nz_u32, 'v item list) hash_map \<Rightarrow> (nz_u32, 'v item list) hash_map" where
  "uid_map_of L seq_map =
     fold (\<lambda>(seq, items) uid_map.
       case uid_item items of
         Some uid \<Rightarrow> hm_insert (seq_order L) uid items uid_map
       | None \<Rightarrow> uid_map) seq_map []"

definition client_do_fetch ::
    "('v, 'c, 'g, 's) env \<Rightarrow> 'v \<Rightarrow> 'v macro_or_names \<Rightarrow> bool \<Rightarrow> 'v fetch_modifier list option
       \<Rightarrow> ('v, 'c, 'g, 's, (nz_u32, 'v item list) hash_map) op" where
  "client_do_fetch E sequence_set items uid modifiers =
     (let items = macro_names (env_lib E) items;
          items = (if uid then items @ [Name_Uid] else items);
          task = fetch_task_with_uid uid (fetch_task_new sequence_set (Item_Names items));
          task = (case modifiers of Some m \<Rightarrow> fetch_task_set_modifiers m task | None \<Rightarrow> task)
      in op_bind (client_task E as_item_map (T_Fetch task)) (\<lambda>seq_map.
         op_return (if uid then uid_map_of (env_lib E) seq_map else seq_map)))"

definition client_fetch ::
    "('v, 'c, 'g, 's) env \<Rightarrow> 'v \<Rightarrow> 'v macro_or_names
       \<Rightarrow> ('v, 'c, 'g, 's, (nz_u32, 'v item list) hash_map) op" where
  "client_fetch E sequence_set items = client_do_fetch E sequence_set items False None"

definition client_fetch_with_modifiers ::
    "('v, 'c, 'g, 's) env \<Rightarrow> 'v \<Rightarrow> 'v macro_or_names \<Rightarrow> 'v fetch_modifier list
       \<Rightarrow> ('v, 'c, 'g, 's, (nz_u32, 'v item list) hash_map) op" where
  "client_fetch_with_modifiers E sequence_set items modifiers =
     client_do_fetch E sequence_set items False (Some modifiers)"

definition client_uid_fetch ::
    "('v, 'c, 'g, 's) env \<Rightarrow> 'v \<Rightarrow> 'v macro_or_names
       \<Rightarrow> ('v, 'c, 'g, 's, (nz_u32, 'v item list) hash_map) op" where
  "client_uid_fetch E sequence_set items = client_do_fetch E sequence_set items True None"

definition client_uid_fetch_with_modifiers ::
    "('v, 'c, 'g, 's) env \<Rightarrow> 'v \<Rightarrow> 'v macro_or_names \<Rightarrow> 'v fetch_modifier list
       \<Rightarrow> ('v, 'c, 'g, 's, (nz_u32, 'v item list) hash_map) op" where
  "client_uid_fetch_with_modifiers E sequence_set items modifiers =
     client_do_fetch E sequence_set items True (Some modifiers)"

section \<open>SORT\<close>

definition max_sequence_size :: u8 where
  "max_sequence_size = 255"

text \<open>\<open>slice::chunks\<close>: pieces of \<open>n\<close> elements, the last one shorter.\<close>

function chunks :: "nat \<Rightarrow> 'a list \<Rightarrow> 'a list list" where
  "chunks n xs = (if n = 0 \<or> xs = [] then [] else take n xs # chunks n (drop n xs))"
  by pat_completeness auto

termination
  by (relation "measure (\<lambda>(n, xs). length xs)") auto

declare chunks.simps [simp del]

text \<open>One FETCH per chunk, the answers collected in one map.\<close>

fun fetch_chunks ::
    "('v, 'c, 'g, 's) env \<Rightarrow> 'v item_name list \<Rightarrow> bool \<Rightarrow> nz_u32 list list
       \<Rightarrow> (nz_u32, 'v item list) hash_map \<Rightarrow> ('v, 'c, 'g, 's, (nz_u32, 'v item list) hash_map) op" where
  "fetch_chunks E items uid [] fetches = op_return fetches"
| "fetch_chunks E items uid (ids # ids_chunks) fetches =
     op_bind (op_try (seq_set_of_ids (env_lib E) ids)) (\<lambda>ids.
     op_bind (client_do_fetch E ids (Item_Names items) uid None) (\<lambda>fetched.
     fetch_chunks E items uid ids_chunks (hm_extend (seq_order (env_lib E)) fetched fetches)))"

text \<open>\<open>flat_map(|id| fetches.remove(&id))\<close>: the messages in the order of the ids, each at most once.\<close>

fun take_ids :: "nz_u32 list \<Rightarrow> (nz_u32, 'v item list) hash_map \<Rightarrow> 'v item list list" where
  "take_ids [] fetches = []"
| "take_ids (msg_id # ids) fetches =
     (case map_of fetches msg_id of
        Some items \<Rightarrow> items # take_ids ids (AList.delete msg_id fetches)
      | None \<Rightarrow> take_ids ids fetches)"

fun sort_key_item :: "sort_key \<Rightarrow> 'v item_name option" where
  "sort_key_item Sort_Arrival = Some Name_InternalDate"
| "sort_key_item Sort_Cc = Some Name_Envelope"
| "sort_key_item Sort_Date = Some Name_Envelope"
| "sort_key_item Sort_From = Some Name_Envelope"
| "sort_key_item Sort_Size = Some Name_Rfc822Size"
| "sort_key_item Sort_Subject = Some Name_Envelope"
| "sort_key_item Sort_To = Some Name_Envelope"
| "sort_key_item Sort_DisplayFrom = None"
| "sort_key_item Sort_DisplayTo = None"

definition push_missing :: "'a \<Rightarrow> 'a list \<Rightarrow> 'a list" where
  "push_missing x xs = (if x \<in> set xs then xs else xs @ [x])"

definition add_sort_items :: "sort_criterion list \<Rightarrow> 'v item_name list \<Rightarrow> 'v item_name list" where
  "add_sort_items criteria items =
     fold push_missing (List.map_filter (\<lambda>criterion. sort_key_item (sc_key criterion)) criteria) items"

definition client_do_sort_or_fallback ::
    "('v, 'c, 'g, 's) env \<Rightarrow> sort_criterion list \<Rightarrow> 'v search_key list \<Rightarrow> 'v macro_or_names \<Rightarrow> bool
       \<Rightarrow> ('v, 'c, 'g, 's, 'v item list list) op" where
  "client_do_sort_or_fallback E criteria keys fetch_names uid =
     (let items = macro_names (env_lib E) fetch_names;
          items = (if uid \<and> Name_Uid \<notin> set items then items @ [Name_Uid] else items);
          size = unat max_sequence_size
      in op_state (\<lambda>state.
         if ext_sort_supported state then
           op_bind (client_do_sort E criteria keys uid) (\<lambda>ids.
           op_bind (fetch_chunks E items uid (chunks size ids) []) (\<lambda>fetches.
           op_return (take_ids ids fetches)))
         else
           op_bind (client_do_search E keys uid) (\<lambda>ids.
           let items = add_sort_items criteria items
           in op_bind (fetch_chunks E items uid (chunks size ids) []) (\<lambda>fetches.
              op_return (sort_fetches (env_lib E) criteria (map snd fetches))))))"

definition sort_or_fallback ::
    "('v, 'c, 'g, 's) env \<Rightarrow> sort_criterion list \<Rightarrow> 'v search_key list \<Rightarrow> 'v macro_or_names
       \<Rightarrow> ('v, 'c, 'g, 's, 'v item list list) op" where
  "sort_or_fallback E criteria keys fetch_names =
     client_do_sort_or_fallback E criteria keys fetch_names False"

definition uid_sort_or_fallback ::
    "('v, 'c, 'g, 's) env \<Rightarrow> sort_criterion list \<Rightarrow> 'v search_key list \<Rightarrow> 'v macro_or_names
       \<Rightarrow> ('v, 'c, 'g, 's, 'v item list list) op" where
  "uid_sort_or_fallback E criteria keys fetch_names =
     client_do_sort_or_fallback E criteria keys fetch_names True"

section \<open>APPEND\<close>

text \<open>\<open>seq.try_into().unwrap()\<close>\<close>

definition op_unwrap :: "'e + 'a \<Rightarrow> ('v, 'c, 'g, 's, 'a) op" where
  "op_unwrap r self = (case r of Inr a \<Rightarrow> Ret (Inr a, self) | Inl _ \<Rightarrow> Panic)"

definition appenduid_or_fallback ::
    "('v, 'c, 'g, 's) env \<Rightarrow> 'v + 'v \<Rightarrow> 'v flag list \<Rightarrow> bytes \<Rightarrow> ('v, 'c, 'g, 's, nz_u32 option) op" where
  "appenduid_or_fallback E mailbox flags message =
     op_state (\<lambda>state.
       if ext_uidplus_supported state then
         op_bind (client_appenduid E mailbox flags message) (\<lambda>pair. op_return (map_option fst pair))
       else
         op_bind (client_select E mailbox) (\<lambda>_.
         op_bind
           (op_bind (client_append E mailbox flags message) (\<lambda>seq.
            case seq of
              Some seq \<Rightarrow> op_return seq
            | None \<Rightarrow>
                op_bind (post_append_noop E) (\<lambda>seq.
                case seq of
                  Some seq \<Rightarrow> op_return seq
                | None \<Rightarrow>
                    op_bind (post_append_check E) (\<lambda>seq.
                    case seq of
                      Some seq \<Rightarrow> op_return seq
                    | None \<Rightarrow> op_throw (ResolveTask (MissingData ''APPENDUID: seq''))))))
           (\<lambda>seq.
         op_bind (op_unwrap (seq_set_of_u32 (env_lib E) seq)) (\<lambda>seq_set.
         op_bind (client_search E [Key_SequenceSet seq_set]) (\<lambda>ids.
         op_return (case ids of [] \<Rightarrow> None | uid # _ \<Rightarrow> Some uid))))))"

section \<open>MOVE\<close>

definition client_do_move_or_fallback ::
    "('v, 'c, 'g, 's) env \<Rightarrow> 'v \<Rightarrow> 'v + 'v \<Rightarrow> bool \<Rightarrow> ('v, 'c, 'g, 's, unit) op" where
  "client_do_move_or_fallback E sequence_set mailbox uid =
     op_state (\<lambda>state.
       if ext_move_supported state then client_do_move E sequence_set mailbox uid
       else
         op_bind (client_do_copy E sequence_set mailbox uid) (\<lambda>_.
         op_bind (client_do_silent_store E sequence_set Store_Add [Flag_Deleted] uid) (\<lambda>_.
         op_bind (client_expunge E) (\<lambda>_.
         op_return ()))))"

definition move_or_fallback ::
    "('v, 'c, 'g, 's) env \<Rightarrow> 'v \<Rightarrow> 'v + 'v \<Rightarrow> ('v, 'c, 'g, 's, unit) op" where
  "move_or_fallback E sequence_set mailbox = client_do_move_or_fallback E sequence_set mailbox False"

definition uid_move_or_fallback ::
    "('v, 'c, 'g, 's) env \<Rightarrow> 'v \<Rightarrow> 'v + 'v \<Rightarrow> ('v, 'c, 'g, 's, unit) op" where
  "uid_move_or_fallback E sequence_set mailbox = client_do_move_or_fallback E sequence_set mailbox True"

section \<open>IDLE\<close>

definition cl_scheduler :: "('v, 'c, 'g, 's) client \<Rightarrow> ('v, 'c, 'g) scheduler" where
  "cl_scheduler self = resolver_scheduler (cs_resolver (cl_state self))"

definition cl_put_scheduler ::
    "('v, 'c, 'g) scheduler \<Rightarrow> ('v, 'c, 'g, 's) client \<Rightarrow> ('v, 'c, 'g, 's) client" where
  "cl_put_scheduler s self =
     self\<lparr>cl_state := (cl_state self)\<lparr>cs_resolver := (cs_resolver (cl_state self))\<lparr>resolver_scheduler := s\<rparr>\<rparr>\<rparr>"

text \<open>The command goes to imap-next directly: no task is enqueued for it.\<close>

definition enqueue_idle ::
    "('v, 'c, 'g, 's) env \<Rightarrow> ('v, 'c, 'g, 's) client \<Rightarrow> tag \<times> ('v, 'c, 'g, 's) client" where
  "enqueue_idle E self =
     (case nc_tag_generate (env_next E) (tag_generator (cl_scheduler self)) of (tag, g) \<Rightarrow>
        (case nc_enqueue_command (env_next E) \<lparr>cmd_tag = tag, cmd_body = Cmd_Idle\<rparr>
                (client_next (cl_scheduler self)) of (handle, c) \<Rightarrow>
           (tag, cl_put_scheduler ((cl_scheduler self)\<lparr>client_next := c, tag_generator := g\<rparr>) self)))"

definition set_idle_done :: "('v, 'c, 'g, 's) env \<Rightarrow> ('v, 'c, 'g, 's) client \<Rightarrow> ('v, 'c, 'g, 's) client" where
  "set_idle_done E self =
     cl_put_scheduler ((cl_scheduler self)\<lparr>client_next :=
       nc_set_idle_done (env_next E) (client_next (cl_scheduler self))\<rparr>) self"

text \<open>One turn of the loop of \<open>idle_done\<close>, over the stream and imap-next's client.\<close>

definition idle_done_turn ::
    "('v, 'c, 'g, 's) env \<Rightarrow> tag \<Rightarrow> 's stream \<times> 'c
       \<Rightarrow> ('s stream \<times> 'c, ('v next_error, 'v) stream_error + unit) flow" where
  "idle_done_turn E tag x =
     (case stream_next (env_socket E) (next_machine (env_next E)) x of
        Ret (Inl e, x) \<Rightarrow> Break (Inl e) x
      | Ret (Inr event, x) \<Rightarrow>
          (case event of
             IdleDoneSent _ \<Rightarrow> Continue x
           | StatusReceived (Status_Tagged got_tag _) \<Rightarrow>
               if got_tag = tag then Break (Inr ()) x else Continue x
           | _ \<Rightarrow> Continue x)
      | Panic \<Rightarrow> Panicking
      | Diverge \<Rightarrow> Diverging)"

definition idle_done ::
    "('v, 'c, 'g, 's) env \<Rightarrow> tag \<Rightarrow> ('v, 'c, 'g, 's) client
       \<Rightarrow> ((('v next_error, 'v) stream_error + unit) \<times> ('v, 'c, 'g, 's) client) run" where
  "idle_done E tag self =
     (let self = set_idle_done E self
      in case rust_loop (idle_done_turn E tag) (cl_stream self, client_next (cl_scheduler self)) of
           Ret (r, stream, c) \<Rightarrow>
             Ret (r, (cl_put_scheduler ((cl_scheduler self)\<lparr>client_next := c\<rparr>) self)\<lparr>cl_stream := stream\<rparr>)
         | Panic \<Rightarrow> Panic
         | Diverge \<Rightarrow> Diverge)"

end
