(* ===== verification/Scheduler_Theorems.thy ===== *)
theory Scheduler_Theorems
  imports Scheduler_Events
begin

text \<open>The properties of the scheduler, for every client of imap-next and every set of tasks.\<close>

section \<open>A scheduler in use\<close>

text \<open>A closed example: one SEARCH has been enqueued, and the client reports the given results.\<close>

definition demo_task :: "nat task" where
  "demo_task = T_Search (search_task_new [Key_All])"

definition demo_script :: "(nat next_error interrupt + nat event) list \<Rightarrow> nat script" where
  "demo_script rs =
     (script rs)\<lparr>sc_next_handle := 1,
       sc_commands := [\<lparr>cmd_tag = ''0'', cmd_body = Cmd_Search None [Key_All] True\<rparr>]\<rparr>"

definition demo :: "(nat next_error interrupt + nat event) list \<Rightarrow> (nat, nat script, nat) scheduler" where
  "demo rs =
     \<lparr>client_next = demo_script rs, waiting_tasks = [(0, ''0'', demo_task)], active_tasks = [],
      tag_generator = 1\<rparr>"

definition demo_done :: "(nat, nat script, nat) scheduler" where
  "demo_done = (demo [])\<lparr>waiting_tasks := []\<rparr>"

definition demo_handle :: task_handle where
  "demo_handle = \<lparr>th_handle = 0, th_type = Ty_Ids\<rparr>"

definition demo_answer :: "(nat next_error interrupt + nat event) list" where
  "demo_answer =
     [Inr (CommandSent 0), Inr (DataReceived (Data_Search [Abs_nonzero 7] 0)),
      Inr (StatusReceived (Status_Tagged ''0'' (ok_body None 0)))]"

definition demo_token :: "nat task_token" where
  "demo_token = \<lparr>tok_handle = 0, tok_output = Some (Out_Ids (Inr [Abs_nonzero 7]))\<rparr>"

lemmas demo_defs =
  demo_task_def demo_script_def demo_def demo_done_def demo_handle_def demo_answer_def demo_token_def

lemma decimal_0: "decimal 0 = ''0''"
  by (simp add: decimal.simps char_of_def bit_Suc_0_iff)

lemma demo_reached: "reached script_client example_lib [0 \<mapsto> Ty_Ids] (demo rs)"
proof -
  have "enqueue_task script_client example_lib demo_task (scheduler_new script_client (script rs))
      = Ret (demo_handle, demo rs)"
    by (simp add: enqueue_task_def scheduler_new_def script_defs demo_defs decimal_0 task_simps
        tm_push_back_def search_task_new_def search_task_default_def)
  from reached.enqueued [OF reached.created this] show ?thesis
    by (simp add: demo_handle_def sched_tags_def sched_entries_def scheduler_new_def)
qed

definition demo_active ::
    "(nat next_error interrupt + nat event) list \<Rightarrow> nz_u32 list \<Rightarrow> (nat, nat script, nat) scheduler" where
  "demo_active rs ids =
     (demo rs)\<lparr>waiting_tasks := [],
       active_tasks := [(0, ''0'', T_Search ((search_task_new [Key_All])\<lparr>search_output := ids\<rparr>))]\<rparr>"

lemmas demo_run_simps =
  run_simps script_defs progress_turn_def handle_event_def start_task_def demo_defs demo_active_def
  tm_remove_by_handle_first tm_remove_by_tag_first tm_push_back_def entry_defs trickle_active_def
  tm_tasks_def tm_put_tasks_def task_simps reboxed_def search_task_new_def search_task_default_def

lemma demo_turns:
  "progress_turn script_client example_lib (demo demo_answer) = Continue (demo_active (tl demo_answer) [])"
  "progress_turn script_client example_lib (demo_active (tl demo_answer) []) =
     Continue (demo_active (tl (tl demo_answer)) [Abs_nonzero 7])"
  "progress_turn script_client example_lib (demo_active (tl (tl demo_answer)) [Abs_nonzero 7]) =
     Break (Inr (Ev_TaskFinished demo_token)) demo_done"
  by (simp_all add: demo_run_simps)

lemma demo_progress:
  "progress script_client example_lib (demo demo_answer) = Ret (Inr (Ev_TaskFinished demo_token), demo_done)"
  by (simp add: progress_def run_simps demo_turns)

lemma demo_continues:
  "continues (progress_turn script_client example_lib) (demo demo_answer) t \<Longrightarrow>
     t \<in> {demo demo_answer, demo_active (tl demo_answer) [],
          demo_active (tl (tl demo_answer)) [Abs_nonzero 7]}"
  by (auto simp: demo_turns continues_unfold [of _ "demo demo_answer"]
      continues_unfold [of _ "demo_active (tl demo_answer) []"]
      continues_unfold [of _ "demo_active (tl (tl demo_answer)) [Abs_nonzero 7]"])

section \<open>Tasks and their handles\<close>

text \<open>C1: A scheduler in use never holds two tasks with the same handle or the same tag, and
  every task it holds, waiting or active, has the output type its handle was issued with.\<close>

theorem reached_well_formed:
  assumes "reached N L \<Gamma> s"
  shows "distinct (map entry_handle (waiting_tasks s @ active_tasks s)) \<and>
    distinct (map entry_tag (waiting_tasks s @ active_tasks s)) \<and>
    (\<forall>(h, tag, t) \<in> set (waiting_tasks s @ active_tasks s). \<Gamma> h = Some (task_type t))"
  using reached_invariant [OF assms]
  by (simp add: sched_wf_def sched_typed_def sched_entries_def entry_defs split_def)

lemma reached_well_formed_witness:
  "distinct (map entry_handle (waiting_tasks (demo []) @ active_tasks (demo []))) \<and>
   list_all (\<lambda>(h, tag, t). h = 0 \<and> task_type t = Ty_Ids)
     (waiting_tasks (demo []) @ active_tasks (demo []))"
  unfolding list_all_iff
  using reached_well_formed [OF demo_reached, of "[]"] by (fastforce split: if_splits)

text \<open>No call of \<open>progress\<close> loses a task or lets one finish twice: the handles held before
  are the handles held afterwards together with the one reported as finished, which is not
  among those still held.\<close>

theorem progress_conserves_tasks:
  assumes "reached N L \<Gamma> s" and "progress N L s = Ret (r, s')"
  shows "sched_handles s = sched_handles s' \<union> finished_handles r \<and>
    finished_handles r \<inter> sched_handles s' = {}"
  using progress_handles [OF assms(2)] reached_invariant [OF assms(1)] by blast

lemma progress_conserves_tasks_witness:
  "sched_handles (demo demo_answer) = insert 0 (sched_handles demo_done) \<and>
   0 \<notin> sched_handles demo_done"
  using progress_conserves_tasks [OF demo_reached demo_progress]
  by (auto simp: finished_handles_def demo_token_def)

text \<open>C10: A token reported by \<open>progress\<close> carries an output of the type its handle was issued with,
  so resolving it never panics on the downcast: its own handle gets the output, once, and any
  other handle of the scheduler leaves the token as it is.\<close>

theorem token_resolves_for_its_handle:
  assumes "reached N L \<Gamma> s" and "progress N L s = Ret (Inr (Ev_TaskFinished tok), s')"
    and "\<Gamma> (th_handle th) = Some (th_type th)"
  shows "\<exists>out. tok_output tok = Some out \<and> \<Gamma> (tok_handle tok) = Some (output_type out) \<and>
    handle_resolve th tok =
      Ret (if tok_handle tok = th_handle th then (Some out, tok\<lparr>tok_output := None\<rparr>) else (None, tok)) \<and>
    handle_resolve th (tok\<lparr>tok_output := None\<rparr>) = Ret (None, tok\<lparr>tok_output := None\<rparr>)"
proof -
  from reached_invariant [OF assms(1)] have "sched_typed \<Gamma> s" by blast
  from progress_output [OF assms(2) this] obtain out
    where out: "tok_output tok = Some out" "\<Gamma> (tok_handle tok) = Some (output_type out)" by blast
  with handle_resolve_typed [OF out assms(3)] show ?thesis by (auto simp: handle_resolve_def)
qed

lemma token_resolves_for_its_handle_witness:
  "handle_resolve demo_handle demo_token =
     Ret (Some (Out_Ids (Inr [Abs_nonzero 7])), demo_token\<lparr>tok_output := None\<rparr>)"
  using token_resolves_for_its_handle [OF demo_reached demo_progress, of demo_handle]
  by (auto simp: demo_handle_def demo_token_def)

section \<open>Panics and termination\<close>

text \<open>C9: \<open>progress\<close> panics exactly when it comes, after the turns in which it goes on, to an event
  it is not prepared for, and these are the only ones: a command sent, an authentication started or an
  IDLE sent for a handle that does not wait; a command rejected, an authentication completed or an
  IDLE rejected for a handle that is not active, or with a status that is not tagged; a continuation
  request of an authentication for a handle that is not active; and a continuation request that an
  active task answers with data which imap-next refuses to take for that handle.\<close>

theorem progress_panics_iff:
  "progress N L s = Panic \<longleftrightarrow>
     (\<exists>t c e. continues (progress_turn N L) s t \<and> nc_next N (client_next t) = (Inr e, c) \<and>
       \<not> event_expected N e (t\<lparr>client_next := c\<rparr>))"
  (is "_ \<longleftrightarrow> ?unexpected")
proof
  assume "progress N L s = Panic"
  then show ?unexpected
    by (rule progress_panics_at)
next
  assume ?unexpected
  then obtain t c e where t: "continues (progress_turn N L) s t"
    and e: "nc_next N (client_next t) = (Inr e, c)" "\<not> event_expected N e (t\<lparr>client_next := c\<rparr>)"
    by blast
  then have "progress_turn N L t = Panicking" by (auto simp: progress_turn_panics)
  with continues_rust_loop [OF t] show "progress N L s = Panic"
    by (simp add: progress_def run_simps)
qed

text \<open>C12: \<open>progress\<close> returns whenever imap-next cannot keep reporting for ever without asking for
  input or output, and is prepared for what imap-next reports: \<open>m\<close> counts what it can still
  report, and authentication data does not add to it.\<close>

theorem progress_returns:
  fixes m :: "'c \<Rightarrow> nat"
  assumes "\<forall>c r c'. nc_next N c = (r, c') \<longrightarrow> (\<forall>io. r \<noteq> Inl (Int_Io io)) \<longrightarrow> m c' < m c"
    and "\<forall>data c. m (snd (nc_set_authenticate_data N data c)) \<le> m c"
    and "\<forall>t c e. continues (progress_turn N L) s t \<longrightarrow> nc_next N (client_next t) = (Inr e, c) \<longrightarrow>
      event_expected N e (t\<lparr>client_next := c\<rparr>)"
  shows "\<exists>r s'. progress N L s = Ret (r, s')"
proof -
  have "progress N L s \<noteq> Diverge" using assms(1,2) by (intro progress_terminates [where m = m]) auto
  moreover have "progress N L s \<noteq> Panic"
    using progress_panics_at [of N L s] assms(3) by blast
  ultimately show ?thesis by (cases "progress N L s") auto
qed

lemma progress_returns_witness:
  "\<exists>r s'. progress script_client example_lib (demo demo_answer) = Ret (r, s')"
proof (rule progress_returns [where m = "\<lambda>c. length (sc_results c)"])
  show "\<forall>c r c'. nc_next script_client c = (r, c') \<longrightarrow> (\<forall>io. r \<noteq> Inl (Int_Io io)) \<longrightarrow>
      length (sc_results c') < length (sc_results (c :: nat script))"
    by (auto simp: script_client_def split: list.splits)
  show "\<forall>data c. length (sc_results (snd (nc_set_authenticate_data script_client data c)))
      \<le> length (sc_results (c :: nat script))"
    by (simp add: script_client_def)
  show "\<forall>t c e. continues (progress_turn script_client example_lib) (demo demo_answer) t \<longrightarrow>
      nc_next script_client (client_next t) = (Inr e, c) \<longrightarrow>
      event_expected script_client e (t\<lparr>client_next := c\<rparr>)"
  proof (intro allI impI)
    fix t c e
    assume t: "continues (progress_turn script_client example_lib) (demo demo_answer) t"
      and n: "nc_next script_client (client_next t) = (Inr e, c)"
    from demo_continues [OF t] n show "event_expected script_client e (t\<lparr>client_next := c\<rparr>)"
      by (auto simp: demo_run_simps is_waiting_def)
  qed
qed

section \<open>Responses\<close>

text \<open>Data, untagged statuses and BYEs are offered to the active tasks in the order they were
  started. The first task that takes one is the only task that changes, and nothing is
  reported; a response that no task takes is reported as unsolicited, as it came, and no task
  changes.\<close>

theorem responses_reach_first_taker:
  "handle_event N L (DataReceived d) s =
     (case first_taker (\<lambda>t. task_process_data L t d) (active_tasks s) of
        Some active \<Rightarrow> Continue (s\<lparr>active_tasks := active\<rparr>)
      | None \<Rightarrow> Break (Inr (Ev_Unsolicited (Resp_Data d))) s) \<and>
   handle_event N L (StatusReceived (Status_Untagged body)) s =
     (case first_taker (\<lambda>t. task_process_untagged t body) (active_tasks s) of
        Some active \<Rightarrow> Continue (s\<lparr>active_tasks := active\<rparr>)
      | None \<Rightarrow> Break (Inr (Ev_Unsolicited (Resp_Status (Status_Untagged body)))) s) \<and>
   handle_event N L (StatusReceived (Status_Bye bye)) s =
     (case first_taker (\<lambda>t. task_process_bye t bye) (active_tasks s) of
        Some active \<Rightarrow> Continue (s\<lparr>active_tasks := active\<rparr>)
      | None \<Rightarrow> Break (Inr (Ev_Unsolicited (Resp_Status (Status_Bye bye)))) s)"
  by (simp add: handle_event_def any_data.trickle_active_first_taker
      any_untagged.trickle_active_first_taker any_bye.trickle_active_first_taker split: option.split)

text \<open>C11: A tagged status finishes the one active task with its tag: its output is computed from
  the status, the task leaves the scheduler, and the other tasks stay in their order. When no
  active task has the tag, even when a waiting one has it, the status is reported as an error
  and the scheduler is unchanged.\<close>

theorem tagged_status_completes_one:
  assumes "reached N L \<Gamma> s"
  shows "(\<forall>h t. (h, tag, t) \<in> set (active_tasks s) \<longrightarrow>
       handle_event N L (StatusReceived (Status_Tagged tag body)) s =
         Break (Inr (Ev_TaskFinished
             \<lparr>tok_handle = h, tok_output = Some (task_process_tagged L t body)\<rparr>))
           (s\<lparr>active_tasks := filter (\<lambda>e. entry_tag e \<noteq> tag) (active_tasks s)\<rparr>)) \<and>
    (tag \<notin> entry_tag ` set (active_tasks s) \<longrightarrow>
       handle_event N L (StatusReceived (Status_Tagged tag body)) s =
         Break (Inl (Int_Error (UnexpectedTaggedResponse tag body))) s)"
proof (intro conjI allI impI)
  fix h t assume "(h, tag, t) \<in> set (active_tasks s)"
  then obtain us vs where split: "active_tasks s = us @ (h, tag, t) # vs" by (meson split_list)
  from reached_invariant [OF assms] split
  have "tag \<notin> entry_tag ` set us" "tag \<notin> entry_tag ` set vs"
    by (auto simp: sched_wf_def sched_entries_def entry_tag_def)
  moreover from this have "filter (\<lambda>e. entry_tag e \<noteq> tag) us = us"
    and "filter (\<lambda>e. entry_tag e \<noteq> tag) vs = vs"
    by (auto simp: filter_id_conv)
  ultimately show "handle_event N L (StatusReceived (Status_Tagged tag body)) s =
      Break (Inr (Ev_TaskFinished \<lparr>tok_handle = h, tok_output = Some (task_process_tagged L t body)\<rparr>))
        (s\<lparr>active_tasks := filter (\<lambda>e. entry_tag e \<noteq> tag) (active_tasks s)\<rparr>)"
    using tagged_status_finishes [OF split] split by (simp add: entry_tag_def)
qed (rule tagged_status_unexpected)

lemma tagged_status_completes_one_witness:
  "handle_event script_client example_lib (StatusReceived (Status_Tagged ''0'' (ok_body None 0)))
      (demo_active [] [Abs_nonzero 7]) =
     Break (Inr (Ev_TaskFinished demo_token)) (demo_active [] [Abs_nonzero 7]\<lparr>active_tasks := []\<rparr>) \<and>
   handle_event script_client example_lib (StatusReceived (Status_Tagged ''0'' (ok_body None 0))) (demo [])
     = Break (Inl (Int_Error (UnexpectedTaggedResponse ''0'' (ok_body None 0)))) (demo [])"
proof -
  let ?rs = "[Inr (CommandSent 0), Inr (DataReceived (Data_Search [Abs_nonzero 7] 0))]"
  have "progress_turn script_client example_lib (demo ?rs) = Continue (demo_active (tl ?rs) [])"
    "progress_turn script_client example_lib (demo_active (tl ?rs) []) = Continue (demo_active [] [Abs_nonzero 7])"
    by (simp_all add: demo_run_simps)
  from reached.turned [OF reached.turned [OF demo_reached this(1)] this(2)]
  have active: "reached script_client example_lib [0 \<mapsto> Ty_Ids] (demo_active [] [Abs_nonzero 7])" .
  have token: "task_process_tagged example_lib (T_Search ((search_task_new [Key_All])\<lparr>search_output := [Abs_nonzero 7]\<rparr>))
      (ok_body None 0) = Out_Ids (Inr [Abs_nonzero 7])"
    by (simp add: task_simps search_task_new_def search_task_default_def)
  show ?thesis
    using tagged_status_completes_one [OF demo_reached, of "''0''" "[]" "ok_body None 0"]
      tagged_status_completes_one [OF active, of "''0''" "ok_body None 0"] token
    by (simp add: demo_def demo_active_def demo_token_def entry_tag_def)
qed

section \<open>Malformed messages\<close>

text \<open>C13: \<open>progress\<close> goes on after a malformed message exactly when that has at least three
  fields separated by spaces and the third is FETCH in any case; every other malformed message, a
  shorter one included, is reported as an error. The tasks are untouched either way.\<close>

theorem malformed_fetch_skipped:
  assumes "nc_next N (client_next s) = (Inl (Int_Error (MalformedMessage msg)), c)"
  shows "progress N L s =
    (if \<exists>a b field rest. msg = a @ '' '' @ b @ '' '' @ field @ rest \<and>
          CHR '' '' \<notin> set a \<union> set b \<union> set field \<and> (rest = [] \<or> hd rest = CHR '' '') \<and>
          eq_ignore_ascii_case field ''FETCH''
     then progress N L (s\<lparr>client_next := c\<rparr>)
     else Ret (Inl (Int_Error (Flow (MalformedMessage msg))), s\<lparr>client_next := c\<rparr>))"
  unfolding third_field_fetch_def [symmetric]
  using progress_turn_error [OF assms, of L]
  by (simp add: progress_Continue progress_Break is_malformed_fetch_iff)

lemma malformed_fetch_skipped_witness:
  "progress script_client example_lib
       (demo (Inl (Int_Error (MalformedMessage ''* 7 fetch (UID x)'')) # demo_answer)) =
     Ret (Inr (Ev_TaskFinished demo_token), demo_done) \<and>
   progress script_client example_lib (demo [Inl (Int_Error (MalformedMessage ''* BYE FETCHED''))]) =
     Ret (Inl (Int_Error (Flow (MalformedMessage ''* BYE FETCHED''))), demo []) \<and>
   progress script_client example_lib (demo [Inl (Int_Error (MalformedMessage ''* FETCH''))]) =
     Ret (Inl (Int_Error (Flow (MalformedMessage ''* FETCH''))), demo [])"
proof -
  have reports: "nc_next script_client (client_next (demo (r # rs))) = (r, client_next (demo rs))" for r rs
    by (simp add: script_defs demo_defs)
  have test: "is_malformed_fetch ''* 7 fetch (UID x)''" "\<not> is_malformed_fetch ''* BYE FETCHED''"
    "\<not> is_malformed_fetch ''* FETCH''"
    by code_simp+
  have same: "(demo (r # rs))\<lparr>client_next := client_next (demo rs)\<rparr> = demo rs" for r rs
    by (simp add: demo_def)
  note run = malformed_fetch_skipped [OF reports, of example_lib, folded third_field_fetch_def]
  show ?thesis
    using test unfolding is_malformed_fetch_iff by (simp add: run same demo_progress)
qed

end
