(* ===== verification/Resolver_Theorems.thy ===== *)
theory Resolver_Theorems
  imports Resolver Scheduler_Theorems
begin

text \<open>The properties of the resolver: a task run on its own gets its output, and nothing else.\<close>

lemma resolver_resolve_Ret:
  assumes "resolver_resolve N L task rs = Ret (th, rs')"
  shows "\<exists>tag g c. nc_tag_generate N (tag_generator (resolver_scheduler rs)) = (tag, g) \<and>
    th_type th = task_type task \<and>
    rs' = rs\<lparr>resolver_scheduler := (resolver_scheduler rs)\<lparr>client_next := c, tag_generator := g,
      waiting_tasks := waiting_tasks (resolver_scheduler rs) @ [(th_handle th, tag, task)]\<rparr>\<rparr>"
proof -
  from assms obtain s' where enq: "enqueue_task N L task (resolver_scheduler rs) = Ret (th, s')"
    and rs': "rs' = rs\<lparr>resolver_scheduler := s'\<rparr>"
    by (auto simp: resolver_resolve_def split: run.splits)
  from enqueue_task_Ret [OF enq] rs' show ?thesis by blast
qed

text \<open>Running one task to its end. A task is resolved while no other command is in flight;
  its command is sent, any number of data, untagged statuses, stray continuation requests or
  greetings arrive, then the completion with its tag. The resolver returns the output the task
  computes from exactly the responses it took and that completion, and the task is gone.\<close>

theorem resolve_returns_output:
  assumes "resolver_resolve N L task rs = Ret (th, rs')"
    and "active_tasks (resolver_scheduler rs) = []"
    and "th_handle th \<notin> entry_handle ` set (waiting_tasks (resolver_scheduler rs))"
    and "tag = fst (nc_tag_generate N (tag_generator (resolver_scheduler rs)))"
    and "\<forall>e \<in> set es. between e"
    and "emits N (client_next (resolver_scheduler rs'))
      (CommandSent (th_handle th) # es @ [StatusReceived (Status_Tagged tag body)]) c'"
  shows "resolving_next N L th rs' =
    Ret (Inr (task_process_tagged L (task_after L es task) body),
         rs'\<lparr>resolver_scheduler := (resolver_scheduler rs')
           \<lparr>client_next := c', waiting_tasks := waiting_tasks (resolver_scheduler rs)\<rparr>\<rparr>)"
proof -
  let ?s = "resolver_scheduler rs'" and ?w = "waiting_tasks (resolver_scheduler rs)"
  from resolver_resolve_Ret [OF assms(1)] assms(2,4)
  have w: "waiting_tasks ?s = ?w @ [(th_handle th, tag, task)]" and a: "active_tasks ?s = []"
    and ty: "th_type th = task_type task"
    by auto
  from assms(6) obtain c where n: "nc_next N (client_next ?s) = (Inr (CommandSent (th_handle th)), c)"
    and es: "emits N c (es @ [StatusReceived (Status_Tagged tag body)]) c'"
    by (simp only: emits_Cons) blast
  let ?s1 = "?s\<lparr>client_next := c, waiting_tasks := ?w, active_tasks := [(th_handle th, tag, task)]\<rparr>"
  have "progress_turn N L ?s = Continue ?s1"
    using progress_turn_event [OF n, of L] assms(3) w a
      command_sent_starts [of "?s\<lparr>client_next := c\<rparr>" ?w "th_handle th" tag task "[]"]
    by (simp add: handle_event_def)
  from resolving_skip_Continue [OF this, of th]
  have "resolving_next N L th rs' = resolving_next N L th (rs'\<lparr>resolver_scheduler := ?s1\<rparr>)" .
  also have "\<dots> = Ret (Inr (task_process_tagged L (task_after L es task) body),
      rs'\<lparr>resolver_scheduler := ?s1\<lparr>client_next := c', active_tasks := []\<rparr>\<rparr>)"
    using resolving_until_tagged [of "rs'\<lparr>resolver_scheduler := ?s1\<rparr>" "th_handle th" tag task es N body
        c' th L] es ty assms(5)
    by simp
  also have "?s1\<lparr>client_next := c', active_tasks := []\<rparr> = ?s\<lparr>client_next := c', waiting_tasks := ?w\<rparr>"
    using a by simp
  finally show ?thesis .
qed

definition demo_resolver ::
    "(nat next_error interrupt + nat event) list \<Rightarrow> (nat, nat script, nat) resolver" where
  "demo_resolver rs = \<lparr>resolver_scheduler = demo rs\<rparr>"

lemma demo_resolve:
  "resolver_resolve script_client example_lib demo_task (resolver_new script_client (script rs)) =
     Ret (demo_handle, demo_resolver rs)"
  by (simp add: resolver_resolve_def resolver_new_def demo_resolver_def enqueue_task_def
      scheduler_new_def script_defs demo_defs decimal_0 task_simps tm_push_back_def
      search_task_new_def search_task_default_def)

lemma resolve_returns_output_witness:
  "resolving_next script_client example_lib demo_handle (demo_resolver demo_answer) =
     Ret (Inr (Out_Ids (Inr [Abs_nonzero 7])), \<lparr>resolver_scheduler = demo_done\<rparr>)"
proof -
  let ?es = "[DataReceived (Data_Search [Abs_nonzero 7] 0)]"
  have "emits script_client (client_next (resolver_scheduler (demo_resolver demo_answer)))
      (CommandSent (th_handle demo_handle) # ?es @ [StatusReceived (Status_Tagged ''0'' (ok_body None 0))])
      (demo_script [])"
    by (simp add: demo_resolver_def script_defs demo_defs)
  moreover have "task_process_tagged example_lib (task_after example_lib ?es demo_task) (ok_body None 0) =
      Out_Ids (Inr [Abs_nonzero 7])"
    by (simp add: task_after_def demo_task_def task_simps search_task_new_def)
  moreover have "(demo_resolver demo_answer)\<lparr>resolver_scheduler :=
      (resolver_scheduler (demo_resolver demo_answer))\<lparr>client_next := demo_script [], waiting_tasks := []\<rparr>\<rparr>
      = \<lparr>resolver_scheduler = demo_done\<rparr>"
    by (simp add: demo_resolver_def demo_defs)
  ultimately show ?thesis
    using resolve_returns_output [OF demo_resolve, where tag = "''0''" and body = "ok_body None 0"
        and es = ?es and c' = "demo_script []", of demo_answer]
    by (simp add: resolver_new_def scheduler_new_def script_client_def decimal_0 del: emits.simps)
qed

text \<open>C14: The output a resolving task returns has the type of its task, and the resolver adds no
  panic of its own: when it panics, \<open>progress\<close> has panicked in a state the loop reached.\<close>

theorem resolving_output_type_and_panics:
  assumes "reached N L \<Gamma> (resolver_scheduler rs)" and "\<Gamma> (th_handle th) = Some (th_type th)"
  shows "(\<forall>out rs'. resolving_next N L th rs = Ret (Inr out, rs') \<longrightarrow> output_type out = th_type th) \<and>
    (resolving_next N L th rs = Panic \<longrightarrow>
      (\<exists>rs'. continues (resolving_turn N L th) rs rs' \<and>
        reached N L \<Gamma> (resolver_scheduler rs') \<and> progress N L (resolver_scheduler rs') = Panic))"
proof (intro conjI allI impI)
  fix out rs' assume "resolving_next N L th rs = Ret (Inr out, rs')"
  then obtain t where "resolving_turn N L th t = Break (Inr out) rs'"
    using rust_loop_Ret_reached [of "resolving_turn N L th" rs] by (auto simp: resolving_next_def)
  from resolving_turn_output [OF this] show "output_type out = th_type th"
    using handle_resolve_Some by blast
next
  assume "resolving_next N L th rs = Panic"
  then obtain t where t: "continues (resolving_turn N L th) rs t"
    and panic: "resolving_turn N L th t = Panicking"
    using rust_loop_Panic_reached [of "resolving_turn N L th" rs] by (auto simp: resolving_next_def)
  have r: "reached N L \<Gamma> (resolver_scheduler t)"
    by (rule continues_invariant [where I = "\<lambda>t. reached N L \<Gamma> (resolver_scheduler t)", OF t assms(1)])
      (use resolving_turn_Continue reached_progress in blast)
  from reached_invariant [OF r] have "sched_typed \<Gamma> (resolver_scheduler t)" by blast
  from resolving_turn_safe [of \<Gamma> t th N L, OF this assms(2)] panic
  have "progress N L (resolver_scheduler t) = Panic" by blast
  with t r show "\<exists>rs'. continues (resolving_turn N L th) rs rs' \<and>
      reached N L \<Gamma> (resolver_scheduler rs') \<and> progress N L (resolver_scheduler rs') = Panic"
    by blast
qed

lemma resolving_output_type_and_panics_witness:
  "\<exists>out rs'. resolving_next script_client example_lib demo_handle (demo_resolver demo_answer) =
      Ret (Inr out, rs') \<and> output_type out = Ty_Ids"
proof -
  have "\<exists>out rs'. resolving_next script_client example_lib demo_handle (demo_resolver demo_answer) =
      Ret (Inr out, rs')"
    by (simp add: resolving_next_def run_simps resolving_turn_def resolver_next_def handle_resolve_def
        progress_def progress_turn_def handle_event_def start_task_def tm_push_back_def
        tm_remove_by_handle_first tm_remove_by_tag_first entry_defs trickle_active_def tm_tasks_def
        tm_put_tasks_def script_defs demo_defs demo_resolver_def demo_handle_def task_simps reboxed_def)
  then show ?thesis
    using resolving_output_type_and_panics [of script_client example_lib "[0 \<mapsto> Ty_Ids]"
        "demo_resolver demo_answer" demo_handle] demo_reached
    by (auto simp: demo_resolver_def demo_handle_def)
qed

text \<open>C15: A BYE ends the wait: when no active task takes it, the resolving task returns the error
  that carries it, and LOGOUT, which takes it, goes on waiting for its completion.\<close>

theorem bye_ends_wait:
  assumes "nc_next N (client_next (resolver_scheduler rs)) = (Inr (StatusReceived (Status_Bye bye)), c)"
  shows "((\<forall>(h, tag, t) \<in> set (active_tasks (resolver_scheduler rs)). \<forall>l. t \<noteq> T_Logout l) \<longrightarrow>
      resolving_next N L th rs = Ret (Inl (Int_Error (UnexpectedByeResponse bye)),
        rs\<lparr>resolver_scheduler := (resolver_scheduler rs)\<lparr>client_next := c\<rparr>\<rparr>)) \<and>
    (\<forall>h tag l. active_tasks (resolver_scheduler rs) = [(h, tag, T_Logout l)] \<longrightarrow>
      resolving_next N L th rs = resolving_next N L th (rs\<lparr>resolver_scheduler :=
        (resolver_scheduler rs)\<lparr>client_next := c,
          active_tasks := [(h, tag, T_Logout (l\<lparr>logout_got_bye := True\<rparr>))]\<rparr>\<rparr>))"
proof (intro conjI allI impI)
  let ?s = "resolver_scheduler rs"
  assume nobody: "\<forall>(h, tag, t) \<in> set (active_tasks ?s). \<forall>l. t \<noteq> T_Logout l"
  have "fst (task_process_bye t bye) \<noteq> None" if "\<forall>l. t \<noteq> T_Logout l" for t
    using that by (cases t) (simp_all add: default_process_def)
  with nobody have "\<forall>e \<in> set (active_tasks (?s\<lparr>client_next := c\<rparr>)).
      fst (task_process_bye (entry_task e) bye) \<noteq> None"
    by (auto simp: entry_task_def)
  from any_bye.trickle_active_ignored [OF this] progress_turn_event [OF assms, of L]
  have "progress N L ?s = Ret (Inr (Ev_Unsolicited (Resp_Status (Status_Bye bye))), ?s\<lparr>client_next := c\<rparr>)"
    by (simp add: handle_event_def progress_Break)
  then show "resolving_next N L th rs = Ret (Inl (Int_Error (UnexpectedByeResponse bye)),
      rs\<lparr>resolver_scheduler := ?s\<lparr>client_next := c\<rparr>\<rparr>)"
    by (simp add: resolving_next_def run_simps resolving_turn_def resolver_next_def)
next
  fix h tag l assume "active_tasks (resolver_scheduler rs) = [(h, tag, T_Logout l)]"
  with progress_turn_event [OF assms, of L]
  have "progress_turn N L (resolver_scheduler rs) = Continue ((resolver_scheduler rs)
      \<lparr>client_next := c, active_tasks := [(h, tag, T_Logout (l\<lparr>logout_got_bye := True\<rparr>))]\<rparr>)"
    by (simp add: handle_event_def any_bye.trickle_active_first_taker logout_task_process_bye_def
        reboxed_def)
  then show "resolving_next N L th rs = resolving_next N L th (rs\<lparr>resolver_scheduler :=
      (resolver_scheduler rs)\<lparr>client_next := c,
        active_tasks := [(h, tag, T_Logout (l\<lparr>logout_got_bye := True\<rparr>))]\<rparr>\<rparr>)"
    by (rule resolving_skip_Continue)
qed

lemma bye_ends_wait_witness:
  "resolving_next script_client example_lib demo_handle
       (demo_resolver [Inr (StatusReceived (Status_Bye 5))]) =
     Ret (Inl (Int_Error (UnexpectedByeResponse 5)), demo_resolver [])"
  using bye_ends_wait [of script_client "demo_resolver [Inr (StatusReceived (Status_Bye 5))]" 5
      "demo_script []" example_lib demo_handle]
  by (simp add: script_defs demo_defs demo_resolver_def)

end
