(* ===== verification/Client_Run.thy ===== *)
theory Client_Run
  imports Client_High Resolver_Theorems
begin

text \<open>
  A task from the client's method to its output, with the I/O in between: what the client of
  imap-next reports is interleaved with writes and reads of the stream.
\<close>

section \<open>Events with I/O in between\<close>

inductive delivers ::
    "('v, 'c, 'g) next_client \<Rightarrow> ('s, 'v) socket \<Rightarrow> 's stream \<times> 'c \<Rightarrow> 'v event list \<Rightarrow> 's stream \<times> 'c \<Rightarrow> bool"
  for N K where
  finished: "delivers N K x [] x"
| reported: "nc_next N c = (Inr e, c1) \<Longrightarrow> delivers N K (st, c1) es y \<Longrightarrow> delivers N K (st, c) (e # es) y"
| transferred: "nc_next N c = (Inl (Int_Io io), c1) \<Longrightarrow>
    stream_io K io st = Ret (Inr got :: ('v scheduler_error, 'v) stream_error + bytes, st1) \<Longrightarrow>
    delivers N K (st1, nc_enqueue_input N got c1) (e # es) y \<Longrightarrow> delivers N K (st, c) (e # es) y"

definition rs_client :: "('v, 'c, 'g) resolver \<Rightarrow> 'c" where
  "rs_client rs = client_next (resolver_scheduler rs)"

definition rs_put_client :: "'c \<Rightarrow> ('v, 'c, 'g) resolver \<Rightarrow> ('v, 'c, 'g) resolver" where
  "rs_put_client c rs = rs\<lparr>resolver_scheduler := (resolver_scheduler rs)\<lparr>client_next := c\<rparr>\<rparr>"

lemma rs_client_simps [simp]:
  "rs_client (rs_put_client c rs) = c" "rs_put_client c (rs_put_client c' rs) = rs_put_client c rs"
  "waiting_tasks (resolver_scheduler (rs_put_client c rs)) = waiting_tasks (resolver_scheduler rs)"
  "active_tasks (resolver_scheduler (rs_put_client c rs)) = active_tasks (resolver_scheduler rs)"
  "tag_generator (resolver_scheduler (rs_put_client c rs)) = tag_generator (resolver_scheduler rs)"
  by (simp_all add: rs_client_def rs_put_client_def)

section \<open>The stream and the resolving task\<close>

lemma stream_next_same:
  "resolving_next N L th rs = resolving_next N L th rs' \<Longrightarrow>
     stream_next K (resolving_machine N L th) (st, rs) = stream_next K (resolving_machine N L th) (st, rs')"
  unfolding stream_next_def
  by (rule rust_loop_same_turn) (simp add: stream_turn_def resolving_machine_def)

lemma stream_next_output:
  "resolving_next N L th rs = Ret (Inr out, rs') \<Longrightarrow>
     stream_next K (resolving_machine N L th) (st, rs) = Ret (Inr out, st, rs')"
  by (simp add: stream_next_def run_simps stream_turn_def resolving_machine_def)

lemma resolving_next_io:
  "nc_next N (rs_client rs) = (Inl (Int_Io io), c) \<Longrightarrow>
     resolving_next N L th rs = Ret (Inl (Int_Io io), rs_put_client c rs)"
  by (simp add: resolving_next_def run_simps resolving_turn_def resolver_next_def rs_client_def
      rs_put_client_def progress_turn_io progress_Break)

lemma stream_next_io:
  fixes N :: "('v, 'c, 'g) next_client"
  assumes "nc_next N (rs_client rs) = (Inl (Int_Io io), c)"
    and "stream_io K io st = Ret (Inr got :: ('v scheduler_error, 'v) stream_error + bytes, st')"
  shows "stream_next K (resolving_machine N L th) (st, rs) =
    stream_next K (resolving_machine N L th) (st', rs_put_client (nc_enqueue_input N got c) rs)"
proof -
  have "resolver_enqueue_input N got (rs_put_client c rs) = rs_put_client (nc_enqueue_input N got c) rs"
    by (simp add: resolver_enqueue_input_def scheduler_enqueue_input_def rs_put_client_def)
  with resolving_next_io [OF assms(1), of L th] assms(2)
  have "stream_turn K (resolving_machine N L th) (st, rs) =
      Continue (st', rs_put_client (nc_enqueue_input N got c) rs)"
    by (simp add: stream_turn_def resolving_machine_def)
  then show ?thesis unfolding stream_next_def by (rule rust_loop_Continue)
qed

lemma stream_until_tagged:
  assumes "delivers N K x (es @ [StatusReceived (Status_Tagged tag body)]) (st', c')"
    and "x = (st, rs_client rs)" and "active_tasks (resolver_scheduler rs) = [(h, tag, t)]"
    and "\<forall>e \<in> set es. between e" and "th_handle th = h" and "th_type th = task_type t"
  shows "stream_next K (resolving_machine N L th) (st, rs) =
    Ret (Inr (task_process_tagged L (task_after L es t) body), st',
      rs\<lparr>resolver_scheduler := (resolver_scheduler rs)\<lparr>client_next := c', active_tasks := []\<rparr>\<rparr>)"
  using assms
proof (induction x "es @ [StatusReceived (Status_Tagged tag body)]" "(st', c')"
    arbitrary: es st rs t rule: delivers.induct)
  case (reported c e c1 st0 es0)
  show ?case
  proof (cases es)
    case Nil
    with reported.hyps reported.prems(1) have "st0 = st'" "c1 = c'" "st0 = st"
      and n: "nc_next N (rs_client rs) = (Inr (StatusReceived (Status_Tagged tag body)), c1)"
      by (auto elim: delivers.cases)
    then have "emits N (client_next (resolver_scheduler rs))
        ([] @ [StatusReceived (Status_Tagged tag body)]) c'"
      by (simp add: rs_client_def)
    from resolving_until_tagged [OF reported.prems(2) _ this reported.prems(4,5), of L] Nil
    show ?thesis using \<open>st0 = st'\<close> \<open>st0 = st\<close> by (simp add: stream_next_output)
  next
    case (Cons e' es')
    with reported.hyps reported.prems have e: "e' = e" "es0 = es' @ [StatusReceived (Status_Tagged tag body)]"
      and n: "nc_next N (client_next (resolver_scheduler rs)) = (Inr e, c1)" and b: "between e"
      and st: "st0 = st" and b': "\<forall>e \<in> set es'. between e"
      by (auto simp: rs_client_def)
    let ?rs = "rs\<lparr>resolver_scheduler := (resolver_scheduler rs)
        \<lparr>client_next := c1, active_tasks := [(h, tag, task_after_event L e t)]\<rparr>\<rparr>"
    have ty: "task_type (task_after_event L e t) = task_type t"
      by (cases e rule: between.cases) simp_all
    have "stream_next K (resolving_machine N L th) (st, rs) = stream_next K (resolving_machine N L th) (st, ?rs)"
      by (rule stream_next_same) (rule resolving_between [OF reported.prems(2) b n])
    also have "\<dots> = Ret (Inr (task_process_tagged L (task_after L es' (task_after_event L e t)) body), st',
        ?rs\<lparr>resolver_scheduler := (resolver_scheduler ?rs)\<lparr>client_next := c', active_tasks := []\<rparr>\<rparr>)"
      using reported.prems(4,5) ty st
      by (intro reported.hyps(3) [OF e(2)] b') (simp_all add: rs_client_def)
    finally show ?thesis using Cons e(1) by (simp add: task_after_def)
  qed
next
  case (transferred c io c1 st0 got st1 e es0)
  then have c: "nc_next N (rs_client rs) = (Inl (Int_Io io), c1)" and "st0 = st" by auto
  let ?rs = "rs_put_client (nc_enqueue_input N got c1) rs"
  from stream_next_io [OF c] transferred.hyps(2) \<open>st0 = st\<close>
  have "stream_next K (resolving_machine N L th) (st, rs) = stream_next K (resolving_machine N L th) (st1, ?rs)"
    by blast
  also have "\<dots> = Ret (Inr (task_process_tagged L (task_after L es t) body), st',
      ?rs\<lparr>resolver_scheduler := (resolver_scheduler ?rs)\<lparr>client_next := c', active_tasks := []\<rparr>\<rparr>)"
    using transferred.prems by (intro transferred.hyps(4) [OF transferred.hyps(5)]) simp_all
  finally show ?case by (simp add: rs_put_client_def)
qed simp

lemma stream_starts_task:
  assumes "delivers N K x (CommandSent h # es) y"
    and "x = (st, rs_client rs)" and "active_tasks (resolver_scheduler rs) = []"
    and "waiting_tasks (resolver_scheduler rs) = w @ [(h, tag, t)]" and "h \<notin> entry_handle ` set w"
  shows "\<exists>st1 c1. delivers N K (st1, c1) es y \<and>
    stream_next K (resolving_machine N L th) (st, rs) = stream_next K (resolving_machine N L th)
      (st1, rs\<lparr>resolver_scheduler := (resolver_scheduler rs)
        \<lparr>client_next := c1, waiting_tasks := w, active_tasks := [(h, tag, t)]\<rparr>\<rparr>)"
  using assms
proof (induction x "CommandSent h # es" y arbitrary: st rs rule: delivers.induct)
  case (reported c c1 st0 es0)
  let ?s = "resolver_scheduler rs"
  from reported have "st0 = st" and n: "nc_next N (client_next ?s) = (Inr (CommandSent h), c1)"
    by (auto simp: rs_client_def)
  have "progress_turn N L ?s = Continue (?s\<lparr>client_next := c1, waiting_tasks := w, active_tasks := [(h, tag, t)]\<rparr>)"
    using progress_turn_event [OF n, of L] reported.prems
      command_sent_starts [of "?s\<lparr>client_next := c1\<rparr>" w h tag t "[]"]
    by (simp add: handle_event_def)
  from stream_next_same [OF resolving_skip_Continue [OF this]] reported.hyps \<open>st0 = st\<close>
  show ?case by blast
next
  case (transferred c io c1 st0 got st1 y0)
  then have c: "nc_next N (rs_client rs) = (Inl (Int_Io io), c1)" and "st0 = st" by auto
  from stream_next_io [OF c] transferred.hyps(2) \<open>st0 = st\<close>
  have step: "stream_next K (resolving_machine N L th) (st, rs) =
      stream_next K (resolving_machine N L th) (st1, rs_put_client (nc_enqueue_input N got c1) rs)"
    by blast
  from transferred.hyps(4) [of st1 "rs_put_client (nc_enqueue_input N got c1) rs"] transferred.prems
  obtain st2 c2 where "delivers N K (st2, c2) es y0"
    and "stream_next K (resolving_machine N L th) (st1, rs_put_client (nc_enqueue_input N got c1) rs) =
      stream_next K (resolving_machine N L th) (st2, (rs_put_client (nc_enqueue_input N got c1) rs)
        \<lparr>resolver_scheduler := (resolver_scheduler (rs_put_client (nc_enqueue_input N got c1) rs))
          \<lparr>client_next := c2, waiting_tasks := w, active_tasks := [(h, tag, t)]\<rparr>\<rparr>)"
    by auto
  with step show ?case by (auto simp: rs_put_client_def)
qed

section \<open>A task that is answered\<close>

text \<open>The task is handed to a client with no command in flight; its command is sent, answered by
  \<open>es\<close> and completed with \<open>body\<close>; the client that is left is \<open>self'\<close>.\<close>

definition answered ::
    "('v, 'c, 'g, 's) env \<Rightarrow> 'v task \<Rightarrow> ('v, 'c, 'g, 's) client \<Rightarrow> 'v event list \<Rightarrow> 'v status_body
       \<Rightarrow> ('v, 'c, 'g, 's) client \<Rightarrow> bool" where
  "answered E task self es body self' \<longleftrightarrow>
     active_tasks (cl_scheduler self) = [] \<and> (\<forall>e \<in> set es. between e) \<and>
     (\<exists>th rs stream c.
        resolver_resolve (env_next E) (env_lib E) task (cs_resolver (cl_state self)) = Ret (th, rs) \<and>
        th_handle th \<notin> entry_handle ` set (waiting_tasks (cl_scheduler self)) \<and>
        delivers (env_next E) (env_socket E) (cl_stream self, rs_client rs)
          (CommandSent (th_handle th) # es @ [StatusReceived
             (Status_Tagged (fst (nc_tag_generate (env_next E) (tag_generator (cl_scheduler self)))) body)])
          (stream, c) \<and>
        self' = cl_put stream (rs\<lparr>resolver_scheduler := (resolver_scheduler rs)
          \<lparr>waiting_tasks := waiting_tasks (cl_scheduler self), client_next := c, active_tasks := []\<rparr>\<rparr>) self)"

lemma client_resolve_answered:
  assumes "answered E task self es body self'"
  shows "client_resolve E task self =
    Ret (Inr (task_process_tagged (env_lib E) (task_after (env_lib E) es task) body), self')"
proof -
  let ?w = "waiting_tasks (cl_scheduler self)"
  let ?tag = "fst (nc_tag_generate (env_next E) (tag_generator (cl_scheduler self)))"
  from assms obtain th rs stream c
    where res: "resolver_resolve (env_next E) (env_lib E) task (cs_resolver (cl_state self)) = Ret (th, rs)"
      and idle: "active_tasks (cl_scheduler self) = []" and es: "\<forall>e \<in> set es. between e"
      and fresh: "th_handle th \<notin> entry_handle ` set ?w"
      and del: "delivers (env_next E) (env_socket E) (cl_stream self, rs_client rs)
        (CommandSent (th_handle th) # es @ [StatusReceived (Status_Tagged ?tag body)]) (stream, c)"
      and self': "self' = cl_put stream (rs\<lparr>resolver_scheduler := (resolver_scheduler rs)
        \<lparr>waiting_tasks := ?w, client_next := c, active_tasks := []\<rparr>\<rparr>) self"
    by (auto simp: answered_def)
  from resolver_resolve_Ret [OF res] idle
  have rs: "active_tasks (resolver_scheduler rs) = []" "th_type th = task_type task"
    "waiting_tasks (resolver_scheduler rs) = ?w @ [(th_handle th, ?tag, task)]"
    by (auto simp: cl_scheduler_def)
  from stream_starts_task [OF del refl rs(1,3) fresh] obtain st1 c1
    where rest: "delivers (env_next E) (env_socket E) (st1, c1)
        (es @ [StatusReceived (Status_Tagged ?tag body)]) (stream, c)"
      and start: "stream_next (env_socket E) (resolving_machine (env_next E) (env_lib E) th) (cl_stream self, rs) =
        stream_next (env_socket E) (resolving_machine (env_next E) (env_lib E) th)
          (st1, rs\<lparr>resolver_scheduler := (resolver_scheduler rs)
            \<lparr>client_next := c1, waiting_tasks := ?w, active_tasks := [(th_handle th, ?tag, task)]\<rparr>\<rparr>)"
    by blast
  let ?rs1 = "rs\<lparr>resolver_scheduler := (resolver_scheduler rs)
    \<lparr>client_next := c1, waiting_tasks := ?w, active_tasks := [(th_handle th, ?tag, task)]\<rparr>\<rparr>"
  have "(st1, c1) = (st1, rs_client ?rs1)" by (simp add: rs_client_def)
  from stream_until_tagged [OF rest this, of "th_handle th" task th "env_lib E"] start res es rs(2) self'
  show ?thesis by (simp add: client_resolve_def)
qed

end
