(* ===== verification/Client_Log.thy ===== *)
theory Client_Log
  imports Client_Run
begin

text \<open>
  Which commands a method of the client issues: a log of the commands handed to imap-next, and
  the proof that resolving a task adds exactly the command of that task to it.
\<close>

section \<open>A log of commands\<close>

text \<open>The bodies of the commands a client has issued, by a log of imap-next's client.\<close>

definition issued_by :: "('c \<Rightarrow> 'v command list) \<Rightarrow> ('v, 'c, 'g, 's) client \<Rightarrow> 'v command_body list" where
  "issued_by log self = map cmd_body (log (rs_client (cs_resolver (cl_state self))))"

text \<open>
  A way to read off a client of imap-next which commands it was given: it grows with
  \<open>enqueue_command\<close> and with nothing else.
\<close>

locale command_log =
  fixes N :: "('v, 'c, 'g) next_client" and log :: "'c \<Rightarrow> 'v command list"
  assumes log_command: "log (snd (nc_enqueue_command N cmd c)) = log c @ [cmd]"
    and log_next: "log (snd (nc_next N c)) = log c"
    and log_input: "log (nc_enqueue_input N b c) = log c"
    and log_auth: "log (snd (nc_set_authenticate_data N d c)) = log c"
    and log_idle: "log (nc_set_idle_done N c) = log c"
begin

lemma log_nextD: "nc_next N c = (r, c') \<Longrightarrow> log c' = log c"
  using log_next [of c] by simp

lemma handle_event_log:
  "handle_event N L e s = Continue s' \<Longrightarrow> log (client_next s') = log (client_next s)"
  using handle_event_client [of N L e s s'] log_auth by metis

lemma handle_event_Break_client:
  "handle_event N L e s = Break r s' \<Longrightarrow> client_next s' = client_next s"
proof (cases e)
  case (AuthenticateContinuationRequestReceived h cont)
  then show "handle_event N L e s = Break r s' \<Longrightarrow> client_next s' = client_next s"
    by (auto simp: handle_event_def Let_def split: option.splits prod.splits sum.splits if_splits)
next
  case (StatusReceived st)
  then show "handle_event N L e s = Break r s' \<Longrightarrow> client_next s' = client_next s"
    by (cases st) (auto simp: handle_event_def trickle_active_def split: option.splits prod.splits)
qed (auto simp: handle_event_def trickle_active_def start_task_def reject_task_def finish_task_def
      split: option.splits prod.splits status.splits)

lemma progress_turn_log:
  "progress_turn N L s = Continue s' \<Longrightarrow> log (client_next s') = log (client_next s)"
  "progress_turn N L s = Break r s' \<Longrightarrow> log (client_next s') = log (client_next s)"
proof -
  obtain x c where n: "nc_next N (client_next s) = (x, c)" by (cases "nc_next N (client_next s)")
  note logged = log_nextD [OF n]
  show "progress_turn N L s = Continue s' \<Longrightarrow> log (client_next s') = log (client_next s)"
  proof (cases x)
    case (Inl i)
    then show "progress_turn N L s = Continue s' \<Longrightarrow> log (client_next s') = log (client_next s)"
      using progress_turn_io [of N s _ c L] progress_turn_error [of N s _ c L] n logged
      by (cases i) (auto split: if_splits)
  next
    case (Inr e)
    then show "progress_turn N L s = Continue s' \<Longrightarrow> log (client_next s') = log (client_next s)"
      using progress_turn_event [of N s e c L] n logged handle_event_log [of L e "s\<lparr>client_next := c\<rparr>" s']
      by simp
  qed
  show "progress_turn N L s = Break r s' \<Longrightarrow> log (client_next s') = log (client_next s)"
  proof (cases x)
    case (Inl i)
    then show "progress_turn N L s = Break r s' \<Longrightarrow> log (client_next s') = log (client_next s)"
      using progress_turn_io [of N s _ c L] progress_turn_error [of N s _ c L] n logged
      by (cases i) (auto split: if_splits)
  next
    case (Inr e)
    then show "progress_turn N L s = Break r s' \<Longrightarrow> log (client_next s') = log (client_next s)"
      using progress_turn_event [of N s e c L] n logged
        handle_event_Break_client [of L e "s\<lparr>client_next := c\<rparr>" r s']
      by simp
  qed
qed

lemma progress_log:
  assumes "progress N L s = Ret (r, s')"
  shows "log (client_next s') = log (client_next s)"
  by (rule rust_loop_rule [where I = "\<lambda>t. log (client_next t) = log (client_next s)"
        and post = "\<lambda>r s'. log (client_next s') = log (client_next s)",
        OF assms [unfolded progress_def] refl])
    (use progress_turn_log in metis)+

lemma resolver_next_log: "resolver_next N L rs = Ret (r, rs') \<Longrightarrow> log (rs_client rs') = log (rs_client rs)"
  using progress_log resolver_next_scheduler by (metis rs_client_def)

lemma resolving_turn_log:
  "resolving_turn N L th rs = Continue rs' \<Longrightarrow> log (rs_client rs') = log (rs_client rs)"
  "resolving_turn N L th rs = Break r rs' \<Longrightarrow> log (rs_client rs') = log (rs_client rs)"
  by (auto simp: resolving_turn_def dest: resolver_next_log split: run.splits prod.splits sum.splits
      scheduler_event.splits option.splits response.splits status.splits)

lemma resolving_next_log:
  assumes "resolving_next N L th rs = Ret (r, rs')"
  shows "log (rs_client rs') = log (rs_client rs)"
  by (rule rust_loop_rule [where I = "\<lambda>t. log (rs_client t) = log (rs_client rs)"
        and post = "\<lambda>r rs'. log (rs_client rs') = log (rs_client rs)",
        OF assms [unfolded resolving_next_def] refl])
    (use resolving_turn_log in metis)+

lemma enqueue_input_log: "log (rs_client (resolver_enqueue_input N b rs)) = log (rs_client rs)"
  by (simp add: resolver_enqueue_input_def scheduler_enqueue_input_def rs_client_def log_input)

lemma stream_turn_log:
  "stream_turn K (resolving_machine N L th) (st, rs) = Continue (st', rs') \<Longrightarrow>
     log (rs_client rs') = log (rs_client rs)"
  "stream_turn K (resolving_machine N L th) (st, rs) = Break r (st', rs') \<Longrightarrow>
     log (rs_client rs') = log (rs_client rs)"
  by (auto simp: stream_turn_def resolving_machine_def enqueue_input_log dest!: resolving_next_log
      split: run.splits prod.splits sum.splits interrupt.splits)

lemma stream_next_log:
  assumes "stream_next K (resolving_machine N L th) (st, rs) = Ret (r, st', rs')"
  shows "log (rs_client rs') = log (rs_client rs)"
proof -
  let ?I = "\<lambda>(st', rs'). log (rs_client rs') = log (rs_client rs)"
  have "?I (st', rs')"
  proof (rule rust_loop_rule [where I = ?I and post = "\<lambda>r x. ?I x", OF assms [unfolded stream_next_def]])
    show "?I x'" if "?I x" "stream_turn K (resolving_machine N L th) x = Continue x'" for x x'
      using that stream_turn_log(1) by (cases x; cases x') fastforce
    show "?I x'" if "?I x" "stream_turn K (resolving_machine N L th) x = Break r x'" for x r x'
      using that stream_turn_log(2) by (cases x; cases x') fastforce
  qed simp
  then show ?thesis by simp
qed

lemma client_resolve_issues:
  assumes "client_resolve E task self = Ret (r, self')" and "env_next E = N"
    and "task_command_body (env_lib E) task = Ret body"
  shows "issued_by log self' = issued_by log self @ [body]"
proof -
  let ?rs = "cs_resolver (cl_state self)"
  from assms(1,2) obtain h rs1 x st rs' where res: "resolver_resolve N (env_lib E) task ?rs = Ret (h, rs1)"
    and str: "stream_next (env_socket E) (resolving_machine N (env_lib E) h) (cl_stream self, rs1)
      = Ret (x, st, rs')"
    and self': "self' = cl_put st rs' self"
    by (auto simp: client_resolve_def split: run.splits)
  from res obtain s1 where enq: "enqueue_task N (env_lib E) task (resolver_scheduler ?rs) = Ret (h, s1)"
    and rs1: "rs1 = ?rs\<lparr>resolver_scheduler := s1\<rparr>"
    by (auto simp: resolver_resolve_def split: run.splits)
  from enqueue_task_Ret [OF enq] assms(3) obtain tag g c
    where "nc_enqueue_command N \<lparr>cmd_tag = tag, cmd_body = body\<rparr> (rs_client ?rs) = (th_handle h, c)"
      and "client_next s1 = c"
    by (auto simp: rs_client_def)
  with log_command [of "\<lparr>cmd_tag = tag, cmd_body = body\<rparr>" "rs_client ?rs"] rs1
  have "log (rs_client rs1) = log (rs_client ?rs) @ [\<lparr>cmd_tag = tag, cmd_body = body\<rparr>]"
    by (simp add: rs_client_def)
  with stream_next_log [OF str] self' show ?thesis by (simp add: issued_by_def cl_put_def)
qed

lemma client_task_issues:
  assumes "client_task E out task self = Ret (r, self')" and "env_next E = N"
    and "task_command_body (env_lib E) task = Ret body"
  shows "issued_by log self' = issued_by log self @ [body]"
proof -
  from assms(1) obtain x where "client_resolve E task self = Ret (x, self')"
    by (auto simp: client_task_def op_bind_def split: run.splits prod.splits sum.splits option.splits)
  from client_resolve_issues [OF this assms(2,3)] show ?thesis .
qed

end

section \<open>Any client, logged\<close>

text \<open>The client of imap-next with a log beside it: it behaves the same.\<close>

definition logged :: "('v, 'c, 'g) next_client \<Rightarrow> ('v, 'c \<times> 'v command list, 'g) next_client" where
  "logged N =
     \<lparr>nc_next = (\<lambda>(c, log). case nc_next N c of (r, c) \<Rightarrow> (r, c, log)),
      nc_enqueue_command = (\<lambda>cmd (c, log). case nc_enqueue_command N cmd c of (h, c) \<Rightarrow> (h, c, log @ [cmd])),
      nc_enqueue_input = (\<lambda>b (c, log). (nc_enqueue_input N b c, log)),
      nc_set_authenticate_data =
        (\<lambda>d (c, log). case nc_set_authenticate_data N d c of (ok, c) \<Rightarrow> (ok, c, log)),
      nc_set_idle_done = (\<lambda>(c, log). (nc_set_idle_done N c, log)),
      nc_tag_new = nc_tag_new N,
      nc_tag_generate = nc_tag_generate N\<rparr>"

interpretation logged: command_log "logged N" snd for N :: "('v, 'c, 'g) next_client"
  by unfold_locales (auto simp: logged_def split: prod.splits)

text \<open>A client that imap-next drives with a log: the environment of the command properties.\<close>

definition logs :: "('v, 'c \<times> 'v command list, 'g, 's) env \<Rightarrow> bool" where
  "logs E \<longleftrightarrow> (\<exists>N. env_next E = logged N)"

lemma client_task_logged:
  assumes "client_task E out task self = Ret (r, self')" and "logs E"
    and "task_command_body (env_lib E) task = Ret body"
  shows "issued_by snd self' = issued_by snd self @ [body]"
  using logged.client_task_issues [OF assms(1) _ assms(3)] assms(2) by (auto simp: logs_def)

interpretation scripted: command_log script_client sc_commands
  by unfold_locales (auto simp: script_client_def split: list.splits)

end
