(* ===== verification/Stream_Theorems.thy ===== *)
theory Stream_Theorems
  imports Stream_IO
begin

text \<open>The properties of the stream, for every socket and every sans-I/O state machine.\<close>

section \<open>Watching changes nothing\<close>

definition unwatched :: "('s \<times> wire_event list) stream \<times> 'f \<times> machine_event list \<Rightarrow> 's stream \<times> 'f" where
  "unwatched x =
     (case x of (self, f, log) \<Rightarrow>
        (\<lparr>stream_socket = fst (stream_socket self), stream_buf = stream_buf self\<rparr>, f))"

definition unwatched_stream :: "('s \<times> wire_event list) stream \<Rightarrow> 's stream" where
  "unwatched_stream self = \<lparr>stream_socket = fst (stream_socket self), stream_buf = stream_buf self\<rparr>"

lemma unwatched_simps [simp]:
  "stream_socket (unwatched_stream self) = fst (stream_socket self)"
  "stream_buf (unwatched_stream self) = stream_buf self"
  "unwatched_stream (self\<lparr>stream_socket := s\<rparr>) = (unwatched_stream self)\<lparr>stream_socket := fst s\<rparr>"
  "unwatched_stream (self\<lparr>stream_buf := b\<rparr>) = (unwatched_stream self)\<lparr>stream_buf := b\<rparr>"
  by (simp_all add: unwatched_stream_def)

lemma unwatched_pair: "unwatched (self, f, log) = (unwatched_stream self, f)"
  by (simp add: unwatched_def unwatched_stream_def)

lemma stream_input_unwatched:
  "stream_input K (unwatched_stream self) = map_end unwatched_stream (stream_input (watched_socket K) self)"
  by (cases "stream_socket self")
    (auto simp: stream_input_def watched_socket_def Let_def split: run.split sum.split prod.split)

lemma stream_output_unwatched:
  "stream_output K b (unwatched_stream self) =
     map_end unwatched_stream (stream_output (watched_socket K) b self)"
  by (cases "stream_socket self")
    (auto simp: stream_output_def watched_socket_def split: run.split sum.split prod.split)

lemma stream_io_unwatched:
  "stream_io K io (unwatched_stream self) = map_end unwatched_stream (stream_io (watched_socket K) io self)"
  by (cases io)
    (auto simp: stream_io_def stream_input_unwatched stream_output_unwatched map_end_def
      split: run.splits sum.splits prod.splits)

lemma stream_turn_unwatched:
  "stream_turn K M (unwatched x) =
     map_flow unwatched (stream_turn (watched_socket K) (watched_machine M) x)"
proof -
  obtain self f log where x: "x = (self, f, log)" by (cases x)
  show ?thesis
  proof (cases "sm_next M f")
    case (Ret p)
    obtain r f' where p: "p = (r, f')" by (cases p)
    show ?thesis
    proof (cases "\<exists>io. r = Inl (Int_Io io)")
      case True
      with Ret p x show ?thesis
        by (auto simp: stream_turn_def unwatched_pair watched_machine_def stream_io_unwatched
            map_flow_def map_end_def split: run.split sum.split prod.split)
    next
      case False
      with Ret p x show ?thesis
        by (auto simp: stream_turn_def unwatched_pair watched_machine_def map_flow_def
            split: sum.split interrupt.split)
    qed
  qed (simp_all add: x stream_turn_def unwatched_pair watched_machine_def map_flow_def)
qed

section \<open>Fidelity\<close>

definition transfer_failed :: "('e, 'v) stream_error + 'ev \<Rightarrow> bool" where
  "transfer_failed r = (case r of Inl Closed \<Rightarrow> True | Inl (Stream_Io e) \<Rightarrow> True | _ \<Rightarrow> False)"

lemma transfer_failed_simps [simp]:
  "transfer_failed (Inl Closed)" "transfer_failed (Inl (Stream_Io e))"
  "\<not> transfer_failed (Inl (Stream_State err))" "\<not> transfer_failed (Inr ev)"
  by (simp_all add: transfer_failed_def)

lemma stream_io_failed: "stream_io K io self = Ret (Inl e, self') \<Longrightarrow> transfer_failed (Inl e)"
  by (auto simp: stream_io_def stream_input_def stream_output_def Let_def
      split: io.splits run.splits sum.splits io_error.splits if_splits)

lemma stream_io_owes:
  assumes "stream_io (watched_socket K) io self = Ret (Inl e, self')" and "wire_of self = transport log"
  shows "transfer_failed (Inl e) \<and>
    (\<exists>owed. transport (log @ io_event io) = wire_of self' @ owed \<and> left_behind (log @ io_event io) owed)"
  using stream_io_wire(2) [OF assms(1) refl, of log] stream_io_failed [OF assms(1)] assms(2)
  by (simp add: transport_def)

lemma stream_turn_wire:
  assumes "wire_of self = transport log"
  shows "stream_turn (watched_socket K) (watched_machine M) (self, f, log) = Continue (self', f', log') \<Longrightarrow>
      wire_of self' = transport log'"
    and "stream_turn (watched_socket K) (watched_machine M) (self, f, log) = Break r (self', f', log') \<Longrightarrow>
      if transfer_failed r then \<exists>owed. transport log' = wire_of self' @ owed \<and> left_behind log' owed
      else transport log' = wire_of self'"
proof -
  have io_log: "(case io of Io_Output b \<Rightarrow> log @ [Emitted b] | Io_NeedMoreInput \<Rightarrow> log) = log @ io_event io"
    for io by (simp add: io_event_def split: io.split)
  have tr: "transport (log @ xs) = wire_of self @ transport xs" for xs
    using assms by (simp add: transport_def)
  show "stream_turn (watched_socket K) (watched_machine M) (self, f, log) = Continue (self', f', log') \<Longrightarrow>
      wire_of self' = transport log'"
    by (auto simp: stream_turn_def watched_machine_def io_log tr
        dest!: stream_io_wire(1) [OF _ refl] split: run.splits sum.splits interrupt.splits)
  show "stream_turn (watched_socket K) (watched_machine M) (self, f, log) = Break r (self', f', log') \<Longrightarrow>
      if transfer_failed r then \<exists>owed. transport log' = wire_of self' @ owed \<and> left_behind log' owed
      else transport log' = wire_of self'"
    using assms
    by (auto simp: stream_turn_def watched_machine_def io_log
        dest!: stream_io_owes split: run.splits sum.splits interrupt.splits)
qed

text \<open>Output and input alternate: of two neighbours in what the machine sees, one is input.\<close>

definition alternates :: "machine_event list \<Rightarrow> bool" where
  "alternates log \<longleftrightarrow> successively (\<lambda>a b. \<exists>got. a = Fed got \<or> b = Fed got) log"

definition may_emit :: "machine_event list \<Rightarrow> bool" where
  "may_emit log \<longleftrightarrow> alternates log \<and> (log = [] \<or> (\<exists>got. last log = Fed got))"

lemma stream_turn_seen:
  "stream_turn K (watched_machine M) (self, f, log) = Continue (self', f', log') \<Longrightarrow>
     \<exists>got. log' = log @ [Fed got] \<or> (\<exists>b. log' = log @ [Emitted b, Fed got])"
  "stream_turn K (watched_machine M) (self, f, log) = Break r (self', f', log') \<Longrightarrow>
     log' = log \<or> (\<exists>b. log' = log @ [Emitted b])"
  by (auto simp: stream_turn_def watched_machine_def
      split: run.splits sum.splits interrupt.splits io.splits)

lemma stream_turn_alternates:
  assumes "may_emit log"
  shows "stream_turn K (watched_machine M) (self, f, log) = Continue (self', f', log') \<Longrightarrow> may_emit log'"
    and "stream_turn K (watched_machine M) (self, f, log) = Break r (self', f', log') \<Longrightarrow> alternates log'"
  using assms
  by (auto simp: may_emit_def alternates_def successively_append_iff dest!: stream_turn_seen)

text \<open>C16: The stream is faithful. Watching the socket and the machine changes neither the result
  nor the states, and shows that everything the machine emits is written whole and in order and
  flushed before anything is read, that what was read reaches the machine whole and in
  order, and that nothing else is transferred. Only a failing read, write or flush, as when the
  wait of an IDLE times out, leaves anything behind: at most the output the machine emitted
  last, or its flush, and nothing that was read. The machine has never more than one
  output to spare: after each the stream waits for input before it asks the machine for more.\<close>

theorem stream_transports_faithfully:
  assumes "stream_next (watched_socket K) (watched_machine M) (self, f, []) = Ret (r, self', f', log)"
    and "wire_of self = []"
  shows "stream_next K M (unwatched_stream self, f) = Ret (r, unwatched_stream self', f') \<and>
    (if transfer_failed r
     then \<exists>owed. transport log = wire_of self' @ owed \<and>
       (owed = [] \<or> (\<exists>before b. log = before @ [Emitted b] \<and> owed \<in> {[Flushed], [Wrote b, Flushed]}))
     else transport log = wire_of self') \<and>
    successively (\<lambda>a b. \<exists>got. a = Fed got \<or> b = Fed got) log"
proof (intro conjI)
  have "stream_next K M (unwatched (self, f, [])) = map_end unwatched
      (stream_next (watched_socket K) (watched_machine M) (self, f, []))"
    unfolding stream_next_def by (rule rust_loop_image) (rule stream_turn_unwatched)
  with assms(1) show "stream_next K M (unwatched_stream self, f) = Ret (r, unwatched_stream self', f')"
    by (simp add: unwatched_pair)
  let ?I = "\<lambda>(self, f, log). wire_of self = transport log \<and> may_emit log"
  let ?post = "\<lambda>r (self', f', log). alternates log \<and> (if transfer_failed r
     then \<exists>owed. transport log = wire_of self' @ owed \<and> left_behind log owed
     else transport log = wire_of self')"
  have "?post r (self', f', log)"
  proof (rule rust_loop_rule [where I = ?I and post = ?post])
    show "rust_loop (stream_turn (watched_socket K) (watched_machine M)) (self, f, []) =
        Ret (r, self', f', log)"
      using assms(1) by (simp add: stream_next_def)
    show "?I (self, f, [])" using assms(2) by (simp add: may_emit_def alternates_def)
    show "?I x'" if "?I x" "stream_turn (watched_socket K) (watched_machine M) x = Continue x'" for x x'
      using that by (cases x; cases x') (auto dest: stream_turn_wire(1) stream_turn_alternates(1))
    show "?post r x'" if "?I x" "stream_turn (watched_socket K) (watched_machine M) x = Break r x'" for x r x'
    proof -
      obtain s1 f1 l1 s2 f2 l2 where x: "x = (s1, f1, l1)" and x': "x' = (s2, f2, l2)"
        by (cases x; cases x')
      from that have "wire_of s1 = transport l1" "may_emit l1"
        and turn: "stream_turn (watched_socket K) (watched_machine M) (s1, f1, l1) = Break r (s2, f2, l2)"
        unfolding x x' by auto
      from stream_turn_wire(2) [OF this(1) turn] stream_turn_alternates(2) [OF this(2) turn] show ?thesis
        unfolding x' prod.case by blast
    qed
  qed
  then show "successively (\<lambda>a b. \<exists>got. a = Fed got \<or> b = Fed got) log"
    and "if transfer_failed r
     then \<exists>owed. transport log = wire_of self' @ owed \<and>
       (owed = [] \<or> (\<exists>before b. log = before @ [Emitted b] \<and> owed \<in> {[Flushed], [Wrote b, Flushed]}))
     else transport log = wire_of self'"
    unfolding left_behind_def alternates_def by blast+
qed

definition script_socket :: "(bytes list, nat) socket" where
  "script_socket =
     \<lparr>sk_read = (\<lambda>n s. case s of [] \<Rightarrow> Ret (Inr [], []) | x # xs \<Rightarrow> Ret (Inr (take n x), xs)),
      sk_write_all = (\<lambda>b s. if b = ''full'' then Ret (Inl (Io_WriteZero 0), s) else Ret (Inr (), s)),
      sk_flush = (\<lambda>s. Ret (Inr (), s))\<rparr>"

definition script_machine :: "((nat interrupt + nat) list, nat, nat) machine" where
  "script_machine =
     \<lparr>sm_next = (\<lambda>f. case f of [] \<Rightarrow> Ret (Inl (Int_Io Io_NeedMoreInput), []) | x # xs \<Rightarrow> Ret (x, xs)),
      sm_enqueue_input = (\<lambda>b f. f)\<rparr>"

lemmas script_io_simps =
  run_simps stream_next_def stream_turn_def stream_io_def stream_output_def stream_input_def
  script_socket_def script_machine_def

lemma stream_transports_faithfully_witness:
  "stream_next script_socket script_machine (stream_new [''ab'', ''c''],
     [Inl (Int_Io (Io_Output ''hi'')), Inl (Int_Io Io_NeedMoreInput), Inr 7]) =
     Ret (Inr 7, \<lparr>stream_socket = [], stream_buf = ''cb'' @ replicate 1022 CHR 0x00\<rparr>, [])"
proof -
  let ?self = "\<lparr>stream_socket = ([''ab'', ''c''], []), stream_buf = replicate 1024 CHR 0x00\<rparr>"
  let ?f = "[Inl (Int_Io (Io_Output ''hi'')), Inl (Int_Io Io_NeedMoreInput), Inr 7]"
  let ?self' = "\<lparr>stream_socket = ([], [Wrote ''hi'', Flushed, Got ''ab'', Got ''c'']),
      stream_buf = ''cb'' @ replicate 1022 CHR 0x00\<rparr>"
  have "stream_next (watched_socket script_socket) (watched_machine script_machine) (?self, ?f, []) =
      Ret (Inr 7, ?self', [], [Emitted ''hi'', Fed ''ab'', Fed ''c''])"
    by (simp add: script_io_simps watched_socket_def watched_machine_def Let_def)
  from stream_transports_faithfully [OF this] show ?thesis
    by (simp add: wire_of_def unwatched_stream_def stream_new_def)
qed

section \<open>Safety\<close>

text \<open>What tokio documents: a read fills in no more than the buffer holds, and nothing panics.\<close>

definition socket_documented :: "('s, 'v) socket \<Rightarrow> bool" where
  "socket_documented K \<longleftrightarrow>
     (\<forall>n s got s'. sk_read K n s = Ret (Inr got, s') \<longrightarrow> length got \<le> n) \<and>
     (\<forall>n s. sk_read K n s \<noteq> Panic) \<and> (\<forall>b s. sk_write_all K b s \<noteq> Panic) \<and>
     (\<forall>s. sk_flush K s \<noteq> Panic)"

lemma stream_input_safe:
  assumes "socket_documented K" and "length (stream_buf self) = 1024"
  shows "stream_input K self \<noteq> Panic"
    and "stream_input K self = Ret (r, self') \<Longrightarrow> length (stream_buf self') = 1024"
  using assms
  by (fastforce simp: socket_documented_def stream_input_def Let_def
      split: run.splits sum.splits prod.splits if_splits)+

lemma stream_output_safe:
  assumes "socket_documented K"
  shows "stream_output K b self \<noteq> Panic"
    and "stream_output K b self = Ret (r, self') \<Longrightarrow> stream_buf self' = stream_buf self"
  using assms by (auto simp: socket_documented_def stream_output_def split: run.splits sum.splits)

lemma stream_output_keeps:
  "stream_output K b self = Ret (r, self') \<Longrightarrow> socket_documented K \<Longrightarrow>
     length (stream_buf self) = 1024 \<Longrightarrow> length (stream_buf self') = 1024"
  by (simp add: stream_output_safe(2))

lemma stream_io_safe:
  assumes "socket_documented K" and "length (stream_buf self) = 1024"
  shows "stream_io K io self \<noteq> Panic"
    and "stream_io K io self = Ret (r, self') \<Longrightarrow> length (stream_buf self') = 1024"
  using assms
  by (auto simp: stream_io_def stream_input_safe(1) stream_output_safe(1) dest!: stream_output_keeps
      intro: stream_input_safe(2) split: io.splits run.splits sum.splits)

text \<open>C17: The stream never panics by itself. When reads return no more bytes than the buffer they
  are given holds, as tokio documents, and neither socket nor machine panics, the slice of the
  buffer is always within bounds, and the buffer keeps its 1024 bytes.\<close>

theorem stream_stays_in_buffer:
  assumes "socket_documented K" and "\<forall>f. sm_next M f \<noteq> Panic"
  shows "stream_next K M (stream_new s, f) \<noteq> Panic \<and>
    (\<forall>r self' f'. stream_next K M (stream_new s, f) = Ret (r, self', f') \<longrightarrow>
      length (stream_buf self') = 1024)"
proof -
  let ?I = "\<lambda>(self, f). length (stream_buf self) = 1024"
  have turn: "stream_turn K M x \<noteq> Panicking \<and> (\<forall>x'. stream_turn K M x = Continue x' \<longrightarrow> ?I x') \<and>
      (\<forall>r x'. stream_turn K M x = Break r x' \<longrightarrow> ?I x')" if "?I x" for x
    using that assms(2) stream_io_safe [OF assms(1)]
    by (cases x) (fastforce simp: stream_turn_def split: run.splits sum.splits interrupt.splits prod.splits)
  have start: "?I (stream_new s, f)" by (simp add: stream_new_def)
  have "stream_next K M (stream_new s, f) \<noteq> Panic"
    unfolding stream_next_def by (rule rust_loop_safe [where I = ?I]) (use start turn in blast)+
  moreover have "?I x" if "stream_next K M (stream_new s, f) = Ret (r, x)" for r x
    by (rule rust_loop_rule [where I = ?I and post = "\<lambda>r x. ?I x", OF that [unfolded stream_next_def] start])
      (use turn in blast)+
  ultimately show ?thesis by blast
qed

lemma stream_stays_in_buffer_witness:
  "stream_next script_socket script_machine (stream_new [''ab''], [Inl (Int_Io (Io_Output ''full''))]) \<noteq> Panic"
proof -
  have "socket_documented script_socket" and "\<forall>f. sm_next script_machine f \<noteq> Panic"
    by (auto simp: socket_documented_def script_socket_def script_machine_def split: list.splits)
  from stream_stays_in_buffer [OF this] show ?thesis by blast
qed

end
