(* ===== verification/Client_Theorems.thy ===== *)
theory Client_Theorems
  imports Client_Log Stream_Theorems
begin

text \<open>The properties of the client's methods.\<close>

section \<open>Methods that return\<close>

lemma op_bind_Ret:
  assumes "op_bind m f self = Ret (r, self')"
  obtains (raised) e where "m self = Ret (Inl e, self')" "r = Inl e"
  | (continued) a s1 where "m self = Ret (Inr a, s1)" "f a s1 = Ret (r, self')"
  using assms by (auto simp: op_bind_def split: run.splits sum.splits prod.splits)

lemma op_bind_Ok:
  assumes "op_bind m f self = Ret (Inr b, self')"
  obtains a s1 where "m self = Ret (Inr a, s1)" "f a s1 = Ret (Inr b, self')"
  using assms by (auto elim: op_bind_Ret)

lemma op_try_Inr [simp]: "op_try (Inr a) = op_return a" and op_try_Inl [simp]: "op_try (Inl e) = op_throw (Validation e)"
  by (simp_all add: op_try_def)

lemma op_try_Ok: "op_try r self = Ret (Inr a, self') \<longleftrightarrow> r = Inr a \<and> self' = self"
  by (auto simp: op_try_def op_return_def op_throw_def split: sum.splits)

lemma op_return_Ret [simp]: "op_return a self = Ret (r, self') \<longleftrightarrow> r = Inr a \<and> self' = self"
  by (auto simp: op_return_def)

lemma op_throw_Ret [simp]: "op_throw e self = Ret (r, self') \<longleftrightarrow> r = Inl e \<and> self' = self"
  by (auto simp: op_throw_def)

section \<open>The command of each method\<close>

lemma copy_issues:
  "client_do_copy E sequence_set (Inr mbox) uid self = Ret (r, self') \<Longrightarrow> logs E \<Longrightarrow>
     issued_by snd self' = issued_by snd self @ [Cmd_Copy sequence_set mbox uid]"
  unfolding client_do_copy_def op_try_Inr op_bind_return
  by (erule client_task_logged)
    (simp_all add: task_simps copy_task_new_def copy_task_with_uid_def copy_task_set_uid_def)

lemma silent_store_issues:
  "client_do_silent_store E sequence_set kind flags uid self = Ret (r, self') \<Longrightarrow> logs E \<Longrightarrow>
     issued_by snd self' = issued_by snd self @ [Cmd_Store [] sequence_set kind Silent flags uid]"
  unfolding client_do_silent_store_def
  by (erule client_task_logged)
    (simp_all add: task_simps store_task_new_def store_task_with_uid_def store_task_set_uid_def
      store_task_silent_def)

lemma expunge_issues:
  "client_expunge E self = Ret (r, self') \<Longrightarrow> logs E \<Longrightarrow>
     issued_by snd self' = issued_by snd self @ [Cmd_Expunge]"
  unfolding client_expunge_def by (erule client_task_logged) (simp_all add: task_simps)

lemma search_issues:
  "client_do_search E keys uid self = Ret (r, self') \<Longrightarrow> logs E \<Longrightarrow>
     issued_by snd self' = issued_by snd self @ [Cmd_Search None (if keys = [] then [Key_All] else keys) uid]"
  unfolding client_do_search_def Let_def
  by (erule client_task_logged)
    (simp_all add: task_simps search_task_new_def search_task_default_def search_task_with_uid_def
      search_task_set_uid_def)

lemma sort_issues:
  "client_do_sort E criteria keys uid self = Ret (r, self') \<Longrightarrow> logs E \<Longrightarrow>
     issued_by snd self' = issued_by snd self @
       [Cmd_Sort (if criteria = [] then [\<lparr>sc_reverse = True, sc_key = Sort_Date\<rparr>] else criteria)
          (charset_utf8 (env_lib E)) (if keys = [] then [Key_All] else keys) uid]"
  unfolding client_do_sort_def Let_def
  by (erule client_task_logged)
    (simp_all add: task_simps sort_task_new_def sort_task_with_uid_def sort_task_set_uid_def)

lemma select_issues:
  "client_select E (Inr mbox) self = Ret (r, self') \<Longrightarrow> logs E \<Longrightarrow>
     issued_by snd self' = issued_by snd self @
       [Cmd_Select mbox (if cs_condstore_enabled (cl_state self) then [Param_CondStore] else [])]"
  unfolding client_select_def op_try_Inr op_bind_return op_state_def
  by (erule client_task_logged)
    (simp_all add: task_simps select_task_new_def select_task_with_condstore_def Let_def)

lemma noop_issues:
  "post_append_noop E self = Ret (r, self') \<Longrightarrow> logs E \<Longrightarrow>
     issued_by snd self' = issued_by snd self @ [Cmd_Noop]"
  unfolding post_append_noop_def by (erule client_task_logged) (simp_all add: task_simps)

lemma check_issues:
  "post_append_check E self = Ret (r, self') \<Longrightarrow> logs E \<Longrightarrow>
     issued_by snd self' = issued_by snd self @ [Cmd_Check]"
  unfolding post_append_check_def by (erule client_task_logged) (simp_all add: task_simps)

lemma append_issues:
  "client_append E (Inr mbox) flags message self = Ret (Inr a, self') \<Longrightarrow> logs E \<Longrightarrow>
     \<exists>msg. to_static_literal (env_lib E) message (ext_binary_supported (cl_state self)) = Inr msg \<and>
       issued_by snd self' = issued_by snd self @ [Cmd_Append mbox flags None msg]"
proof -
  assume "client_append E (Inr mbox) flags message self = Ret (Inr a, self')" and log: "logs E"
  then obtain msg where msg: "to_static_literal (env_lib E) message (ext_binary_supported (cl_state self)) = Inr msg"
    and "client_task E as_seq (T_Append (append_task_with_flags flags (append_task_new mbox msg))) self
      = Ret (Inr a, self')"
    by (auto simp: client_append_def op_state_def op_try_Ok elim: op_bind_Ok)
  from client_task_logged [OF this(2) log] msg show ?thesis
    by (simp add: task_simps append_task_new_def append_task_with_flags_def append_task_set_flags_def)
qed

lemma fetch_issues:
  assumes "client_do_fetch E sequence_set items uid modifiers self = Ret (r, self')" and "logs E"
  shows "issued_by snd self' = issued_by snd self @
    [Cmd_Fetch (case modifiers of Some m \<Rightarrow> m | None \<Rightarrow> []) sequence_set
       (Item_Names (if uid then macro_names (env_lib E) items @ [Name_Uid] else macro_names (env_lib E) items))
       uid]"
proof -
  obtain x where "client_task E as_item_map (T_Fetch
      (let names = macro_names (env_lib E) items;
           task = fetch_task_with_uid uid (fetch_task_new sequence_set
             (Item_Names (if uid then names @ [Name_Uid] else names)))
       in case modifiers of Some m \<Rightarrow> fetch_task_set_modifiers m task | None \<Rightarrow> task)) self = Ret (x, self')"
    using assms(1) unfolding client_do_fetch_def Let_def by (auto elim: op_bind_Ret)
  from client_task_logged [OF this assms(2)] show ?thesis
    by (simp add: task_simps fetch_task_new_def fetch_task_with_uid_def fetch_task_set_uid_def
        fetch_task_set_modifiers_def Let_def split: option.split)
qed

section \<open>A client in use\<close>

text \<open>A closed example: a client whose server has the given capabilities and reports the given events.\<close>

definition demo_env :: "(nat, nat script \<times> nat command list, nat, bytes list) env" where
  "demo_env = \<lparr>env_next = logged script_client, env_lib = example_lib, env_socket = script_socket\<rparr>"

definition demo_client ::
    "nat capability list \<Rightarrow> (nat next_error interrupt + nat event) list
       \<Rightarrow> (nat, nat script \<times> nat command list, nat, bytes list) client" where
  "demo_client caps rs =
     \<lparr>cl_host = ''localhost'',
      cl_state = (client_state_new (logged script_client) (script rs, []))\<lparr>cs_capabilities := caps\<rparr>,
      cl_stream = stream_new []\<rparr>"

definition no_body :: "nat status_body" where
  "no_body = \<lparr>sb_kind = Kind_No, sb_code = None, sb_text = 0\<rparr>"

lemma demo_logs [simp]: "logs demo_env"
  by (auto simp: logs_def demo_env_def)

lemmas demo_client_simps =
  demo_env_def demo_client_def client_state_new_def resolver_new_def scheduler_new_def stream_new_def
  op_bind_def op_return_def op_throw_def op_state_def op_modify_def op_simps client_task_def client_resolve_def
  resolver_resolve_def enqueue_task_def tm_push_back_def logged_def script_defs decimal_0
  stream_next_def resolving_machine_def stream_turn_def resolving_next_def resolving_turn_def
  resolver_next_def handle_resolve_def progress_def progress_turn_def handle_event_def start_task_def
  tm_remove_by_handle_first tm_remove_by_tag_first entry_defs trickle_active_def tm_tasks_def
  tm_put_tasks_def task_simps reboxed_def no_body_def run_simps cl_put_def

lemmas demo_task_simps =
  copy_task_new_def copy_task_with_uid_def copy_task_set_uid_def select_task_new_def
  select_task_with_condstore_def append_task_new_def append_task_with_flags_def append_task_set_flags_def
  search_task_new_def search_task_default_def search_task_with_uid_def search_task_set_uid_def
  sort_task_new_def sort_task_with_uid_def sort_task_set_uid_def fetch_task_new_def
  fetch_task_with_uid_def fetch_task_set_uid_def login_task_new_def capability_task_new_def
  to_static_literal_def op_try_def select_data_default_def

section \<open>MOVE\<close>

text \<open>C27: Moving messages without the MOVE extension. The fallback issues COPY, then a silent STORE of the
  deleted flag, then EXPUNGE, and stops at the first one that does not complete with OK: messages are
  flagged only after they were copied, and expunged only after they were flagged. Its error is that
  of the step it stopped at, and it succeeds exactly when all three did. The EXPUNGE names no messages, so it removes whatever else was
  already flagged in the mailbox.\<close>

theorem move_fallback_commands:
  assumes "logs E" and "\<not> ext_move_supported (cl_state self)"
    and "client_do_move_or_fallback E sequence_set (Inr mbox) uid self = Ret (r, self')"
  shows "\<exists>k \<in> {1, 2, 3}.
    issued_by snd self' = issued_by snd self @
      take k [Cmd_Copy sequence_set mbox uid,
        Cmd_Store [] sequence_set Store_Add Silent [Flag_Deleted] uid, Cmd_Expunge] \<and>
    (k = 1 \<longrightarrow> (\<exists>e. client_do_copy E sequence_set (Inr mbox) uid self = Ret (Inl e, self') \<and> r = Inl e)) \<and>
    (k = 2 \<longrightarrow> (\<exists>s1 e. client_do_copy E sequence_set (Inr mbox) uid self = Ret (Inr (), s1) \<and>
       client_do_silent_store E sequence_set Store_Add [Flag_Deleted] uid s1 = Ret (Inl e, self') \<and> r = Inl e)) \<and>
    (k = 3 \<longrightarrow> (\<exists>s1 s2 x. client_do_copy E sequence_set (Inr mbox) uid self = Ret (Inr (), s1) \<and>
       client_do_silent_store E sequence_set Store_Add [Flag_Deleted] uid s1 = Ret (Inr (), s2) \<and>
       client_expunge E s2 = Ret (x, self') \<and> r = map_sum id (\<lambda>_. ()) x))"
proof -
  from assms(2,3) have "op_bind (client_do_copy E sequence_set (Inr mbox) uid) (\<lambda>_.
      op_bind (client_do_silent_store E sequence_set Store_Add [Flag_Deleted] uid) (\<lambda>_.
      op_bind (client_expunge E) (\<lambda>_. op_return ()))) self = Ret (r, self')"
    by (simp add: client_do_move_or_fallback_def op_state_def)
  then show ?thesis
  proof (cases rule: op_bind_Ret)
    case (raised e)
    with copy_issues [OF raised(1) assms(1)] show ?thesis by (intro bexI [of _ 1]) auto
  next
    case (continued a s1)
    note copied = copy_issues [OF continued(1) assms(1)] continued(1)
    from continued(2) show ?thesis
    proof (cases rule: op_bind_Ret)
      case (raised e)
      with copied silent_store_issues [OF raised(1) assms(1)] show ?thesis
        by (intro bexI [of _ 2]) auto
    next
      case (continued b s2)
      note stored = silent_store_issues [OF continued(1) assms(1)] continued(1)
      from continued(2) obtain x where x: "client_expunge E s2 = Ret (x, self')" "r = map_sum id (\<lambda>_. ()) x"
        by (auto elim: op_bind_Ret)
      from expunge_issues [OF x(1) assms(1)] x copied stored show ?thesis
        by (intro bexI [of _ 3]) auto
    qed
  qed
qed

lemma move_fallback_commands_witness:
  "\<exists>self'. client_do_move_or_fallback demo_env 5 (Inr 6) True
      (demo_client [] [Inr (CommandSent 0), Inr (StatusReceived (Status_Tagged ''0'' no_body))])
    = Ret (Inl (ResolveTask (UnexpectedNoResponse no_body)), self') \<and>
    issued_by snd self' = [Cmd_Copy 5 6 True]"
proof -
  let ?self = "demo_client [] [Inr (CommandSent 0), Inr (StatusReceived (Status_Tagged ''0'' no_body))]"
  have failed: "client_do_copy demo_env 5 (Inr 6) True ?self \<noteq> Ret (Inr (), s1)" for s1
    by (simp add: client_do_copy_def demo_client_simps demo_task_simps)
  have "\<exists>self'. client_do_move_or_fallback demo_env 5 (Inr 6) True ?self
      = Ret (Inl (ResolveTask (UnexpectedNoResponse no_body)), self')"
    by (simp add: client_do_move_or_fallback_def ext_supported_iff client_do_copy_def demo_client_simps
        demo_task_simps)
  then obtain self' where run: "client_do_move_or_fallback demo_env 5 (Inr 6) True ?self
      = Ret (Inl (ResolveTask (UnexpectedNoResponse no_body)), self')"
    by blast
  have unsupported: "\<not> ext_move_supported (cl_state ?self)" and "issued_by snd ?self = []"
    by (simp_all add: demo_client_simps ext_supported_iff issued_by_def rs_client_def)
  with move_fallback_commands [OF demo_logs unsupported run] failed
  have "issued_by snd self' = [Cmd_Copy 5 6 True]" by auto
  with run show ?thesis by blast
qed

section \<open>APPEND\<close>

text \<open>
  The number of messages the fallback searches for: the one that was announced during the APPEND, else
  the one announced during a NOOP, else during a CHECK. \<open>asked\<close> are the commands it takes.
\<close>

definition number_found ::
    "('v, 'c, 'g, 's) env \<Rightarrow> u32 option \<Rightarrow> ('v, 'c, 'g, 's) client \<Rightarrow> 'v command_body list \<Rightarrow> u32 option
       \<Rightarrow> ('v, 'c, 'g, 's) client \<Rightarrow> bool" where
  "number_found E announced s asked number s' \<longleftrightarrow>
     (case announced of
        Some n \<Rightarrow> asked = [] \<and> number = Some n \<and> s' = s
      | None \<Rightarrow> \<exists>a t. post_append_noop E s = Ret (Inr a, t) \<and>
          (case a of
             Some n \<Rightarrow> asked = [Cmd_Noop] \<and> number = Some n \<and> s' = t
           | None \<Rightarrow> asked = [Cmd_Noop, Cmd_Check] \<and> post_append_check E t = Ret (Inr number, s')))"

definition ask_number :: "('v, 'c, 'g, 's) env \<Rightarrow> u32 option \<Rightarrow> ('v, 'c, 'g, 's, u32) op" where
  "ask_number E announced =
     (case announced of Some seq \<Rightarrow> op_return seq
      | None \<Rightarrow> op_bind (post_append_noop E) (\<lambda>seq.
          case seq of Some seq \<Rightarrow> op_return seq
          | None \<Rightarrow> op_bind (post_append_check E) (\<lambda>seq.
              case seq of Some seq \<Rightarrow> op_return seq
              | None \<Rightarrow> op_throw (ResolveTask (MissingData ''APPENDUID: seq'')))))"

lemma ask_number_found:
  "number_found E announced s asked number s' \<Longrightarrow>
     ask_number E announced s =
       Ret (case number of Some n \<Rightarrow> Inr n | None \<Rightarrow> Inl (ResolveTask (MissingData ''APPENDUID: seq'')), s')"
  by (auto simp: number_found_def ask_number_def op_bind_def op_return_def op_throw_def split: option.splits)

lemma ask_number_Ok:
  assumes "ask_number E announced s = Ret (Inr n, s')"
  shows "\<exists>asked. number_found E announced s asked (Some n) s'"
proof (cases announced)
  case None
  with assms obtain a t where a: "post_append_noop E s = Ret (Inr a, t)"
    and rest: "(case a of Some seq \<Rightarrow> op_return seq
      | None \<Rightarrow> op_bind (post_append_check E) (\<lambda>seq.
          case seq of Some seq \<Rightarrow> op_return seq
          | None \<Rightarrow> op_throw (ResolveTask (MissingData ''APPENDUID: seq'')))) t = Ret (Inr n, s')"
    unfolding ask_number_def by (auto elim: op_bind_Ok)
  from rest have "case a of Some m \<Rightarrow> m = n \<and> s' = t | None \<Rightarrow> post_append_check E t = Ret (Inr (Some n), s')"
    by (auto elim!: op_bind_Ok split: option.splits)
  with None a show ?thesis by (cases a) (auto simp: number_found_def)
qed (use assms in \<open>auto simp: number_found_def ask_number_def\<close>)

lemma number_found_issues:
  "number_found E announced s asked number s' \<Longrightarrow> logs E \<Longrightarrow> issued_by snd s' = issued_by snd s @ asked"
  by (auto simp: number_found_def dest!: noop_issues check_issues split: option.splits)

lemma appenduid_fallback_steps:
  assumes "\<not> ext_uidplus_supported (cl_state self)"
  shows "appenduid_or_fallback E mailbox flags message self =
    op_bind (client_select E mailbox) (\<lambda>_.
    op_bind (op_bind (client_append E mailbox flags message) (ask_number E)) (\<lambda>seq.
    op_bind (op_unwrap (seq_set_of_u32 (env_lib E) seq)) (\<lambda>seq_set.
    op_bind (client_search E [Key_SequenceSet seq_set]) (\<lambda>ids.
    op_return (case ids of [] \<Rightarrow> None | uid # _ \<Rightarrow> Some uid))))) self"
  using assms by (simp add: appenduid_or_fallback_def op_state_def ask_number_def [abs_def])

lemma appenduid_fallback_Ok:
  assumes "\<not> ext_uidplus_supported (cl_state self)"
  shows "appenduid_or_fallback E mailbox flags message self = Ret (Inr uid, self') \<longleftrightarrow>
    (\<exists>sel s1 announced s2 asked number s3 seq_set ids.
      client_select E mailbox self = Ret (Inr sel, s1) \<and>
      client_append E mailbox flags message s1 = Ret (Inr announced, s2) \<and>
      number_found E announced s2 asked (Some number) s3 \<and>
      seq_set_of_u32 (env_lib E) number = Inr seq_set \<and>
      client_search E [Key_SequenceSet seq_set] s3 = Ret (Inr ids, self') \<and>
      uid = (case ids of [] \<Rightarrow> None | n # _ \<Rightarrow> Some n))"
    (is "_ \<longleftrightarrow> ?steps")
proof
  assume "appenduid_or_fallback E mailbox flags message self = Ret (Inr uid, self')"
  then show ?steps
    unfolding appenduid_fallback_steps [OF assms]
    by (elim op_bind_Ok) (fastforce simp: op_unwrap_def dest!: ask_number_Ok split: sum.splits)
next
  assume ?steps
  then show "appenduid_or_fallback E mailbox flags message self = Ret (Inr uid, self')"
    by (auto simp: appenduid_fallback_steps [OF assms] op_bind_def op_return_def op_unwrap_def
        dest!: ask_number_found)
qed

text \<open>C28: Appending without UIDPLUS. The fallback succeeds exactly when these steps do, one after the
  other: it selects the mailbox; it appends the message, as a \<open>literal8\<close> when BINARY is supported; only when no
  number of messages was announced during the APPEND it asks with NOOP, and only when none was
  announced then either, with CHECK; it turns this very number into a sequence set and issues a
  SEARCH for it. Nothing else is issued, and the result is the first id of that answer. The
  SEARCH is not a UID SEARCH, so what is returned as the message's UID is a sequence number. When even
  CHECK announces no number it fails with \<open>MissingData\<close> and searches for nothing. The number is
  unwrapped into a sequence set: one that imap-types refuses, which is 0, as when another
  session empties the mailbox, makes the client panic.\<close>

theorem appenduid_fallback_commands:
  assumes "logs E" and "\<not> ext_uidplus_supported (cl_state self)"
  shows "(appenduid_or_fallback E (Inr mbox) flags message self = Ret (Inr uid, self') \<longleftrightarrow>
     (\<exists>sel s1 announced s2 asked number s3 seq_set ids msg.
       client_select E (Inr mbox) self = Ret (Inr sel, s1) \<and>
       client_append E (Inr mbox) flags message s1 = Ret (Inr announced, s2) \<and>
       number_found E announced s2 asked (Some number) s3 \<and>
       seq_set_of_u32 (env_lib E) number = Inr seq_set \<and>
       client_search E [Key_SequenceSet seq_set] s3 = Ret (Inr ids, self') \<and>
       uid = (case ids of [] \<Rightarrow> None | n # _ \<Rightarrow> Some n) \<and>
       msg = (if ext_binary_supported (cl_state s1) then Lit_Literal8 message Mode_Sync else Lit_Literal message) \<and>
       issued_by snd self' = issued_by snd self @
         [Cmd_Select mbox (if cs_condstore_enabled (cl_state self) then [Param_CondStore] else []),
          Cmd_Append mbox flags None msg] @ asked @ [Cmd_Search None [Key_SequenceSet seq_set] False])) \<and>
    (\<forall>sel s1 announced s2 asked number s3. client_select E (Inr mbox) self = Ret (Inr sel, s1) \<longrightarrow>
       client_append E (Inr mbox) flags message s1 = Ret (Inr announced, s2) \<longrightarrow>
       number_found E announced s2 asked number s3 \<longrightarrow>
       (case number of
          None \<Rightarrow> appenduid_or_fallback E (Inr mbox) flags message self =
            Ret (Inl (ResolveTask (MissingData ''APPENDUID: seq'')), s3)
        | Some n \<Rightarrow> \<forall>err. seq_set_of_u32 (env_lib E) n = Inl err \<longrightarrow>
            appenduid_or_fallback E (Inr mbox) flags message self = Panic))"
proof (intro conjI allI impI)
  show "appenduid_or_fallback E (Inr mbox) flags message self = Ret (Inr uid, self') \<longleftrightarrow>
     (\<exists>sel s1 announced s2 asked number s3 seq_set ids msg.
       client_select E (Inr mbox) self = Ret (Inr sel, s1) \<and>
       client_append E (Inr mbox) flags message s1 = Ret (Inr announced, s2) \<and>
       number_found E announced s2 asked (Some number) s3 \<and>
       seq_set_of_u32 (env_lib E) number = Inr seq_set \<and>
       client_search E [Key_SequenceSet seq_set] s3 = Ret (Inr ids, self') \<and>
       uid = (case ids of [] \<Rightarrow> None | n # _ \<Rightarrow> Some n) \<and>
       msg = (if ext_binary_supported (cl_state s1) then Lit_Literal8 message Mode_Sync else Lit_Literal message) \<and>
       issued_by snd self' = issued_by snd self @
         [Cmd_Select mbox (if cs_condstore_enabled (cl_state self) then [Param_CondStore] else []),
          Cmd_Append mbox flags None msg] @ asked @ [Cmd_Search None [Key_SequenceSet seq_set] False])"
    (is "?ok \<longleftrightarrow> ?steps")
  proof
    assume ?ok
    then obtain sel s1 announced s2 asked number s3 seq_set ids
      where sel: "client_select E (Inr mbox) self = Ret (Inr sel, s1)"
        and app: "client_append E (Inr mbox) flags message s1 = Ret (Inr announced, s2)"
        and num: "number_found E announced s2 asked (Some number) s3"
        and set: "seq_set_of_u32 (env_lib E) number = Inr seq_set"
        and ids: "client_search E [Key_SequenceSet seq_set] s3 = Ret (Inr ids, self')"
        and uid: "uid = (case ids of [] \<Rightarrow> None | n # _ \<Rightarrow> Some n)"
      unfolding appenduid_fallback_Ok [OF assms(2)] by blast
    from append_issues [OF app assms(1)] obtain msg
      where msg: "msg = (if ext_binary_supported (cl_state s1) then Lit_Literal8 message Mode_Sync
            else Lit_Literal message)"
        and "issued_by snd s2 = issued_by snd s1 @ [Cmd_Append mbox flags None msg]"
      by (auto simp: to_static_literal_def split: if_splits sum.splits)
    with select_issues [OF sel assms(1)] number_found_issues [OF num assms(1)]
      search_issues [OF ids [unfolded client_search_def] assms(1)]
    have "issued_by snd self' = issued_by snd self @
       [Cmd_Select mbox (if cs_condstore_enabled (cl_state self) then [Param_CondStore] else []),
        Cmd_Append mbox flags None msg] @ asked @ [Cmd_Search None [Key_SequenceSet seq_set] False]"
      by simp
    with sel app num set ids uid msg show ?steps by blast
  next
    assume ?steps
    then show ?ok unfolding appenduid_fallback_Ok [OF assms(2)] by blast
  qed
next
  fix sel s1 announced s2 asked number s3
  assume "client_select E (Inr mbox) self = Ret (Inr sel, s1)"
    and "client_append E (Inr mbox) flags message s1 = Ret (Inr announced, s2)"
    and "number_found E announced s2 asked number s3"
  then show "case number of
      None \<Rightarrow> appenduid_or_fallback E (Inr mbox) flags message self =
        Ret (Inl (ResolveTask (MissingData ''APPENDUID: seq'')), s3)
    | Some n \<Rightarrow> \<forall>err. seq_set_of_u32 (env_lib E) n = Inl err \<longrightarrow>
        appenduid_or_fallback E (Inr mbox) flags message self = Panic"
    by (auto simp: appenduid_fallback_steps [OF assms(2)] op_bind_def op_unwrap_def
        dest!: ask_number_found split: option.split)
qed

text \<open>The answers of a server without UIDPLUS, which announces three messages after the APPEND.\<close>

definition demo_append :: "(nat next_error interrupt + nat event) list" where
  "demo_append =
     [Inr (CommandSent 0), Inr (StatusReceived (Status_Tagged ''0'' (ok_body None 0))),
      Inr (CommandSent 1), Inr (DataReceived (Data_Exists 3)),
      Inr (StatusReceived (Status_Tagged ''1'' (ok_body None 0))),
      Inr (CommandSent 2), Inr (DataReceived (Data_Search [Abs_nonzero 3] 0)),
      Inr (StatusReceived (Status_Tagged ''2'' (ok_body None 0)))]"

text \<open>The same, but the mailbox is emptied while the message is appended.\<close>

definition demo_append_emptied :: "(nat next_error interrupt + nat event) list" where
  "demo_append_emptied =
     [Inr (CommandSent 0), Inr (StatusReceived (Status_Tagged ''0'' (ok_body None 0))),
      Inr (CommandSent 1), Inr (DataReceived (Data_Exists 3)), Inr (DataReceived (Data_Exists 0)),
      Inr (StatusReceived (Status_Tagged ''1'' (ok_body None 0)))]"

lemma decimal_1: "decimal (Suc 0) = ''1''" and decimal_2: "decimal (Suc (Suc 0)) = ''2''"
  by code_simp+

lemma appenduid_fallback_commands_witness:
  "(\<exists>self'. appenduid_or_fallback demo_env (Inr 6) [] ''hi'' (demo_client [] demo_append)
      = Ret (Inr (Some (Abs_nonzero 3)), self') \<and>
    issued_by snd self' = [Cmd_Select 6 [], Cmd_Append 6 [] None (Lit_Literal ''hi''),
      Cmd_Search None [Key_SequenceSet 3] False]) \<and>
   appenduid_or_fallback demo_env (Inr 6) [] ''hi'' (demo_client [] demo_append_emptied) = Panic"
proof -
  let ?self = "demo_client [] demo_append"
  note run = ext_supported_iff client_select_def client_append_def demo_client_simps demo_task_simps
    example_lib_def Let_def decimal_1 decimal_2
  note main = appenduid_fallback_commands [OF demo_logs, where mbox = 6 and flags = "[]" and message = "''hi''"]
  have no_uidplus: "\<not> ext_uidplus_supported (cl_state (demo_client [] rs))" for rs
    by (simp add: demo_client_def ext_supported_iff)
  have announced: "client_select demo_env (Inr 6) ?self = Ret (Inr sel, s1) \<Longrightarrow>
      client_append demo_env (Inr 6) [] ''hi'' s1 = Ret (Inr a, s2) \<Longrightarrow>
      a = Some 3 \<and> \<not> ext_binary_supported (cl_state s1)" for sel s1 a s2
    by (auto simp: demo_append_def run)
  obtain self' where ok: "appenduid_or_fallback demo_env (Inr 6) [] ''hi'' ?self
      = Ret (Inr (Some (Abs_nonzero 3)), self')"
    by (simp add: appenduid_or_fallback_def client_search_def client_do_search_def demo_append_def
        op_unwrap_def run)
  have "issued_by snd ?self = []" "\<not> cs_condstore_enabled (cl_state ?self)"
    "seq_set_of_u32 (env_lib demo_env) 3 = Inr 3"
    by (simp_all add: demo_client_simps issued_by_def rs_client_def example_lib_def)
  with main [OF no_uidplus, THEN conjunct1, THEN iffD1, OF ok] announced
  have "issued_by snd self' = [Cmd_Select 6 [], Cmd_Append 6 [] None (Lit_Literal ''hi''),
      Cmd_Search None [Key_SequenceSet 3] False]"
    by (fastforce simp: number_found_def)
  moreover have "\<exists>sel s1 s2. client_select demo_env (Inr 6) (demo_client [] demo_append_emptied) = Ret (Inr sel, s1) \<and>
      client_append demo_env (Inr 6) [] ''hi'' s1 = Ret (Inr (Some 0), s2)"
    by (simp add: demo_append_emptied_def run)
  then have "appenduid_or_fallback demo_env (Inr 6) [] ''hi'' (demo_client [] demo_append_emptied) = Panic"
    using main [OF no_uidplus [of demo_append_emptied], THEN conjunct2]
    by (fastforce simp: number_found_def demo_env_def example_lib_def)
  ultimately show ?thesis using ok by blast
qed

end
