(* ===== verification/Sort_Theorems.thy ===== *)
theory Sort_Theorems
  imports Client_Theorems
begin

text \<open>
  Sorting (\<open>sort_or_fallback\<close> and its UID form in \<open>src/client/tokio.rs\<close>): which commands are
  issued, and the order and completeness of what is returned.
\<close>

section \<open>Chunks of ids\<close>

lemma chunks_Nil [simp]: "chunks n [] = []"
  by (simp add: chunks.simps)

lemma concat_chunks: "0 < n \<Longrightarrow> concat (chunks n xs) = xs"
  by (induction n xs rule: chunks.induct) (subst chunks.simps, simp)

lemma chunks_size: "c \<in> set (chunks n xs) \<Longrightarrow> c \<noteq> [] \<and> length c \<le> n"
proof (induction n xs rule: chunks.induct)
  case (1 n xs)
  then show ?case by (subst (asm) (2) chunks.simps) (auto split: if_splits)
qed

text \<open>A list without its repetitions, the first occurrence kept.\<close>

fun first_occurrences :: "'a list \<Rightarrow> 'a list" where
  "first_occurrences [] = []"
| "first_occurrences (x # xs) = x # filter (\<lambda>y. y \<noteq> x) (first_occurrences xs)"

lemma first_occurrences_distinct: "distinct xs \<Longrightarrow> first_occurrences xs = xs"
  by (induction xs) (auto simp: filter_id_conv)

lemma map_filter_without:
  "List.map_filter (\<lambda>a. if a = k then None else f a) xs = List.map_filter f (filter (\<lambda>x. x \<noteq> k) xs)"
  by (induction xs) (auto simp: List.map_filter_def)

lemma take_ids_eq: "take_ids ids fetches = List.map_filter (map_of fetches) (first_occurrences ids)"
proof (induction ids arbitrary: fetches)
  case (Cons k ids)
  show ?case
  proof (cases "map_of fetches k")
    case None
    then have "(\<lambda>a. if a = k then None else map_of fetches a) = map_of fetches" by auto
    with map_filter_without [of k "map_of fetches"] Cons None show ?thesis
      by (simp add: List.map_filter_simps)
  next
    case (Some items)
    with Cons [of "AList.delete k fetches"] show ?thesis
      by (simp add: List.map_filter_simps delete_conv' map_filter_without)
  qed
qed (simp add: List.map_filter_simps)

text \<open>
  One FETCH per chunk: its command, and how the answers come together.
\<close>

definition sort_names :: "'v lib \<Rightarrow> 'v macro_or_names \<Rightarrow> bool \<Rightarrow> 'v item_name list" where
  "sort_names L names uid =
     (let items = macro_names L names
      in if uid \<and> Name_Uid \<notin> set items then items @ [Name_Uid] else items)"

definition chunk_command :: "'v item_name list \<Rightarrow> bool \<Rightarrow> 'v \<Rightarrow> 'v command_body" where
  "chunk_command items uid seq_set =
     Cmd_Fetch [] seq_set (Item_Names (if uid then items @ [Name_Uid] else items)) uid"

text \<open>The answers to the FETCH of every chunk, one after the other, each in the state the one before left.\<close>

fun chunk_answers ::
    "('v, 'c, 'g, 's) env \<Rightarrow> 'v item_name list \<Rightarrow> bool \<Rightarrow> 'v list
       \<Rightarrow> (nz_u32, 'v item list) hash_map list \<Rightarrow> ('v, 'c, 'g, 's) client \<Rightarrow> ('v, 'c, 'g, 's) client
       \<Rightarrow> bool" where
  "chunk_answers E items uid [] [] s s' \<longleftrightarrow> s' = s"
| "chunk_answers E items uid (seq_set # seq_sets) (answer # answers) s s' \<longleftrightarrow>
     (\<exists>t. client_do_fetch E seq_set (Item_Names items) uid None s = Ret (Inr answer, t) \<and>
        chunk_answers E items uid seq_sets answers t s')"
| "chunk_answers E items uid _ _ s s' \<longleftrightarrow> False"

lemma fetch_chunks_Ok:
  assumes "fetch_chunks E items uid ids_chunks fetches self = Ret (Inr m, self')" and "logs E"
  shows "\<exists>seq_sets answers.
    list_all2 (\<lambda>ids seq_set. seq_set_of_ids (env_lib E) ids = Inr seq_set) ids_chunks seq_sets \<and>
    chunk_answers E items uid seq_sets answers self self' \<and>
    issued_by snd self' = issued_by snd self @ map (chunk_command items uid) seq_sets \<and>
    m = fold (hm_extend (seq_order (env_lib E))) answers fetches"
  using assms(1)
proof (induction ids_chunks arbitrary: fetches self)
  case Nil
  then show ?case by (intro exI [of _ "[]"]) simp
next
  case (Cons ids ids_chunks)
  from Cons.prems obtain seq_set answer s1 where seq: "seq_set_of_ids (env_lib E) ids = Inr seq_set"
    and answer: "client_do_fetch E seq_set (Item_Names items) uid None self = Ret (Inr answer, s1)"
    and rest: "fetch_chunks E items uid ids_chunks (hm_extend (seq_order (env_lib E)) answer fetches) s1
      = Ret (Inr m, self')"
    by (auto simp: op_try_Ok elim!: op_bind_Ok)
  from Cons.IH [OF rest] obtain seq_sets answers where
    "list_all2 (\<lambda>ids seq_set. seq_set_of_ids (env_lib E) ids = Inr seq_set) ids_chunks seq_sets"
    "chunk_answers E items uid seq_sets answers s1 self'"
    "issued_by snd self' = issued_by snd s1 @ map (chunk_command items uid) seq_sets"
    "m = fold (hm_extend (seq_order (env_lib E))) answers (hm_extend (seq_order (env_lib E)) answer fetches)"
    by blast
  moreover from this answer have "chunk_answers E items uid (seq_set # seq_sets) (answer # answers) self self'"
    by auto
  ultimately show ?case
    using seq fetch_issues [OF answer assms(2)]
    by (intro exI [of _ "seq_set # seq_sets"] exI [of _ "answer # answers"])
      (auto simp: chunk_command_def macro_names_def simp del: chunk_answers.simps)
qed

text \<open>Later answers take precedence. A hash map has every key once, so \<open>rev\<close> only says that of equal
  keys the last would count.\<close>

lemma answers_get:
  "hm_valid m \<Longrightarrow> map_of (fold (hm_extend ord) answers m) k =
     (case find_map (\<lambda>answer. map_of (rev answer) k) (rev answers) of
        Some items \<Rightarrow> Some items | None \<Rightarrow> map_of m k)"
  by (induction answers arbitrary: m)
    (auto simp: hm_extend_valid hm_extend_get find_map_append map_add_def split: option.split)



lemma answers_merged:
  "map_of (fold (hm_extend ord) answers []) k = find_map (\<lambda>answer. map_of (rev answer) k) (rev answers)"
  by (auto simp: answers_get hm_valid_def split: option.split)


section \<open>With the extension\<close>

text \<open>C29: Sorting on a server that has SORT. The client issues the SORT command, with the criterion
  of newest first and the search key ALL when none are given, and one FETCH for every chunk of
  at most 255 of the ids in the answer; the chunks make up the answer. The messages come back in the
  server's order, each id once, and an id that no FETCH answered is left out. A message has the
  items of the last chunk whose answer mentions it: a FETCH response that the server sends on
  its own during a later chunk, as it does when flags change, replaces everything that was
  fetched about a message of an earlier one.\<close>

theorem sort_keeps_server_order:
  assumes "logs E" and "ext_sort_supported (cl_state self)"
    and "client_do_sort_or_fallback E criteria keys names uid self = Ret (Inr out, self')"
  shows "\<exists>ids s1 seq_sets answers.
    client_do_sort E criteria keys uid self = Ret (Inr ids, s1) \<and>
    concat (chunks 255 ids) = ids \<and> (\<forall>c \<in> set (chunks 255 ids). c \<noteq> [] \<and> length c \<le> 255) \<and>
    list_all2 (\<lambda>ids seq_set. seq_set_of_ids (env_lib E) ids = Inr seq_set) (chunks 255 ids) seq_sets \<and>
    chunk_answers E (sort_names (env_lib E) names uid) uid seq_sets answers s1 self' \<and>
    issued_by snd self' = issued_by snd self @
      Cmd_Sort (if criteria = [] then [\<lparr>sc_reverse = True, sc_key = Sort_Date\<rparr>] else criteria)
        (charset_utf8 (env_lib E)) (if keys = [] then [Key_All] else keys) uid
      # map (chunk_command (sort_names (env_lib E) names uid) uid) seq_sets \<and>
    out = List.map_filter (\<lambda>msg_id. find_map (\<lambda>answer. map_of (rev answer) msg_id) (rev answers))
      (first_occurrences ids)"
proof -
  have size: "unat max_sequence_size = 255" by (simp add: max_sequence_size_def)
  from assms(2,3) obtain ids s1 m where ids: "client_do_sort E criteria keys uid self = Ret (Inr ids, s1)"
    and m: "fetch_chunks E (sort_names (env_lib E) names uid) uid (chunks 255 ids) [] s1 = Ret (Inr m, self')"
    and out: "out = take_ids ids m"
    by (auto simp: client_do_sort_or_fallback_def op_state_def Let_def sort_names_def size elim!: op_bind_Ok)
  from fetch_chunks_Ok [OF m assms(1)] obtain seq_sets answers where
    "list_all2 (\<lambda>ids seq_set. seq_set_of_ids (env_lib E) ids = Inr seq_set) (chunks 255 ids) seq_sets"
    "chunk_answers E (sort_names (env_lib E) names uid) uid seq_sets answers s1 self'"
    "issued_by snd self' = issued_by snd s1 @ map (chunk_command (sort_names (env_lib E) names uid) uid) seq_sets"
    "m = fold (hm_extend (seq_order (env_lib E))) answers []"
    by blast
  moreover from this(4) have "map_of m = (\<lambda>k. find_map (\<lambda>answer. map_of (rev answer) k) (rev answers))"
    by (simp add: fun_eq_iff answers_merged)
  ultimately show ?thesis
    using ids out sort_issues [OF ids assms(1)]
    by (intro exI [of _ ids] exI [of _ s1] exI [of _ seq_sets] exI [of _ answers])
      (simp add: concat_chunks chunks_size take_ids_eq)
qed

section \<open>Without it\<close>










text \<open>Two messages, fetched out of order. SEARCH names only one of them.\<close>

abbreviation id1 :: nz_u32 where "id1 \<equiv> Abs_nonzero 1"
abbreviation id3 :: nz_u32 where "id3 \<equiv> Abs_nonzero 3"

definition demo_fetches :: "(nat next_error interrupt + nat event) list" where
  "demo_fetches =
     [Inr (CommandSent 1), Inr (DataReceived (Data_Fetch id1 [Item_Rfc822Size 20])),
      Inr (DataReceived (Data_Fetch id3 [Item_Rfc822Size 10])),
      Inr (StatusReceived (Status_Tagged ''1'' (ok_body None 0)))]"

definition demo_sort :: "(nat next_error interrupt + nat event) list" where
  "demo_sort =
     [Inr (CommandSent 0), Inr (DataReceived (Data_Sort [id3, id1] 0)),
      Inr (StatusReceived (Status_Tagged ''0'' (ok_body None 0)))] @ demo_fetches"

definition demo_search :: "(nat next_error interrupt + nat event) list" where
  "demo_search =
     [Inr (CommandSent 0), Inr (DataReceived (Data_Search [id1] 0)),
      Inr (StatusReceived (Status_Tagged ''0'' (ok_body None 0)))] @ demo_fetches"

lemma chunks_one: "chunks 255 [a] = [[a]]" and chunks_two: "chunks 255 [a, b] = [[a, b]]"
  by (simp_all add: chunks.simps [of 255 "[a]"] chunks.simps [of 255 "[a, b]"])

lemmas demo_sort_simps =
  client_do_sort_or_fallback_def client_do_sort_def client_do_search_def client_do_fetch_def op_state_def
  op_bind_def op_return_def op_try_def ext_supported_iff demo_sort_def demo_search_def demo_fetches_def
  demo_client_simps demo_task_simps chunks_one chunks_two max_sequence_size_def example_lib_def decimal_1
  hm_insert_def hm_extend_def hs_insert_def hs_extend_def Let_def macro_names_def

lemma sort_keeps_server_order_witness:
  "\<exists>self'. client_do_sort_or_fallback demo_env [] [] (Item_Names [Name_Rfc822Size]) False
      (demo_client [Cap_Sort 0] demo_sort)
    = Ret (Inr [[Item_Rfc822Size 10], [Item_Rfc822Size 20]], self') \<and>
    hd (issued_by snd self') = Cmd_Sort [\<lparr>sc_reverse = True, sc_key = Sort_Date\<rparr>] 8 [Key_All] False"
proof -
  let ?self = "demo_client [Cap_Sort 0] demo_sort"
  have "\<exists>self'. client_do_sort_or_fallback demo_env [] [] (Item_Names [Name_Rfc822Size]) False ?self
      = Ret (Inr [[Item_Rfc822Size 10], [Item_Rfc822Size 20]], self')"
    by (simp add: demo_sort_simps)
  moreover have "ext_sort_supported (cl_state ?self)" and "issued_by snd ?self = []"
    by (simp_all add: demo_client_simps ext_supported_iff issued_by_def rs_client_def)
  ultimately show ?thesis
    using sort_keeps_server_order [OF demo_logs, of ?self "[]" "[]" "Item_Names [Name_Rfc822Size]" False]
    by (fastforce simp: demo_env_def example_lib_def)
qed




section \<open>The order\<close>

text \<open>C31: The comparison that the fallback hands to \<open>sort_by\<close> is a total preorder, whatever the
  criteria and whichever of them are reversed, so the sort cannot panic on it; criteria that compare
  addresses tell no messages apart.\<close>

theorem fallback_order_total:
  "cmp_fetches L criteria a a = Equiv \<and>
   (cmp_fetches L criteria a b = Greater \<longleftrightarrow> cmp_fetches L criteria b a = Less) \<and>
   (cmp_fetches L criteria a b \<noteq> Greater \<longrightarrow> cmp_fetches L criteria b c \<noteq> Greater \<longrightarrow>
      cmp_fetches L criteria a c \<noteq> Greater) \<and>
   (sc_key criterion \<in> {Sort_Cc, Sort_From, Sort_To, Sort_DisplayFrom, Sort_DisplayTo} \<longrightarrow>
      cmp_fetches L (criterion # criteria) a b = cmp_fetches L criteria a b)"
proof -
  have "cmp_fetches L criteria a c \<noteq> Greater"
    if "cmp_fetches L criteria a b \<noteq> Greater" "cmp_fetches L criteria b c \<noteq> Greater"
    using that fetch_order.trans_not_greater by blast
  moreover have "cmp_fetches L (criterion # criteria) a b = cmp_fetches L criteria a b"
    if "sc_key criterion \<in> {Sort_Cc, Sort_From, Sort_To, Sort_DisplayFrom, Sort_DisplayTo}"
    using that by (auto simp: cmp_fetch_items_def Let_def)
  ultimately show ?thesis
    by (simp add: fetch_order.refl fetch_order.greater_iff_sym_less)
qed

text \<open>Dates are compared as the bytes of their header, so a Friday comes before the Thursday before it.\<close>

definition dated :: "string \<Rightarrow> nat item list" where
  "dated d = [Item_Envelope \<lparr>env_date = Some (IString 0 d), env_subject = None, env_rest = 0\<rparr>]"

lemma date_order_textual:
  "cmp_fetches L [] (dated ''Fri, 02 Jan 1998'') (dated ''Sat, 03 Jan 1998'') = Less"
  "cmp_fetches L [] (dated ''Sat, 03 Jan 1998'') (dated ''Thu, 01 Jan 1998'') = Less"
  by (simp_all add: cmp_fetch_items_def cmp_ord_def date_of_def octets_def dated_def)

lemma fallback_order_total_witness:
  "cmp_fetches example_lib [] (dated ''Fri, 02 Jan 1998'') (dated ''Thu, 01 Jan 1998'') \<noteq> Greater"
  using fallback_order_total [of example_lib "[]" "dated ''Fri, 02 Jan 1998''" "dated ''Sat, 03 Jan 1998''"
      "dated ''Thu, 01 Jan 1998''" "\<lparr>sc_reverse = False, sc_key = Sort_Cc\<rparr>"]
  by (simp add: date_order_textual del: cmp_fetches.simps)

end
