(* ===== verification/Verifier.thy ===== *)
theory Verifier
  imports Imap_Types
begin

text \<open>
  \<open>FingerprintVerifier\<close> (\<open>src/client/verifier.rs\<close>): the certificate check of a TLS connection that
  is pinned to one certificate. The digest (\<open>sha2::Sha256\<close>) is the parameter \<open>sha256\<close>.
\<close>

datatype signature_scheme =
    RSA_PKCS1_SHA256 | RSA_PKCS1_SHA384 | RSA_PKCS1_SHA512
  | ECDSA_NISTP256_SHA256 | ECDSA_NISTP384_SHA384
  | RSA_PSS_SHA256 | RSA_PSS_SHA384 | RSA_PSS_SHA512 | ED25519

datatype verifier_error = General string

record fingerprint_verifier =
  expected_fingerprint :: bytes

definition fingerprint_verifier_new :: "(bytes \<Rightarrow> bytes) \<Rightarrow> bytes \<Rightarrow> fingerprint_verifier" where
  "fingerprint_verifier_new sha256 cert_der = \<lparr>expected_fingerprint = sha256 cert_der\<rparr>"

text \<open>The intermediates, the server's name, the OCSP response and the time are not looked at.\<close>

definition verify_server_cert ::
    "(bytes \<Rightarrow> bytes) \<Rightarrow> fingerprint_verifier \<Rightarrow> bytes \<Rightarrow> bytes list \<Rightarrow> 'name \<Rightarrow> bytes \<Rightarrow> 'time
       \<Rightarrow> verifier_error + unit" where
  "verify_server_cert sha256 self end_entity intermediates server_name ocsp_response now =
     (if sha256 end_entity \<noteq> expected_fingerprint self
      then Inl (General ''Certificate fingerprint mismatch'')
      else Inr ())"

definition verify_tls12_signature ::
    "fingerprint_verifier \<Rightarrow> bytes \<Rightarrow> bytes \<Rightarrow> 'dss \<Rightarrow> verifier_error + unit" where
  "verify_tls12_signature self message cert dss = Inr ()"

definition verify_tls13_signature ::
    "fingerprint_verifier \<Rightarrow> bytes \<Rightarrow> bytes \<Rightarrow> 'dss \<Rightarrow> verifier_error + unit" where
  "verify_tls13_signature self message cert dss = Inr ()"

definition supported_verify_schemes :: "fingerprint_verifier \<Rightarrow> signature_scheme list" where
  "supported_verify_schemes self =
     [RSA_PKCS1_SHA256, RSA_PKCS1_SHA384, RSA_PKCS1_SHA512, ECDSA_NISTP256_SHA256,
      ECDSA_NISTP384_SHA384, RSA_PSS_SHA256, RSA_PSS_SHA384, RSA_PSS_SHA512, ED25519]"

text \<open>
  What the four callbacks of a verifier let through: a certificate whose digest is the one of the
  pinned certificate, and every signature, so that the peer need not hold the certificate's key.
\<close>

lemma fingerprint_verifier_accepts:
  "verify_server_cert sha256 (fingerprint_verifier_new sha256 pinned) cert intermediates name ocsp now = Inr () \<longleftrightarrow>
     sha256 cert = sha256 pinned"
  "verify_tls12_signature self message cert dss = Inr ()"
  "verify_tls13_signature self message cert dss = Inr ()"
  by (simp_all add: fingerprint_verifier_new_def verify_server_cert_def verify_tls12_signature_def
      verify_tls13_signature_def)

end
