(* ===== verification/Client_Connect.thy ===== *)
theory Client_Connect
  imports Client_Ops Verifier
begin

text \<open>
  The constructors of the asynchronous client (\<open>src/client/tokio.rs\<close>): a TCP connection, its
  upgrade to TLS with or without STARTTLS, and the greeting; \<open>MaybeTlsStream\<close>, the socket of such
  a client. The network, the file system, rustls and imap-next's options are parameters.
\<close>

section \<open>MaybeTlsStream\<close>

datatype ('p, 't) maybe_tls = Plain 'p | Rustls 't

text \<open>
  A socket as tokio sees it: one poll of each operation, under a context \<open>'w\<close>, into or out of a
  buffer (\<open>'b\<close> for \<open>ReadBuf\<close>).
\<close>

datatype 'a poll = Ready 'a | Pending

record ('s, 'w, 'b, 'v) async_io =
  aio_read :: "'w \<Rightarrow> 'b \<Rightarrow> 's \<Rightarrow> ((('v io_error + unit) \<times> 'b) poll \<times> 's) run"
  aio_write :: "'w \<Rightarrow> bytes \<Rightarrow> 's \<Rightarrow> (('v io_error + nat) poll \<times> 's) run"
  aio_flush :: "'w \<Rightarrow> 's \<Rightarrow> (('v io_error + unit) poll \<times> 's) run"
  aio_shutdown :: "'w \<Rightarrow> 's \<Rightarrow> (('v io_error + unit) poll \<times> 's) run"

definition maybe_tls_poll_read ::
    "('p, 'w, 'b, 'v) async_io \<Rightarrow> ('t, 'w, 'b, 'v) async_io \<Rightarrow> 'w \<Rightarrow> 'b \<Rightarrow> ('p, 't) maybe_tls
       \<Rightarrow> ((('v io_error + unit) \<times> 'b) poll \<times> ('p, 't) maybe_tls) run" where
  "maybe_tls_poll_read P T cx buf self =
     (case self of
        Plain s \<Rightarrow> map_end Plain (aio_read P cx buf s)
      | Rustls s \<Rightarrow> map_end Rustls (aio_read T cx buf s))"

definition maybe_tls_poll_write ::
    "('p, 'w, 'b, 'v) async_io \<Rightarrow> ('t, 'w, 'b, 'v) async_io \<Rightarrow> 'w \<Rightarrow> bytes \<Rightarrow> ('p, 't) maybe_tls
       \<Rightarrow> (('v io_error + nat) poll \<times> ('p, 't) maybe_tls) run" where
  "maybe_tls_poll_write P T cx buf self =
     (case self of
        Plain s \<Rightarrow> map_end Plain (aio_write P cx buf s)
      | Rustls s \<Rightarrow> map_end Rustls (aio_write T cx buf s))"

definition maybe_tls_poll_flush ::
    "('p, 'w, 'b, 'v) async_io \<Rightarrow> ('t, 'w, 'b, 'v) async_io \<Rightarrow> 'w \<Rightarrow> ('p, 't) maybe_tls
       \<Rightarrow> (('v io_error + unit) poll \<times> ('p, 't) maybe_tls) run" where
  "maybe_tls_poll_flush P T cx self =
     (case self of
        Plain s \<Rightarrow> map_end Plain (aio_flush P cx s)
      | Rustls s \<Rightarrow> map_end Rustls (aio_flush T cx s))"

definition maybe_tls_poll_shutdown ::
    "('p, 'w, 'b, 'v) async_io \<Rightarrow> ('t, 'w, 'b, 'v) async_io \<Rightarrow> 'w \<Rightarrow> ('p, 't) maybe_tls
       \<Rightarrow> (('v io_error + unit) poll \<times> ('p, 't) maybe_tls) run" where
  "maybe_tls_poll_shutdown P T cx self =
     (case self of
        Plain s \<Rightarrow> map_end Plain (aio_shutdown P cx s)
      | Rustls s \<Rightarrow> map_end Rustls (aio_shutdown T cx s))"

text \<open>
  Awaiting a poll: when it is pending, the world goes on (\<open>wake\<close>) and it is polled again.
\<close>

definition await :: "('s \<Rightarrow> ('a poll \<times> 's) run) \<Rightarrow> ('s \<Rightarrow> 's) \<Rightarrow> 's \<Rightarrow> ('a \<times> 's) run" where
  "await poll wake = rust_loop (\<lambda>s.
     case poll s of
       Ret (Ready a, s) \<Rightarrow> Break a s
     | Ret (Pending, s) \<Rightarrow> Continue (wake s)
     | Panic \<Rightarrow> Panicking
     | Diverge \<Rightarrow> Diverging)"

text \<open>Awaiting an operation of the variant is awaiting the variant's operation.\<close>

lemma await_variant:
  assumes "\<And>s. poll (C s) = map_end C (poll' s)" and "\<And>s. wake (C s) = C (wake' s)"
  shows "await poll wake (C s) = map_end C (await poll' wake' s)"
  unfolding await_def
  by (rule rust_loop_image) (auto simp: assms map_flow_def map_end_def split: run.splits poll.splits prod.splits)

text \<open>
  So the operations on the socket as a whole, each awaited to its end, go to the variant the stream
  is in.
\<close>

definition maybe_tls_read ::
    "('p, 'v) socket \<Rightarrow> ('t, 'v) socket \<Rightarrow> nat \<Rightarrow> ('p, 't) maybe_tls
       \<Rightarrow> (('v io_error + bytes) \<times> ('p, 't) maybe_tls) run" where
  "maybe_tls_read P T n self =
     (case self of Plain s \<Rightarrow> map_end Plain (sk_read P n s) | Rustls s \<Rightarrow> map_end Rustls (sk_read T n s))"

definition maybe_tls_write ::
    "('p, 'v) socket \<Rightarrow> ('t, 'v) socket \<Rightarrow> bytes \<Rightarrow> ('p, 't) maybe_tls
       \<Rightarrow> (('v io_error + unit) \<times> ('p, 't) maybe_tls) run" where
  "maybe_tls_write P T b self =
     (case self of
        Plain s \<Rightarrow> map_end Plain (sk_write_all P b s)
      | Rustls s \<Rightarrow> map_end Rustls (sk_write_all T b s))"

definition maybe_tls_flush ::
    "('p, 'v) socket \<Rightarrow> ('t, 'v) socket \<Rightarrow> ('p, 't) maybe_tls
       \<Rightarrow> (('v io_error + unit) \<times> ('p, 't) maybe_tls) run" where
  "maybe_tls_flush P T self =
     (case self of Plain s \<Rightarrow> map_end Plain (sk_flush P s) | Rustls s \<Rightarrow> map_end Rustls (sk_flush T s))"

definition maybe_tls_socket ::
    "('p, 'v) socket \<Rightarrow> ('t, 'v) socket \<Rightarrow> (('p, 't) maybe_tls, 'v) socket" where
  "maybe_tls_socket P T =
     \<lparr>sk_read = maybe_tls_read P T, sk_write_all = maybe_tls_write P T, sk_flush = maybe_tls_flush P T\<rparr>"

lemma maybe_tls_polls_dispatch:
  fixes P :: "('p, 'w, 'b, 'v) async_io" and T :: "('t, 'w, 'b, 'v) async_io"
  defines "wake \<equiv> \<lambda>wp wt s. case s of Plain s \<Rightarrow> Plain (wp s) | Rustls s \<Rightarrow> Rustls (wt s)"
  shows "await (maybe_tls_poll_read P T cx buf) (wake wp wt) (Plain p) =
      map_end Plain (await (aio_read P cx buf) wp p)"
    and "await (maybe_tls_poll_read P T cx buf) (wake wp wt) (Rustls t) =
      map_end Rustls (await (aio_read T cx buf) wt t)"
    and "await (maybe_tls_poll_write P T cx b) (wake wp wt) (Plain p) =
      map_end Plain (await (aio_write P cx b) wp p)"
    and "await (maybe_tls_poll_write P T cx b) (wake wp wt) (Rustls t) =
      map_end Rustls (await (aio_write T cx b) wt t)"
    and "await (maybe_tls_poll_flush P T cx) (wake wp wt) (Plain p) =
      map_end Plain (await (aio_flush P cx) wp p)"
    and "await (maybe_tls_poll_flush P T cx) (wake wp wt) (Rustls t) =
      map_end Rustls (await (aio_flush T cx) wt t)"
  unfolding wake_def
  by (rule await_variant; simp add: maybe_tls_poll_read_def maybe_tls_poll_write_def maybe_tls_poll_flush_def)+

section \<open>The world outside\<close>

record 'v next_options =
  crlf_relaxed :: bool
  discard_greeting :: bool
  options_rest :: 'v

text \<open>What decides over a server's certificate: the platform, or a pinned certificate.\<close>

datatype 'k tls_verifier = Platform 'k | Pinned fingerprint_verifier

record 'k tls_config =
  tls_verifier :: "'k tls_verifier"
  alpn_protocols :: "bytes list"

text \<open>
  Third-party calls over the state \<open>'w\<close> of the world. \<open>pem_certs\<close> lists the certificates of a
  PEM file, each parsed or in error.
\<close>

record ('v, 'c, 'p, 't, 'n, 'k, 'w) network =
  tcp_connect :: "string \<Rightarrow> u16 \<Rightarrow> 'w \<Rightarrow> (('v io_error + 'p) \<times> 'w) run"
  starttls_prefix :: "'p \<Rightarrow> 'w \<Rightarrow> (('v io_error + 'p) \<times> 'w) run"
  read_file :: "string \<Rightarrow> 'w \<Rightarrow> (('v io_error + bytes) \<times> 'w) run"
  pem_certs :: "bytes \<Rightarrow> ('v + bytes) list"
  sha256_digest :: "bytes \<Rightarrow> bytes"
  platform_config :: "'w \<Rightarrow> (('v + 'k tls_config) \<times> 'w) run"
  parse_server_name :: "string \<Rightarrow> 'v + 'n"
  tls_connect :: "'k tls_config \<Rightarrow> 'n \<Rightarrow> 'p \<Rightarrow> 'w \<Rightarrow> (('v io_error + 't) \<times> 'w) run"
  default_options :: "'v next_options"
  next_new :: "'v next_options \<Rightarrow> 'c"

type_synonym ('v, 'w, 'a) net_op = "'w \<Rightarrow> (('v client_error + 'a) \<times> 'w) run"

definition net_return :: "'a \<Rightarrow> ('v, 'w, 'a) net_op" where
  "net_return a w = Ret (Inr a, w)"

definition net_throw :: "'v client_error \<Rightarrow> ('v, 'w, 'a) net_op" where
  "net_throw e w = Ret (Inl e, w)"

definition net_bind :: "('v, 'w, 'a) net_op \<Rightarrow> ('a \<Rightarrow> ('v, 'w, 'b) net_op) \<Rightarrow> ('v, 'w, 'b) net_op" where
  "net_bind m f w =
     (case m w of
        Ret (Inr a, w) \<Rightarrow> f a w
      | Ret (Inl e, w) \<Rightarrow> Ret (Inl e, w)
      | Panic \<Rightarrow> Panic
      | Diverge \<Rightarrow> Diverge)"

text \<open>\<open>map_err\<close> with a constructor of \<open>ClientError\<close>.\<close>

definition net_map_err ::
    "('e \<Rightarrow> 'v client_error) \<Rightarrow> ('w \<Rightarrow> (('e + 'a) \<times> 'w) run) \<Rightarrow> ('v, 'w, 'a) net_op" where
  "net_map_err C m w =
     (case m w of
        Ret (Inr a, w) \<Rightarrow> Ret (Inr a, w)
      | Ret (Inl e, w) \<Rightarrow> Ret (Inl (C e), w)
      | Panic \<Rightarrow> Panic
      | Diverge \<Rightarrow> Diverge)"

definition net_unwrap :: "'e + 'a \<Rightarrow> ('v, 'w, 'a) net_op" where
  "net_unwrap r w = (case r of Inr a \<Rightarrow> Ret (Inr a, w) | Inl _ \<Rightarrow> Panic)"

text \<open>A method of the client that is being built; the client is dropped when the method fails.\<close>

definition net_client ::
    "('v, 'c, 'g, 's, unit) op \<Rightarrow> ('v, 'c, 'g, 's) client \<Rightarrow> ('v, 'w, ('v, 'c, 'g, 's) client) net_op" where
  "net_client m self w =
     (case m self of
        Ret (Inr _, self) \<Rightarrow> Ret (Inr self, w)
      | Ret (Inl e, _) \<Rightarrow> Ret (Inl e, w)
      | Panic \<Rightarrow> Panic
      | Diverge \<Rightarrow> Diverge)"

section \<open>Constructors\<close>

definition client_tcp ::
    "('v, 'c, 'g, ('p, 't) maybe_tls) env \<Rightarrow> ('v, 'c, 'p, 't, 'n, 'k, 'w) network \<Rightarrow> string \<Rightarrow> u16 \<Rightarrow> bool
       \<Rightarrow> ('v, 'w, ('v, 'c, 'g, ('p, 't) maybe_tls) client) net_op" where
  "client_tcp E W host port discard =
     net_bind (net_map_err ConnectToTcpStreamError (tcp_connect W host port)) (\<lambda>tcp_stream.
     let stream = stream_new (Plain tcp_stream);
         opts = (default_options W)\<lparr>crlf_relaxed := True, discard_greeting := discard\<rparr>;
         state = client_state_new (env_next E) (next_new W opts)
     in net_return \<lparr>cl_host = host, cl_state = state, cl_stream = stream\<rparr>)"

definition client_insecure ::
    "('v, 'c, 'g, ('p, 't) maybe_tls) env \<Rightarrow> ('v, 'c, 'p, 't, 'n, 'k, 'w) network \<Rightarrow> string \<Rightarrow> u16
       \<Rightarrow> ('v, 'w, ('v, 'c, 'g, ('p, 't) maybe_tls) client) net_op" where
  "client_insecure E W host port =
     net_bind (client_tcp E W host port False) (\<lambda>client.
     net_client (insecure_connected E) client)"

text \<open>
  The configuration of the TLS connection. A file that cannot be read is converted by \<open>?\<close>, and
  \<open>DoStarttlsPrefixError\<close> is the variant an \<open>io::Error\<close> is converted to.
\<close>

definition rustls_config ::
    "('v, 'c, 'p, 't, 'n, 'k, 'w) network \<Rightarrow> string option \<Rightarrow> ('v, 'w, 'k tls_config) net_op" where
  "rustls_config W cert =
     (case cert of
        Some pem_path \<Rightarrow>
          net_bind (net_map_err DoStarttlsPrefixError (read_file W pem_path)) (\<lambda>pem.
          case pem_certs W pem of
            [] \<Rightarrow> net_throw (EmptyCert pem_path)
          | Inl err # _ \<Rightarrow> net_throw (InvalidCert err pem_path)
          | Inr cert # _ \<Rightarrow>
              let verifier = fingerprint_verifier_new (sha256_digest W) cert
              in net_return \<lparr>tls_verifier = Pinned verifier, alpn_protocols = []\<rparr>)
      | None \<Rightarrow> net_map_err TlsConfig (platform_config W))"

definition upgrade_rustls ::
    "('v, 'c, 'g, ('p, 't) maybe_tls) env \<Rightarrow> ('v, 'c, 'p, 't, 'n, 'k, 'w) network \<Rightarrow> bool \<Rightarrow> string option
       \<Rightarrow> ('v, 'c, 'g, ('p, 't) maybe_tls) client
       \<Rightarrow> ('v, 'w, ('v, 'c, 'g, ('p, 't) maybe_tls) client) net_op" where
  "upgrade_rustls E W starttls cert self =
     (case stream_into_inner (cl_stream self) of
        Rustls _ \<Rightarrow> net_throw ClientAlreadyTlsError
      | Plain tcp_stream \<Rightarrow>
          net_bind (if starttls then net_map_err DoStarttlsPrefixError (starttls_prefix W tcp_stream)
                    else net_return tcp_stream) (\<lambda>tcp_stream.
          net_bind (rustls_config W cert) (\<lambda>config.
          let config = config\<lparr>alpn_protocols := [''imap'']\<rparr> in
          net_bind (net_unwrap (parse_server_name W (cl_host self))) (\<lambda>dnsname.
          net_bind (net_map_err ConnectToTlsStreamError (tls_connect W config dnsname tcp_stream)) (\<lambda>tls_stream.
          let self = self\<lparr>cl_stream := stream_new (Rustls tls_stream)\<rparr> in
          net_client
            (if starttls then refresh_capabilities E
             else op_bind (receive_greeting E) (\<lambda>found.
                  if \<not> found then refresh_capabilities E else op_return ()))
            self)))))"

definition client_rustls ::
    "('v, 'c, 'g, ('p, 't) maybe_tls) env \<Rightarrow> ('v, 'c, 'p, 't, 'n, 'k, 'w) network \<Rightarrow> string \<Rightarrow> u16 \<Rightarrow> bool
       \<Rightarrow> string option \<Rightarrow> ('v, 'w, ('v, 'c, 'g, ('p, 't) maybe_tls) client) net_op" where
  "client_rustls E W host port starttls cert =
     net_bind (client_tcp E W host port starttls) (\<lambda>tcp.
     upgrade_rustls E W starttls cert tcp)"

end
