(* ===== verification/Connect_Theorems.thy ===== *)
theory Connect_Theorems
  imports Client_Connect Client_Theorems
begin

text \<open>
  The properties of the constructors: what a connected client talks through, what it has learnt
  of the server, and which error each failure is reported as.
\<close>

section \<open>What the stream keeps\<close>

text \<open>A predicate on the states of a socket that reading and writing keep.\<close>

locale socket_invariant =
  fixes K :: "('s, 'v) socket" and I :: "'s \<Rightarrow> bool"
  assumes read_keeps: "sk_read K n s = Ret (r, s') \<Longrightarrow> I s \<Longrightarrow> I s'"
    and write_keeps: "sk_write_all K b s = Ret (r', s') \<Longrightarrow> I s \<Longrightarrow> I s'"
    and flush_keeps: "sk_flush K s = Ret (r', s') \<Longrightarrow> I s \<Longrightarrow> I s'"
begin

lemma stream_input_keeps_inv:
  "stream_input K self = Ret (r, self') \<Longrightarrow> I (stream_socket self) \<Longrightarrow> I (stream_socket self')"
  by (simp add: stream_input_def Let_def split: run.splits sum.splits if_splits prod.splits)
    (auto dest: read_keeps)

lemma stream_output_keeps_inv:
  "stream_output K b self = Ret (r, self') \<Longrightarrow> I (stream_socket self) \<Longrightarrow> I (stream_socket self')"
  by (simp add: stream_output_def split: run.splits sum.splits prod.splits)
    (auto dest: write_keeps flush_keeps)

lemma stream_io_keeps_inv:
  "stream_io K io self = Ret (r, self') \<Longrightarrow> I (stream_socket self) \<Longrightarrow> I (stream_socket self')"
  by (simp add: stream_io_def split: io.splits run.splits sum.splits prod.splits)
    (auto dest: stream_input_keeps_inv stream_output_keeps_inv)

lemma stream_next_keeps:
  assumes "stream_next K M (st, f) = Ret (r, st', f')" and "I (stream_socket st)"
  shows "I (stream_socket st')"
proof -
  let ?I = "\<lambda>x. I (stream_socket (fst x))"
  have "?I (st', f')"
  proof (rule rust_loop_rule [where I = ?I and post = "\<lambda>r x. ?I x", OF assms(1) [unfolded stream_next_def]])
    show "?I x'" if "?I x" "stream_turn K M x = Continue x'" for x x'
      using that by (auto simp: stream_turn_def dest: stream_io_keeps_inv split: prod.splits run.splits
          sum.splits interrupt.splits)
    show "?I x'" if "?I x" "stream_turn K M x = Break r x'" for x r x'
      using that by (auto simp: stream_turn_def dest: stream_io_keeps_inv split: prod.splits run.splits
          sum.splits interrupt.splits)
  qed (use assms(2) in simp)
  then show ?thesis by simp
qed

end

lemma stream_next_machine_keeps:
  assumes "stream_next K M (st, f) = Ret (r, st', f')" and "J f"
    and "\<And>f r f'. J f \<Longrightarrow> sm_next M f = Ret (r, f') \<Longrightarrow> J f'"
    and "\<And>b f. J f \<Longrightarrow> J (sm_enqueue_input M b f)"
  shows "J f'"
proof -
  let ?I = "\<lambda>x. J (snd x)"
  have "?I (st', f')"
  proof (rule rust_loop_rule [where I = ?I and post = "\<lambda>r x. ?I x", OF assms(1) [unfolded stream_next_def]])
    show "?I x'" if "?I x" "stream_turn K M x = Continue x'" for x x'
      using that assms(3,4) by (auto simp: stream_turn_def split: prod.splits run.splits
          sum.splits interrupt.splits)
    show "?I x'" if "?I x" "stream_turn K M x = Break r x'" for x r x'
      using that assms(3,4) by (auto simp: stream_turn_def split: prod.splits run.splits
          sum.splits interrupt.splits)
  qed (use assms(2) in simp)
  then show ?thesis by simp
qed

text \<open>A TLS stream stays one.\<close>

definition is_tls :: "('p, 't) maybe_tls \<Rightarrow> bool" where
  "is_tls s = (case s of Rustls _ \<Rightarrow> True | Plain _ \<Rightarrow> False)"

interpretation tls: socket_invariant "maybe_tls_socket P T" is_tls
  for P :: "('p, 'v) socket" and T :: "('t, 'v) socket"
  by unfold_locales
    (auto simp: maybe_tls_socket_def maybe_tls_read_def maybe_tls_write_def maybe_tls_flush_def
      map_end_def is_tls_def split: run.splits maybe_tls.splits)

section \<open>What the client's methods keep\<close>

text \<open>Resolving a task changes the stream and the resolver, and nothing else of the client.\<close>

definition same_but_io :: "('v, 'c, 'g, 's) client \<Rightarrow> ('v, 'c, 'g, 's) client \<Rightarrow> bool" where
  "same_but_io self self' \<longleftrightarrow>
     cl_host self' = cl_host self \<and>
     cs_capabilities (cl_state self') = cs_capabilities (cl_state self) \<and>
     cs_idle_timeout (cl_state self') = cs_idle_timeout (cl_state self) \<and>
     cs_condstore_enabled (cl_state self') = cs_condstore_enabled (cl_state self)"

lemma client_resolve_same: "client_resolve E task self = Ret (r, self') \<Longrightarrow> same_but_io self self'"
  by (auto simp: client_resolve_def same_but_io_def cl_put_def split: run.splits prod.splits)

lemma client_task_resolve:
  "client_task E out task self = Ret (r, self') \<Longrightarrow> \<exists>x. client_resolve E task self = Ret (x, self')"
  by (auto simp: client_task_def op_bind_def split: run.splits prod.splits sum.splits option.splits)

lemma client_task_same: "client_task E out task self = Ret (r, self') \<Longrightarrow> same_but_io self self'"
  using client_task_resolve client_resolve_same by blast

context socket_invariant
begin

lemma client_resolve_keeps:
  assumes "client_resolve E task self = Ret (r, self')" and "env_socket E = K"
    and "I (stream_socket (cl_stream self))"
  shows "I (stream_socket (cl_stream self'))"
proof -
  from assms(1) obtain h rs x st rs' where
    str: "stream_next (env_socket E) (resolving_machine (env_next E) (env_lib E) h) (cl_stream self, rs)
      = Ret (x, st, rs')" and self': "self' = cl_put st rs' self"
    by (auto simp: client_resolve_def split: run.splits)
  from stream_next_keeps [OF str [unfolded assms(2)] assms(3)] self' show ?thesis
    by (simp add: cl_put_def)
qed

lemma receive_greeting_keeps:
  assumes "receive_greeting E self = Ret (r, self')" and "env_socket E = K"
    and "I (stream_socket (cl_stream self))"
  shows "I (stream_socket (cl_stream self'))"
proof -
  from assms(1) obtain x st rs' where
    str: "stream_next (env_socket E) (resolver_machine (env_next E) (env_lib E))
      (cl_stream self, cs_resolver (cl_state self)) = Ret (x, st, rs')"
    and self': "cl_stream self' = st"
    by (auto simp: receive_greeting_def Let_def cl_put_def split: run.splits sum.splits
        scheduler_event.splits option.splits code.splits)
  from stream_next_keeps [OF str [unfolded assms(2)] assms(3)] self' show ?thesis by simp
qed

lemma client_task_keeps:
  "client_task E out task self = Ret (r, self') \<Longrightarrow> env_socket E = K \<Longrightarrow>
     I (stream_socket (cl_stream self)) \<Longrightarrow> I (stream_socket (cl_stream self'))"
  using client_task_resolve client_resolve_keeps by blast

end

section \<open>Capabilities\<close>

text \<open>
  Where the capabilities a client holds come from: the first thing the stream reports, when that is
  a greeting that names them, or the answer to a request made in the state \<open>s\<close>.
\<close>

definition greeting_capabilities :: "'v scheduler_event \<Rightarrow> 'v capability list option" where
  "greeting_capabilities ev =
     (case ev of
        Ev_GreetingReceived greeting \<Rightarrow>
          (case gr_code greeting of Some (Code_Capability caps) \<Rightarrow> Some caps | _ \<Rightarrow> None)
      | _ \<Rightarrow> None)"

definition answered_with ::
    "('v, 'c, 'g, 's) env \<Rightarrow> ('v, 'c, 'g, 's) client \<Rightarrow> 'v capability list \<Rightarrow> bool" where
  "answered_with E s caps \<longleftrightarrow>
     (\<exists>s'. client_task E as_capabilities (T_Capability capability_task_new) s = Ret (Inr caps, s'))"

text \<open>What a client learns after the greeting, and what it has sent for it.\<close>

definition set_caps :: "'v capability list \<Rightarrow> ('v, 'c, 'g, 's) client \<Rightarrow> ('v, 'c, 'g, 's) client" where
  "set_caps caps self = self\<lparr>cl_state := (cl_state self)\<lparr>cs_capabilities := caps\<rparr>\<rparr>"

definition learns ::
    "('v, 'c, 'g, 's) env \<Rightarrow> bool \<Rightarrow> ('v, 'c, 'g, 's) client \<Rightarrow> ('v, 'c, 'g, 's) client
       \<Rightarrow> 'v command_body list \<Rightarrow> bool" where
  "learns E starttls s0 self sent \<longleftrightarrow>
     (if starttls then sent = [Cmd_Capability] \<and> answered_with E s0 (cs_capabilities (cl_state self))
      else \<exists>ev stream resolver.
        stream_next (env_socket E) (resolver_machine (env_next E) (env_lib E))
            (cl_stream s0, cs_resolver (cl_state s0)) = Ret (Inr ev, stream, resolver) \<and>
        (case greeting_capabilities ev of
           Some caps \<Rightarrow> sent = [] \<and> cs_capabilities (cl_state self) = caps
         | None \<Rightarrow> sent = [Cmd_Capability] \<and>
             answered_with E (cl_put stream resolver s0) (cs_capabilities (cl_state self))))"

lemma op_modify_Ret [simp]:
  "op_modify f self = Ret (r, self') \<longleftrightarrow> r = Inr () \<and> self' = self\<lparr>cl_state := f (cl_state self)\<rparr>"
  by (auto simp: op_modify_def)

lemma issued_by_capabilities [simp]:
  "issued_by log (self\<lparr>cl_state := (cl_state self)\<lparr>cs_capabilities := caps\<rparr>\<rparr>) = issued_by log self"
  by (simp add: issued_by_def)

lemma refresh_capabilities_Ok:
  assumes "refresh_capabilities E self = Ret (Inr u, self')"
  shows "\<exists>caps s1. client_task E as_capabilities (T_Capability capability_task_new) self = Ret (Inr caps, s1) \<and>
    self' = s1\<lparr>cl_state := (cl_state s1)\<lparr>cs_capabilities := caps\<rparr>\<rparr>"
  using assms by (auto simp: refresh_capabilities_def set_capabilities_def elim: op_bind_Ok)

lemma refresh_capabilities_issues:
  assumes "refresh_capabilities E self = Ret (Inr u, self')" and "logs E"
  shows "issued_by snd self' = issued_by snd self @ [Cmd_Capability] \<and>
    answered_with E self (cs_capabilities (cl_state self'))"
proof -
  obtain caps s1 where t: "client_task E as_capabilities (T_Capability capability_task_new) self = Ret (Inr caps, s1)"
    and self': "self' = s1\<lparr>cl_state := (cl_state s1)\<lparr>cs_capabilities := caps\<rparr>\<rparr>"
    using refresh_capabilities_Ok [OF assms(1)] by blast
  from client_task_logged [OF t assms(2)] t show ?thesis
    by (auto simp: self' task_simps answered_with_def)
qed

lemma refresh_capabilities_Error:
  "refresh_capabilities E self = Ret (Inl e, self') \<Longrightarrow> same_but_io self self'"
  by (auto simp: refresh_capabilities_def set_capabilities_def dest: client_task_same elim!: op_bind_Ret)

context command_log
begin

lemma receive_greeting_issues:
  assumes "receive_greeting E self = Ret (r, self')" and "env_next E = N"
  shows "issued_by log self' = issued_by log self"
proof -
  let ?M = "resolver_machine N (env_lib E)" and ?rs = "cs_resolver (cl_state self)"
  obtain x st rs' where str: "stream_next (env_socket E) ?M (cl_stream self, ?rs) = Ret (x, st, rs')"
    and log': "issued_by log self' = issued_by log (cl_put st rs' self)"
    using assms by (auto simp: receive_greeting_def Let_def issued_by_def split: run.splits sum.splits
        scheduler_event.splits option.splits code.splits)
  have "log (rs_client rs') = log (rs_client ?rs)"
    by (rule stream_next_machine_keeps [where J = "\<lambda>rs. log (rs_client rs) = log (rs_client ?rs)", OF str])
      (auto simp: resolver_machine_def enqueue_input_log dest: resolver_next_log)
  with log' show ?thesis by (simp add: issued_by_def cl_put_def)
qed

end

lemma receive_greeting_logged:
  "receive_greeting E self = Ret (r, self') \<Longrightarrow> logs E \<Longrightarrow> issued_by snd self' = issued_by snd self"
  by (auto simp: logs_def dest: logged.receive_greeting_issues)

lemma receive_greeting_Ok:
  assumes "receive_greeting E self = Ret (Inr found, self')"
  obtains ev stream resolver where
    "stream_next (env_socket E) (resolver_machine (env_next E) (env_lib E))
       (cl_stream self, cs_resolver (cl_state self)) = Ret (Inr ev, stream, resolver)"
    and "found \<longleftrightarrow> greeting_capabilities ev \<noteq> None"
    and "self' = (case greeting_capabilities ev of
           None \<Rightarrow> cl_put stream resolver self
         | Some caps \<Rightarrow> set_caps caps (cl_put stream resolver self))"
  using assms
  by (auto simp: receive_greeting_def Let_def greeting_capabilities_def set_caps_def split: run.splits
      sum.splits scheduler_event.splits option.splits code.splits)

lemma receive_greeting_host:
  "receive_greeting E self = Ret (r, self') \<Longrightarrow> cl_host self' = cl_host self"
  by (auto simp: receive_greeting_def Let_def cl_put_def split: run.splits sum.splits
      scheduler_event.splits option.splits code.splits)

text \<open>After the greeting: the capabilities are the greeting's, and otherwise the answer to a request.\<close>

lemma connected_learns:
  assumes "(if starttls then refresh_capabilities E else insecure_connected E) s0 = Ret (Inr u, self)"
    and "logs E" and "issued_by snd s0 = []"
  shows "learns E starttls s0 self (issued_by snd self)"
proof (cases starttls)
  case True
  with assms refresh_capabilities_issues [of E s0 u self] show ?thesis by (simp add: learns_def)
next
  case False
  with assms(1) obtain found s1 where g: "receive_greeting E s0 = Ret (Inr found, s1)"
    and rest: "(if \<not> found then refresh_capabilities E else op_return ()) s1 = Ret (Inr u, self)"
    unfolding insecure_connected_def by (auto elim: op_bind_Ok)
  from receive_greeting_logged [OF g assms(2)] assms(3) have none: "issued_by snd s1 = []" by simp
  from receive_greeting_Ok [OF g] obtain ev stream resolver where
    str: "stream_next (env_socket E) (resolver_machine (env_next E) (env_lib E))
       (cl_stream s0, cs_resolver (cl_state s0)) = Ret (Inr ev, stream, resolver)"
    and found: "found \<longleftrightarrow> greeting_capabilities ev \<noteq> None"
    and s1: "s1 = (case greeting_capabilities ev of
           None \<Rightarrow> cl_put stream resolver s0
         | Some caps \<Rightarrow> set_caps caps (cl_put stream resolver s0))" .
  show ?thesis
  proof (cases "greeting_capabilities ev")
    case None
    with found rest have "refresh_capabilities E s1 = Ret (Inr u, self)" by simp
    from refresh_capabilities_issues [OF this assms(2)] None s1 str none False show ?thesis
      by (simp add: learns_def)
  next
    case (Some caps)
    with found rest have "self = s1" by simp
    with Some s1 str none False show ?thesis by (simp add: learns_def set_caps_def)
  qed
qed

section \<open>A connected client\<close>

lemma net_bind_Ok:
  assumes "net_bind m f w = Ret (Inr b, w')"
  obtains a w1 where "m w = Ret (Inr a, w1)" "f a w1 = Ret (Inr b, w')"
  using assms by (auto simp: net_bind_def split: run.splits sum.splits prod.splits)

lemma net_map_err_Ok [simp]: "net_map_err C m w = Ret (Inr a, w') \<longleftrightarrow> m w = Ret (Inr a, w')"
  by (auto simp: net_map_err_def split: run.splits sum.splits prod.splits)

lemma net_simps [simp]:
  "net_return a w = Ret (r, w') \<longleftrightarrow> r = Inr a \<and> w' = w"
  "net_throw e w = Ret (r, w') \<longleftrightarrow> r = Inl e \<and> w' = w"
  "net_unwrap u w = Ret (r, w') \<longleftrightarrow> (\<exists>a. u = Inr a \<and> r = Inr a) \<and> w' = w"
  by (auto simp: net_return_def net_throw_def net_unwrap_def split: sum.splits)

lemma net_client_Ok [simp]:
  "net_client m self w = Ret (Inr self', w') \<longleftrightarrow> m self = Ret (Inr (), self') \<and> w' = w"
  by (auto simp: net_client_def split: run.splits sum.splits prod.splits)

text \<open>A client that has just been connected through \<open>socket\<close>.\<close>

definition just_connected ::
    "('v, 'c, 'g, ('p, 't) maybe_tls) env \<Rightarrow> ('v, 'c, 'p, 't, 'n, 'k, 'w) network \<Rightarrow> string \<Rightarrow> bool
       \<Rightarrow> ('p, 't) maybe_tls \<Rightarrow> ('v, 'c, 'g, ('p, 't) maybe_tls) client" where
  "just_connected E W host discard socket =
     \<lparr>cl_host = host,
      cl_state = client_state_new (env_next E)
        (next_new W ((default_options W)\<lparr>crlf_relaxed := True, discard_greeting := discard\<rparr>)),
      cl_stream = stream_new socket\<rparr>"

lemma just_connected_simps [simp]:
  "cl_host (just_connected E W host discard socket) = host"
  "cl_stream (just_connected E W host discard socket) = stream_new socket"
  by (simp_all add: just_connected_def)

lemma just_connected_issued [simp]:
  "snd (next_new W ((default_options W)\<lparr>crlf_relaxed := True, discard_greeting := discard\<rparr>)) = [] \<Longrightarrow>
     issued_by snd (just_connected E W host discard socket) = []"
  by (simp add: just_connected_def issued_by_def rs_client_def client_state_new_def resolver_new_def
      scheduler_new_def)

lemma client_tcp_Ok:
  "client_tcp E W host port discard w = Ret (Inr self, w') \<longleftrightarrow>
     (\<exists>tcp. tcp_connect W host port w = Ret (Inr tcp, w') \<and>
       self = just_connected E W host discard (Plain tcp))"
  by (auto simp: just_connected_def client_tcp_def Let_def net_bind_def net_map_err_def net_return_def
      split: run.splits sum.splits prod.splits)

lemma rustls_config_pinned:
  "rustls_config W (Some path) w = Ret (Inr config, w') \<Longrightarrow>
     \<exists>pem der rest. read_file W path w = Ret (Inr pem, w') \<and> pem_certs W pem = Inr der # rest \<and>
       tls_verifier config = Pinned (fingerprint_verifier_new (sha256_digest W) der)"
  by (auto simp: rustls_config_def Let_def elim!: net_bind_Ok split: list.splits sum.splits)

lemma upgrade_rustls_Ok:
  assumes "upgrade_rustls E W starttls cert self w = Ret (Inr self', w')"
  obtains tcp tcp' w1 config w2 name tls where "stream_socket (cl_stream self) = Plain tcp"
    and "if starttls then starttls_prefix W tcp w = Ret (Inr tcp', w1) else tcp' = tcp \<and> w1 = w"
    and "rustls_config W cert w1 = Ret (Inr config, w2)"
    and "parse_server_name W (cl_host self) = Inr name"
    and "tls_connect W (config\<lparr>alpn_protocols := [''imap'']\<rparr>) name tcp' w2 = Ret (Inr tls, w')"
    and "(if starttls then refresh_capabilities E else insecure_connected E)
      (self\<lparr>cl_stream := stream_new (Rustls tls)\<rparr>) = Ret (Inr (), self')"
  using assms
  by (cases starttls) (auto simp: upgrade_rustls_def stream_into_inner_def Let_def insecure_connected_def
      elim!: net_bind_Ok split: maybe_tls.splits)

lemma stream_new_socket [simp]: "stream_socket (stream_new s) = s"
  by (simp add: stream_new_def)

text \<open>What follows the TLS handshake keeps the socket and the host.\<close>

lemma refresh_capabilities_keeps:
  assumes "refresh_capabilities E self = Ret (Inr u, self')" and "env_socket E = maybe_tls_socket P T"
    and "is_tls (stream_socket (cl_stream self))"
  shows "is_tls (stream_socket (cl_stream self')) \<and> cl_host self' = cl_host self"
proof -
  from refresh_capabilities_Ok [OF assms(1)] obtain caps s1
    where t: "client_task E as_capabilities (T_Capability capability_task_new) self = Ret (Inr caps, s1)"
      and self': "self' = s1\<lparr>cl_state := (cl_state s1)\<lparr>cs_capabilities := caps\<rparr>\<rparr>"
    by blast
  from tls.client_task_keeps [OF t assms(2,3)] client_task_same [OF t] self' show ?thesis
    by (simp add: same_but_io_def)
qed

lemma insecure_connected_keeps:
  assumes "insecure_connected E self = Ret (Inr u, self')" and "env_socket E = maybe_tls_socket P T"
    and "is_tls (stream_socket (cl_stream self))"
  shows "is_tls (stream_socket (cl_stream self')) \<and> cl_host self' = cl_host self"
proof -
  from assms(1) obtain found s1 where g: "receive_greeting E self = Ret (Inr found, s1)"
    and rest: "(if \<not> found then refresh_capabilities E else op_return ()) s1 = Ret (Inr u, self')"
    unfolding insecure_connected_def by (rule op_bind_Ok)
  from tls.receive_greeting_keeps [OF g assms(2,3)] receive_greeting_host [OF g] rest assms(2)
  show ?thesis by (cases found) (auto dest: refresh_capabilities_keeps)
qed

lemma client_rustls_Ok:
  assumes "client_rustls E W host port starttls cert w = Ret (Inr self, w')"
  obtains tcp w1 where "tcp_connect W host port w = Ret (Inr tcp, w1)"
    and "upgrade_rustls E W starttls cert (just_connected E W host starttls (Plain tcp)) w1 = Ret (Inr self, w')"
  using assms by (auto simp: client_rustls_def client_tcp_Ok elim!: net_bind_Ok)

text \<open>C21: A client that \<open>rustls\<close> returns talks TLS and nothing else. The TCP stream it connected
  goes through the STARTTLS prefix when that was asked for and into the handshake otherwise
  untouched; the handshake is for the host the caller named, offers the protocol imap, and
  checks the server with the platform's verifier or, given a file, with one that accepts
  exactly the certificates of the same digest as the first one of the file.\<close>

theorem rustls_client_talks_tls:
  assumes "env_socket E = maybe_tls_socket P T"
    and "client_rustls E W host port starttls cert w = Ret (Inr self, w')"
  shows "\<exists>tcp w1 tcp' w2 config w3 name tls.
    tcp_connect W host port w = Ret (Inr tcp, w1) \<and>
    (if starttls then starttls_prefix W tcp w1 = Ret (Inr tcp', w2) else tcp' = tcp \<and> w2 = w1) \<and>
    (case cert of
       Some path \<Rightarrow> (\<exists>pem der rest v. read_file W path w2 = Ret (Inr pem, w3) \<and>
         pem_certs W pem = Inr der # rest \<and> tls_verifier config = Pinned v \<and>
         (\<forall>leaf. verify_server_cert (sha256_digest W) v leaf [] name [] w3 = Inr () \<longleftrightarrow>
            sha256_digest W leaf = sha256_digest W der))
     | None \<Rightarrow> (\<exists>c. platform_config W w2 = Ret (Inr c, w3) \<and> tls_verifier config = tls_verifier c)) \<and>
    parse_server_name W host = Inr name \<and> alpn_protocols config = [''imap''] \<and>
    tls_connect W config name tcp' w3 = Ret (Inr tls, w') \<and>
    is_tls (stream_socket (cl_stream self)) \<and> cl_host self = host"
proof -
  from client_rustls_Ok [OF assms(2)] obtain tcp w1
    where tcp: "tcp_connect W host port w = Ret (Inr tcp, w1)"
      and new: "upgrade_rustls E W starttls cert (just_connected E W host starttls (Plain tcp)) w1 =
        Ret (Inr self, w')" .
  define self0 where "self0 = just_connected E W host starttls (Plain tcp)"
  have self0: "cl_host self0 = host" "stream_socket (cl_stream self0) = Plain tcp"
    and up: "upgrade_rustls E W starttls cert self0 w1 = Ret (Inr self, w')"
    using new by (simp_all add: self0_def)
  from upgrade_rustls_Ok [OF up] obtain tcp1 tcp' w2 config w3 name tls
    where plain: "stream_socket (cl_stream self0) = Plain tcp1"
      and prefix: "if starttls then starttls_prefix W tcp1 w1 = Ret (Inr tcp', w2) else tcp' = tcp1 \<and> w2 = w1"
      and config: "rustls_config W cert w2 = Ret (Inr config, w3)"
      and name: "parse_server_name W (cl_host self0) = Inr name"
      and tls: "tls_connect W (config\<lparr>alpn_protocols := [''imap'']\<rparr>) name tcp' w3 = Ret (Inr tls, w')"
      and last: "(if starttls then refresh_capabilities E else insecure_connected E)
        (self0\<lparr>cl_stream := stream_new (Rustls tls)\<rparr>) = Ret (Inr (), self)"
    by blast
  have "is_tls (stream_socket (cl_stream self)) \<and> cl_host self = cl_host self0"
    using last assms(1) refresh_capabilities_keeps [of E _ _ self P T] insecure_connected_keeps [of E _ _ self P T]
    by (cases starttls) (fastforce simp: is_tls_def)+
  moreover let ?config = "config\<lparr>alpn_protocols := [''imap'']\<rparr>"
  have "case cert of
       Some path \<Rightarrow> (\<exists>pem der rest v. read_file W path w2 = Ret (Inr pem, w3) \<and>
         pem_certs W pem = Inr der # rest \<and> tls_verifier ?config = Pinned v \<and>
         (\<forall>leaf. verify_server_cert (sha256_digest W) v leaf [] name [] w3 = Inr () \<longleftrightarrow>
            sha256_digest W leaf = sha256_digest W der))
     | None \<Rightarrow> (\<exists>c. platform_config W w2 = Ret (Inr c, w3) \<and> tls_verifier ?config = tls_verifier c)"
  proof (cases cert)
    case None
    with config show ?thesis by (auto simp: rustls_config_def)
  next
    case (Some path)
    with rustls_config_pinned [of W path w2 config w3] config show ?thesis
      by (auto simp: verify_server_cert_def fingerprint_verifier_new_def)
  qed
  ultimately show ?thesis
    using tcp self0 plain prefix name tls
    by (simp only: stream_new_socket maybe_tls.inject)
      (rule exI [of _ tcp], rule exI [of _ w1], rule exI [of _ tcp'], rule exI [of _ w2],
        rule exI [of _ ?config], rule exI [of _ w3], rule exI [of _ name], rule exI [of _ tls], simp)
qed

text \<open>What a connected client did last, and through which socket.\<close>

lemma connected_socket:
  assumes "(if encrypted then client_rustls E W host port starttls cert w
      else client_insecure E W host port w) = Ret (Inr self, w')"
    and "starttls \<longrightarrow> encrypted"
  shows "\<exists>socket.
    (if encrypted then \<exists>config name tcp w1 tls.
        tls_connect W config name tcp w1 = Ret (Inr tls, w') \<and> socket = Rustls tls
     else \<exists>tcp. tcp_connect W host port w = Ret (Inr tcp, w') \<and> socket = Plain tcp) \<and>
    (if starttls then refresh_capabilities E else insecure_connected E)
      (just_connected E W host starttls socket) = Ret (Inr (), self)"
proof (cases encrypted)
  case True
  with assms(1) obtain tcp w1 where
    up: "upgrade_rustls E W starttls cert (just_connected E W host starttls (Plain tcp)) w1 = Ret (Inr self, w')"
    by (auto elim: client_rustls_Ok)
  have same: "(just_connected E W host starttls (Plain tcp))\<lparr>cl_stream := stream_new (Rustls tls)\<rparr> =
      just_connected E W host starttls (Rustls tls)" for tls
    by (simp add: just_connected_def)
  obtain tcp' w2 config name tls
    where "tls_connect W (config\<lparr>alpn_protocols := [''imap'']\<rparr>) name tcp' w2 = Ret (Inr tls, w')"
      and "(if starttls then refresh_capabilities E else insecure_connected E)
        ((just_connected E W host starttls (Plain tcp))\<lparr>cl_stream := stream_new (Rustls tls)\<rparr>) =
          Ret (Inr (), self)"
    by (rule upgrade_rustls_Ok [OF up])
  then show ?thesis
    unfolding same using True by (intro exI [of _ "Rustls tls"] conjI) auto
next
  case False
  with assms show ?thesis
    by (auto simp: client_insecure_def client_tcp_Ok elim!: net_bind_Ok)
qed

text \<open>C22: A connected client knows what the server can do, and has asked for it only when it had to.
  On a plain or directly encrypted connection, when the first thing the new connection reports is a
  greeting that names the capabilities, these are the client's and nothing has been sent; otherwise
  exactly one CAPABILITY has been sent, after that report, and the client holds what this
  very request returned. After STARTTLS, where the greeting was not protected, exactly one CAPABILITY
  has been sent in any case, over the encrypted connection.\<close>

theorem connected_client_knows_capabilities:
  assumes "logs E" and "\<forall>opts. snd (next_new W opts) = []"
    and "(if encrypted then client_rustls E W host port starttls cert w
      else client_insecure E W host port w) = Ret (Inr self, w')"
    and "starttls \<longrightarrow> encrypted"
  shows "\<exists>socket s0. s0 = just_connected E W host starttls socket \<and>
    (if encrypted then \<exists>config name tcp w1 tls.
        tls_connect W config name tcp w1 = Ret (Inr tls, w') \<and> socket = Rustls tls
     else \<exists>tcp. tcp_connect W host port w = Ret (Inr tcp, w') \<and> socket = Plain tcp) \<and>
    (if starttls then issued_by snd self = [Cmd_Capability] \<and>
        answered_with E s0 (cs_capabilities (cl_state self))
     else \<exists>ev stream resolver.
        stream_next (env_socket E) (resolver_machine (env_next E) (env_lib E))
            (cl_stream s0, cs_resolver (cl_state s0)) = Ret (Inr ev, stream, resolver) \<and>
        (case greeting_capabilities ev of
           Some caps \<Rightarrow> issued_by snd self = [] \<and> cs_capabilities (cl_state self) = caps
         | None \<Rightarrow> issued_by snd self = [Cmd_Capability] \<and>
             answered_with E (cl_put stream resolver s0) (cs_capabilities (cl_state self))))"
proof -
  let ?new = "just_connected E W host starttls"
  obtain socket where socket: "if encrypted then \<exists>config name tcp w1 tls.
        tls_connect W config name tcp w1 = Ret (Inr tls, w') \<and> socket = Rustls tls
     else \<exists>tcp. tcp_connect W host port w = Ret (Inr tcp, w') \<and> socket = Plain tcp"
    and last: "(if starttls then refresh_capabilities E else insecure_connected E) (?new socket) =
      Ret (Inr (), self)"
    using connected_socket [OF assms(3,4)] by blast
  have "learns E starttls (?new socket) self (issued_by snd self)"
    using connected_learns [OF last assms(1)] assms(2) by simp
  with socket show ?thesis unfolding learns_def
    by (intro exI [of _ socket] exI [of _ "?new socket"] conjI refl)
qed

section \<open>A failed upgrade\<close>

text \<open>
  The stages of an upgrade that have gone well: the STARTTLS prefix, when one was asked for, and the
  configuration, from the certificate file or from the platform.
\<close>

definition prefix_done ::
    "('v, 'c, 'p, 't, 'n, 'k, 'w) network \<Rightarrow> bool \<Rightarrow> 'p \<Rightarrow> 'w \<Rightarrow> 'p \<Rightarrow> 'w \<Rightarrow> bool" where
  "prefix_done W starttls tcp w tcp' w' \<longleftrightarrow>
     (if starttls then starttls_prefix W tcp w = Ret (Inr tcp', w') else tcp' = tcp \<and> w' = w)"

definition config_done ::
    "('v, 'c, 'p, 't, 'n, 'k, 'w) network \<Rightarrow> string option \<Rightarrow> 'w \<Rightarrow> 'k tls_config \<Rightarrow> 'w \<Rightarrow> bool" where
  "config_done W cert w config w' \<longleftrightarrow>
     (case cert of
        Some path \<Rightarrow> \<exists>pem der rest. read_file W path w = Ret (Inr pem, w') \<and> pem_certs W pem = Inr der # rest \<and>
          config = \<lparr>tls_verifier = Pinned (fingerprint_verifier_new (sha256_digest W) der),
            alpn_protocols = [''imap'']\<rparr>
      | None \<Rightarrow> \<exists>c. platform_config W w = Ret (Inr c, w') \<and> config = c\<lparr>alpn_protocols := [''imap'']\<rparr>)"

text \<open>Every way in which an upgrade fails, with the error and the state of the world it leaves.\<close>

inductive upgrade_fails ::
    "('v, 'c, 'g, ('p, 't) maybe_tls) env \<Rightarrow> ('v, 'c, 'p, 't, 'n, 'k, 'w) network \<Rightarrow> bool \<Rightarrow> string option
       \<Rightarrow> ('v, 'c, 'g, ('p, 't) maybe_tls) client \<Rightarrow> 'w \<Rightarrow> 'v client_error \<Rightarrow> 'w \<Rightarrow> bool"
  for E W starttls cert self w where
  encrypted_already: "upgrade_fails E W starttls cert self w ClientAlreadyTlsError w"
    if "stream_socket (cl_stream self) = Rustls tls"
| no_prefix: "upgrade_fails E W starttls cert self w (DoStarttlsPrefixError e) w1"
    if "stream_socket (cl_stream self) = Plain tcp" "starttls" "starttls_prefix W tcp w = Ret (Inl e, w1)"
| no_file: "upgrade_fails E W starttls cert self w (DoStarttlsPrefixError e) w2"
    if "stream_socket (cl_stream self) = Plain tcp" "prefix_done W starttls tcp w tcp' w1"
      "cert = Some path" "read_file W path w1 = Ret (Inl e, w2)"
| empty_file: "upgrade_fails E W starttls cert self w (EmptyCert path) w2"
    if "stream_socket (cl_stream self) = Plain tcp" "prefix_done W starttls tcp w tcp' w1"
      "cert = Some path" "read_file W path w1 = Ret (Inr pem, w2)" "pem_certs W pem = []"
| bad_cert: "upgrade_fails E W starttls cert self w (InvalidCert e path) w2"
    if "stream_socket (cl_stream self) = Plain tcp" "prefix_done W starttls tcp w tcp' w1"
      "cert = Some path" "read_file W path w1 = Ret (Inr pem, w2)" "pem_certs W pem = Inl e # rest"
| no_platform: "upgrade_fails E W starttls cert self w (TlsConfig e) w2"
    if "stream_socket (cl_stream self) = Plain tcp" "prefix_done W starttls tcp w tcp' w1"
      "cert = None" "platform_config W w1 = Ret (Inl e, w2)"
| no_handshake: "upgrade_fails E W starttls cert self w (ConnectToTlsStreamError e) w3"
    if "stream_socket (cl_stream self) = Plain tcp" "prefix_done W starttls tcp w tcp' w1"
      "config_done W cert w1 config w2" "parse_server_name W (cl_host self) = Inr name"
      "tls_connect W config name tcp' w2 = Ret (Inl e, w3)"
| no_greeting: "upgrade_fails E W starttls cert self w (ReceiveGreeting e) w3"
    if "stream_socket (cl_stream self) = Plain tcp" "prefix_done W starttls tcp w tcp' w1"
      "config_done W cert w1 config w2" "parse_server_name W (cl_host self) = Inr name"
      "tls_connect W config name tcp' w2 = Ret (Inr tls, w3)" "\<not> starttls"
      "stream_next (env_socket E) (resolver_machine (env_next E) (env_lib E))
         (stream_new (Rustls tls), cs_resolver (cl_state self)) = Ret (Inl e, x)"
| no_capabilities: "upgrade_fails E W starttls cert self w e w3"
    if "stream_socket (cl_stream self) = Plain tcp" "prefix_done W starttls tcp w tcp' w1"
      "config_done W cert w1 config w2" "parse_server_name W (cl_host self) = Inr name"
      "tls_connect W config name tcp' w2 = Ret (Inr tls, w3)"
      "s0 = self\<lparr>cl_stream := stream_new (Rustls tls)\<rparr>"
      "if starttls then s1 = s0 else receive_greeting E s0 = Ret (Inr False, s1)"
      "client_task E as_capabilities (T_Capability capability_task_new) s1 = Ret (Inl e, s2)"

lemma net_bind_Ret:
  "net_bind m f w = Ret (r, w') \<longleftrightarrow>
     (\<exists>e. m w = Ret (Inl e, w') \<and> r = Inl e) \<or> (\<exists>a w1. m w = Ret (Inr a, w1) \<and> f a w1 = Ret (r, w'))"
  by (auto simp: net_bind_def split: run.splits sum.splits prod.splits)

lemma net_map_err_Error [simp]:
  "net_map_err C m w = Ret (Inl e, w') \<longleftrightarrow> (\<exists>e'. m w = Ret (Inl e', w') \<and> e = C e')"
  by (auto simp: net_map_err_def split: run.splits sum.splits prod.splits)

lemma net_client_Error [simp]:
  "net_client m self w = Ret (Inl e, w') \<longleftrightarrow> (\<exists>self'. m self = Ret (Inl e, self')) \<and> w' = w"
  by (auto simp: net_client_def split: run.splits sum.splits prod.splits)

lemma receive_greeting_Error:
  "receive_greeting E self = Ret (Inl e, self') \<longleftrightarrow>
     (\<exists>e' stream resolver. stream_next (env_socket E) (resolver_machine (env_next E) (env_lib E))
        (cl_stream self, cs_resolver (cl_state self)) = Ret (Inl e', stream, resolver) \<and>
        e = ReceiveGreeting e' \<and> self' = cl_put stream resolver self)"
  by (auto simp: receive_greeting_def Let_def split: run.splits sum.splits scheduler_event.splits
      option.splits code.splits)

lemma refresh_capabilities_Error_iff:
  "refresh_capabilities E self = Ret (Inl e, self') \<longleftrightarrow>
     client_task E as_capabilities (T_Capability capability_task_new) self = Ret (Inl e, self')"
  by (auto simp: refresh_capabilities_def set_capabilities_def op_bind_def split: run.splits sum.splits prod.splits)

text \<open>The configuration stage: what it gives, and its four errors.\<close>

lemma pem_certs_cases:
  obtains "certs = []" | e rest where "certs = Inl e # rest" | der rest where "certs = Inr der # rest"
  by (cases certs; cases "hd certs") auto

lemma rustls_config_file:
  "rustls_config W (Some path) w = Ret (r, w') \<longleftrightarrow>
     (\<exists>e. read_file W path w = Ret (Inl e, w') \<and> r = Inl (DoStarttlsPrefixError e)) \<or>
     (\<exists>pem. read_file W path w = Ret (Inr pem, w') \<and>
        (pem_certs W pem = [] \<and> r = Inl (EmptyCert path) \<or>
         (\<exists>e rest. pem_certs W pem = Inl e # rest \<and> r = Inl (InvalidCert e path)) \<or>
         (\<exists>der rest. pem_certs W pem = Inr der # rest \<and>
            r = Inr \<lparr>tls_verifier = Pinned (fingerprint_verifier_new (sha256_digest W) der), alpn_protocols = []\<rparr>)))"
proof -
  have step: "(case certs of [] \<Rightarrow> net_throw (EmptyCert path) | Inl err # _ \<Rightarrow> net_throw (InvalidCert err path)
      | Inr cert # _ \<Rightarrow> net_return \<lparr>tls_verifier = Pinned (fingerprint_verifier_new (sha256_digest W) cert),
          alpn_protocols = []\<rparr>) w1 = Ret (r, w') \<longleftrightarrow> w1 = w' \<and>
      (certs = [] \<and> r = Inl (EmptyCert path) \<or>
       (\<exists>e rest. certs = Inl e # rest \<and> r = Inl (InvalidCert e path)) \<or>
       (\<exists>der rest. certs = Inr der # rest \<and>
          r = Inr \<lparr>tls_verifier = Pinned (fingerprint_verifier_new (sha256_digest W) der), alpn_protocols = []\<rparr>))"
    for certs w1
    by (cases certs rule: pem_certs_cases) auto
  then show ?thesis
    unfolding rustls_config_def Let_def option.case net_bind_Ret step
    by auto
qed

lemma rustls_config_done:
  "rustls_config W cert w = Ret (Inr c, w') \<Longrightarrow> config_done W cert w (c\<lparr>alpn_protocols := [''imap'']\<rparr>) w'"
proof (cases cert)
  case None
  then show "rustls_config W cert w = Ret (Inr c, w') \<Longrightarrow> ?thesis"
    by (auto simp: rustls_config_def config_done_def)
qed (auto simp: rustls_config_file config_done_def)

lemma config_done_rustls:
  "config_done W cert w config w' \<Longrightarrow>
     \<exists>c. rustls_config W cert w = Ret (Inr c, w') \<and> config = c\<lparr>alpn_protocols := [''imap'']\<rparr>"
proof (cases cert)
  case None
  then show "config_done W cert w config w' \<Longrightarrow> ?thesis"
    by (auto simp: rustls_config_def config_done_def)
qed (auto simp: rustls_config_file config_done_def)

lemma rustls_config_Error:
  "rustls_config W cert w = Ret (Inl err, w') \<longleftrightarrow>
     (case cert of
        Some path \<Rightarrow>
          (\<exists>e. read_file W path w = Ret (Inl e, w') \<and> err = DoStarttlsPrefixError e) \<or>
          (\<exists>pem. read_file W path w = Ret (Inr pem, w') \<and>
             (pem_certs W pem = [] \<and> err = EmptyCert path \<or>
              (\<exists>e rest. pem_certs W pem = Inl e # rest \<and> err = InvalidCert e path)))
      | None \<Rightarrow> \<exists>e. platform_config W w = Ret (Inl e, w') \<and> err = TlsConfig e)"
proof (cases cert)
  case None
  then show ?thesis by (auto simp: rustls_config_def)
qed (auto simp: rustls_config_file)

text \<open>The session after the handshake fails in the greeting or in the request for the capabilities.\<close>

lemma session_Error:
  "(if starttls then refresh_capabilities E else insecure_connected E) s0 = Ret (Inl e, s2) \<longleftrightarrow>
     (\<exists>e' stream resolver. \<not> starttls \<and> stream_next (env_socket E) (resolver_machine (env_next E) (env_lib E))
        (cl_stream s0, cs_resolver (cl_state s0)) = Ret (Inl e', stream, resolver) \<and>
        e = ReceiveGreeting e' \<and> s2 = cl_put stream resolver s0) \<or>
     (\<exists>s1. (if starttls then s1 = s0 else receive_greeting E s0 = Ret (Inr False, s1)) \<and>
        client_task E as_capabilities (T_Capability capability_task_new) s1 = Ret (Inl e, s2))"
proof (cases starttls)
  case True
  then show ?thesis by (simp add: refresh_capabilities_Error_iff)
next
  case False
  have "insecure_connected E s0 = Ret (Inl e, s2) \<longleftrightarrow> receive_greeting E s0 = Ret (Inl e, s2) \<or>
      (\<exists>s1. receive_greeting E s0 = Ret (Inr False, s1) \<and> refresh_capabilities E s1 = Ret (Inl e, s2))"
    by (auto simp: insecure_connected_def op_bind_def op_return_def split: run.splits sum.splits prod.splits)
  with False show ?thesis by (auto simp: receive_greeting_Error refresh_capabilities_Error_iff)
qed

lemma net_prefix_Ret:
  "(if starttls then net_map_err DoStarttlsPrefixError (starttls_prefix W tcp) else net_return tcp) w = Ret (r, w1) \<longleftrightarrow>
     (case r of
        Inr tcp' \<Rightarrow> prefix_done W starttls tcp w tcp' w1
      | Inl e \<Rightarrow> starttls \<and> (\<exists>e'. starttls_prefix W tcp w = Ret (Inl e', w1) \<and> e = DoStarttlsPrefixError e'))"
  by (cases r) (auto simp: prefix_done_def)

lemma upgrade_rustls_Error:
  assumes "stream_socket (cl_stream self) = Plain tcp"
  shows "upgrade_rustls E W starttls cert self w = Ret (Inl err, w') \<longleftrightarrow>
    (starttls \<and> (\<exists>e. starttls_prefix W tcp w = Ret (Inl e, w') \<and> err = DoStarttlsPrefixError e)) \<or>
    (\<exists>tcp' w1. prefix_done W starttls tcp w tcp' w1 \<and>
       (rustls_config W cert w1 = Ret (Inl err, w') \<or>
        (\<exists>c w2 name. rustls_config W cert w1 = Ret (Inr c, w2) \<and> parse_server_name W (cl_host self) = Inr name \<and>
          ((\<exists>e. tls_connect W (c\<lparr>alpn_protocols := [''imap'']\<rparr>) name tcp' w2 = Ret (Inl e, w') \<and>
             err = ConnectToTlsStreamError e) \<or>
           (\<exists>tls s2. tls_connect W (c\<lparr>alpn_protocols := [''imap'']\<rparr>) name tcp' w2 = Ret (Inr tls, w') \<and>
             (if starttls then refresh_capabilities E else insecure_connected E)
               (self\<lparr>cl_stream := stream_new (Rustls tls)\<rparr>) = Ret (Inl err, s2))))))"
proof -
  define session where "session = (if starttls then refresh_capabilities E else insecure_connected E)"
  define prefix where "prefix =
    (if starttls then net_map_err DoStarttlsPrefixError (starttls_prefix W tcp) else net_return tcp)"
  have "upgrade_rustls E W starttls cert self = net_bind prefix (\<lambda>tcp.
      net_bind (rustls_config W cert) (\<lambda>c.
      net_bind (net_unwrap (parse_server_name W (cl_host self))) (\<lambda>name.
      net_bind (net_map_err ConnectToTlsStreamError
        (tls_connect W (c\<lparr>alpn_protocols := [''imap'']\<rparr>) name tcp)) (\<lambda>tls.
      net_client session (self\<lparr>cl_stream := stream_new (Rustls tls)\<rparr>)))))"
    using assms
    by (simp add: upgrade_rustls_def stream_into_inner_def session_def prefix_def insecure_connected_def Let_def)
  moreover have "prefix w = Ret (r, w1) \<longleftrightarrow> (case r of
        Inr tcp' \<Rightarrow> prefix_done W starttls tcp w tcp' w1
      | Inl e \<Rightarrow> starttls \<and> (\<exists>e'. starttls_prefix W tcp w = Ret (Inl e', w1) \<and> e = DoStarttlsPrefixError e'))"
    for r w1
    unfolding prefix_def by (rule net_prefix_Ret)
  ultimately show ?thesis unfolding session_def [symmetric] by (auto simp: net_bind_Ret)
qed

lemma upgrade_reports:
  assumes "upgrade_rustls E W starttls cert self w = Ret (Inl err, w')"
  shows "upgrade_fails E W starttls cert self w err w'"
proof (cases "stream_socket (cl_stream self)")
  case (Rustls tls)
  with assms show ?thesis
    by (auto simp: upgrade_rustls_def stream_into_inner_def intro: encrypted_already)
next
  case (Plain tcp)
  from assms [unfolded upgrade_rustls_Error [OF Plain]]
  consider (prefix) e where "starttls" "starttls_prefix W tcp w = Ret (Inl e, w')" "err = DoStarttlsPrefixError e"
    | (config) tcp' w1 where "prefix_done W starttls tcp w tcp' w1" "rustls_config W cert w1 = Ret (Inl err, w')"
    | (handshake) tcp' w1 c w2 name e where "prefix_done W starttls tcp w tcp' w1"
        "rustls_config W cert w1 = Ret (Inr c, w2)" "parse_server_name W (cl_host self) = Inr name"
        "tls_connect W (c\<lparr>alpn_protocols := [''imap'']\<rparr>) name tcp' w2 = Ret (Inl e, w')"
        "err = ConnectToTlsStreamError e"
    | (session) tcp' w1 c w2 name tls s2 where "prefix_done W starttls tcp w tcp' w1"
        "rustls_config W cert w1 = Ret (Inr c, w2)" "parse_server_name W (cl_host self) = Inr name"
        "tls_connect W (c\<lparr>alpn_protocols := [''imap'']\<rparr>) name tcp' w2 = Ret (Inr tls, w')"
        "(if starttls then refresh_capabilities E else insecure_connected E)
          (self\<lparr>cl_stream := stream_new (Rustls tls)\<rparr>) = Ret (Inl err, s2)"
    by blast
  then show ?thesis
  proof cases
    case prefix
    with no_prefix [OF Plain] show ?thesis by simp
  next
    case config
    with no_file [OF Plain config(1)] empty_file [OF Plain config(1)] bad_cert [OF Plain config(1)]
      no_platform [OF Plain config(1)]
    show ?thesis by (cases cert) (auto simp: rustls_config_Error)
  next
    case handshake
    with no_handshake [OF Plain handshake(1) rustls_config_done [OF handshake(2)]] show ?thesis by simp
  next
    case session
    note stages = session(1) rustls_config_done [OF session(2)] session(3,4)
    from session(5) show ?thesis
      unfolding session_Error
      using no_greeting [OF Plain stages] no_capabilities [OF Plain stages refl] by auto
  qed
qed

lemma upgrade_config_Error:
  assumes "stream_socket (cl_stream self) = Plain tcp" and "prefix_done W starttls tcp w tcp' w1"
    and "rustls_config W cert w1 = Ret (Inl err, w')"
  shows "upgrade_rustls E W starttls cert self w = Ret (Inl err, w')"
  unfolding upgrade_rustls_Error [OF assms(1)] using assms(2,3) by blast

lemma upgrade_fails_reported:
  assumes "upgrade_fails E W starttls cert self w err w'"
  shows "upgrade_rustls E W starttls cert self w = Ret (Inl err, w')"
  using assms
proof cases
  case (encrypted_already tls)
  then show ?thesis by (simp add: upgrade_rustls_def stream_into_inner_def)
next
  case (no_handshake tcp tcp' w1 config w2 name e)
  with config_done_rustls [OF no_handshake(4)] show ?thesis
    unfolding upgrade_rustls_Error [OF no_handshake(2)] by blast
next
  case (no_greeting tcp tcp' w1 config w2 name tls e x)
  obtain stream resolver where x: "x = (stream, resolver)" by fastforce
  let ?s0 = "self\<lparr>cl_stream := stream_new (Rustls tls)\<rparr>"
  have "(if starttls then refresh_capabilities E else insecure_connected E) ?s0 =
      Ret (Inl err, cl_put stream resolver ?s0)"
    unfolding session_Error using no_greeting x by simp
  with config_done_rustls [OF no_greeting(4)] no_greeting(3-6) show ?thesis
    unfolding upgrade_rustls_Error [OF no_greeting(2)] by blast
next
  case (no_capabilities tcp tcp' w1 config w2 name tls s0 s1 s2)
  have "(if starttls then refresh_capabilities E else insecure_connected E) s0 = Ret (Inl err, s2)"
    unfolding session_Error
    by (rule disjI2, rule exI [of _ s1]) (rule conjI [OF no_capabilities(7,8)])
  with config_done_rustls [OF no_capabilities(3)] no_capabilities(2,4-6) show ?thesis
    unfolding upgrade_rustls_Error [OF no_capabilities(1)] by blast
next
  case (no_prefix tcp e)
  then show ?thesis by (simp add: upgrade_rustls_Error)
next
  case (no_file tcp tcp' w1 path e)
  then show ?thesis by (intro upgrade_config_Error [OF no_file(2,3)]) (simp add: rustls_config_Error)
next
  case (empty_file tcp tcp' w1 path pem)
  then show ?thesis by (intro upgrade_config_Error [OF empty_file(2,3)]) (simp add: rustls_config_Error)
next
  case (bad_cert tcp tcp' w1 path pem e rest)
  then show ?thesis by (intro upgrade_config_Error [OF bad_cert(2,3)]) (simp add: rustls_config_Error)
next
  case (no_platform tcp tcp' w1 e)
  then show ?thesis by (intro upgrade_config_Error [OF no_platform(2,3)]) (simp add: rustls_config_Error)
qed

text \<open>C39: What a failed upgrade reports, completely. \<open>upgrade_rustls\<close> returns an error exactly when one of
  these happens, in this order, with and without STARTTLS and with a certificate file or without: the
  client already talks TLS; the STARTTLS prefix fails; the certificate file cannot be read, which is
  reported as a failed STARTTLS prefix too, even when no STARTTLS was asked for; the file
  holds no certificate, or its first one does not parse, whatever follows, and the path is named; the
  platform's configuration cannot be built; the handshake fails; without STARTTLS, the greeting
  cannot be received; the request for the capabilities, where one is made, fails, with its own error.
  A host that is no server name is not among them: once the configuration is there, the
  client panics.\<close>

theorem upgrade_failures:
  "(upgrade_rustls E W starttls cert self w = Ret (Inl err, w') \<longleftrightarrow>
      upgrade_fails E W starttls cert self w err w') \<and>
   (\<forall>tcp tcp' w1 config w2 bad. stream_socket (cl_stream self) = Plain tcp \<longrightarrow>
      prefix_done W starttls tcp w tcp' w1 \<longrightarrow> config_done W cert w1 config w2 \<longrightarrow>
      parse_server_name W (cl_host self) = Inl bad \<longrightarrow> upgrade_rustls E W starttls cert self w = Panic)"
proof (intro conjI allI impI)
  show "upgrade_rustls E W starttls cert self w = Ret (Inl err, w') \<longleftrightarrow>
      upgrade_fails E W starttls cert self w err w'"
    by (rule iffI) (rule upgrade_reports, assumption, rule upgrade_fails_reported, assumption)
next
  fix tcp tcp' w1 config w2 bad
  assume start: "stream_socket (cl_stream self) = Plain tcp" "prefix_done W starttls tcp w tcp' w1"
    and config: "config_done W cert w1 config w2" and bad: "parse_server_name W (cl_host self) = Inl bad"
  from config_done_rustls [OF config] obtain c where "rustls_config W cert w1 = Ret (Inr c, w2)" by blast
  with start bad show "upgrade_rustls E W starttls cert self w = Panic"
    by (cases starttls) (simp_all add: upgrade_rustls_def stream_into_inner_def Let_def prefix_done_def
        net_bind_def net_map_err_def net_return_def net_unwrap_def)
qed

section \<open>Logging in\<close>

text \<open>C23: Logging in, with LOGIN or with AUTHENTICATE, updates the capabilities. When it succeeds, they
  are the ones the login reported, and otherwise the answer to one more command, a CAPABILITY;
  when it fails, the client still holds the ones it held before. Nothing but the
  login and that one CAPABILITY is sent.\<close>

theorem login_updates_capabilities:
  assumes "logs E" and "task_command_body (env_lib E) task = Ret body"
    and "task = T_Login (login_task_new username password) \<and>
        client_login E (Inr username) (Inr password) self = Ret (r, self') \<or>
      task = T_Authenticate auth \<and> client_authenticate E auth self = Ret (r, self')"
  shows "case r of
      Inl e \<Rightarrow> same_but_io self self' \<and> (\<exists>more \<in> {[], [Cmd_Capability]}.
        issued_by snd self' = issued_by snd self @ body # more)
    | Inr _ \<Rightarrow> \<exists>out s1. client_task E as_capabilities_opt task self = Ret (Inr out, s1) \<and>
        (case out of
           Some caps \<Rightarrow> cs_capabilities (cl_state self') = caps \<and>
             issued_by snd self' = issued_by snd self @ [body]
         | None \<Rightarrow> answered_with E s1 (cs_capabilities (cl_state self')) \<and>
             issued_by snd self' = issued_by snd self @ [body, Cmd_Capability])"
proof -
  let ?rest = "\<lambda>out. case out of Some caps \<Rightarrow> set_capabilities caps | None \<Rightarrow> refresh_capabilities E"
  have "op_bind (client_task E as_capabilities_opt task) ?rest self = Ret (r, self')"
    using assms(3) by (auto simp: client_login_def client_authenticate_def)
  then show ?thesis
  proof (cases rule: op_bind_Ret)
    case (raised e)
    with client_task_logged [OF raised(1) assms(1,2)] client_task_same [OF raised(1)] show ?thesis
      by simp
  next
    case (continued out s1)
    note issued = client_task_logged [OF continued(1) assms(1,2)]
    show ?thesis
    proof (cases out)
      case (Some caps)
      with continued issued show ?thesis by (auto simp: set_capabilities_def)
    next
      case None
      show ?thesis
      proof (cases r)
        case (Inl e)
        from None Inl continued(2) have refresh: "refresh_capabilities E s1 = Ret (Inl e, self')" by simp
        then obtain x where "client_task E as_capabilities (T_Capability capability_task_new) s1 = Ret (x, self')"
          by (auto simp: refresh_capabilities_def set_capabilities_def elim: op_bind_Ret)
        from client_task_logged [OF this assms(1)] refresh_capabilities_Error [OF refresh]
          client_task_same [OF continued(1)] issued Inl
        show ?thesis by (simp add: same_but_io_def task_simps)
      next
        case (Inr u)
        with None continued refresh_capabilities_issues [of E s1 u self'] assms(1) issued show ?thesis
          by (intro exI [of _ None] exI [of _ s1] | simp)+
      qed
    qed
  qed
qed

lemma login_updates_capabilities_witness:
  "\<exists>self'. client_login demo_env (Inr 1) (Inr 2) (demo_client []
      [Inr (CommandSent 0), Inr (StatusReceived (Status_Tagged ''0'' (ok_body (Some (Code_Capability [Cap_Move])) 0)))])
    = Ret (Inr (), self') \<and> issued_by snd self' \<in> {[Cmd_Login 1 2], [Cmd_Login 1 2, Cmd_Capability]}"
proof -
  let ?self = "demo_client [] [Inr (CommandSent 0),
    Inr (StatusReceived (Status_Tagged ''0'' (ok_body (Some (Code_Capability [Cap_Move])) 0)))]"
  have run: "\<exists>self'. client_login demo_env (Inr 1) (Inr 2) ?self = Ret (Inr (), self')"
    by (simp add: client_login_def set_capabilities_def demo_client_simps demo_task_simps)
  have none: "issued_by snd ?self = []"
    by (simp add: demo_client_simps issued_by_def rs_client_def)
  from run obtain self' where self': "client_login demo_env (Inr 1) (Inr 2) ?self = Ret (Inr (), self')"
    by blast
  have "task_command_body (env_lib demo_env) (T_Login (login_task_new 1 2)) = Ret (Cmd_Login 1 2)"
    by (simp add: task_simps login_task_new_def)
  from login_updates_capabilities [OF demo_logs this, of 1 2 ?self "Inr ()" self'] self' none
  show ?thesis by (auto split: option.splits)
qed

section \<open>Concrete connections\<close>

text \<open>
  A network whose files hold one certificate, the bytes of the file, and a client of imap-next that
  reports the given events.
\<close>

definition demo_network ::
    "(nat next_error interrupt + nat event) list
       \<Rightarrow> (nat, nat script \<times> nat command list, bytes list, bytes list, string, unit, nat) network" where
  "demo_network rs =
     \<lparr>tcp_connect = (\<lambda>host port w. Ret (Inr [], Suc w)), starttls_prefix = (\<lambda>tcp w. Ret (Inr tcp, Suc w)),
      read_file = (\<lambda>path w. if path = ''missing'' then Ret (Inl (Io_Error_Other 2), w) else Ret (Inr path, w)),
      pem_certs = (\<lambda>pem. [Inr pem]), sha256_digest = rev,
      platform_config = (\<lambda>w. Ret (Inr \<lparr>tls_verifier = Platform (), alpn_protocols = []\<rparr>, w)),
      parse_server_name = Inr, tls_connect = (\<lambda>config name tcp w. Ret (Inr tcp, Suc w)),
      default_options = \<lparr>crlf_relaxed = False, discard_greeting = False, options_rest = 0\<rparr>,
      next_new = (\<lambda>opts. (script rs, []))\<rparr>"

definition demo_tls_env ::
    "(nat, nat script \<times> nat command list, nat, (bytes list, bytes list) maybe_tls) env" where
  "demo_tls_env =
     \<lparr>env_next = logged script_client, env_lib = example_lib,
      env_socket = maybe_tls_socket script_socket script_socket\<rparr>"

definition demo_greeting :: "(nat next_error interrupt + nat event) list" where
  "demo_greeting = [Inr (GreetingReceived
     \<lparr>gr_code = Some (Code_Capability [Cap_Imap4Rev1, Cap_Move]), gr_rest = 0\<rparr>)]"

lemmas demo_connect_simps =
  client_rustls_def client_tcp_def client_insecure_def insecure_connected_def upgrade_rustls_def
  stream_into_inner_def rustls_config_def net_bind_def net_map_err_def net_return_def net_throw_def
  net_unwrap_def net_client_def receive_greeting_def resolver_machine_def demo_network_def
  demo_tls_env_def demo_greeting_def

lemma demo_connected:
  "\<exists>self w'. client_rustls demo_tls_env (demo_network demo_greeting) ''host'' 993 False (Some ''cert'') 0
     = Ret (Inr self, w')"
  by (simp add: demo_connect_simps Let_def demo_client_simps)

lemma rustls_client_talks_tls_witness:
  "\<exists>self w'. client_rustls demo_tls_env (demo_network demo_greeting) ''host'' 993 False (Some ''cert'') 0
     = Ret (Inr self, w') \<and> is_tls (stream_socket (cl_stream self)) \<and> cl_host self = ''host''"
  using demo_connected rustls_client_talks_tls [of demo_tls_env script_socket script_socket]
  by (fastforce simp: demo_tls_env_def)

text \<open>A server whose greeting says nothing of its capabilities.\<close>

definition demo_silent :: "(nat next_error interrupt + nat event) list" where
  "demo_silent =
     [Inr (GreetingReceived \<lparr>gr_code = None, gr_rest = 0\<rparr>), Inr (CommandSent 0),
      Inr (DataReceived (Data_Capability [Cap_Move])),
      Inr (StatusReceived (Status_Tagged ''0'' (ok_body None 0)))]"

lemma demo_connected_silent:
  "\<exists>self w'. client_insecure demo_tls_env (demo_network demo_silent) ''host'' 143 0 = Ret (Inr self, w')"
  by (simp add: demo_connect_simps demo_silent_def refresh_capabilities_def set_capabilities_def Let_def
      demo_client_simps demo_task_simps)

lemma connected_client_knows_capabilities_witness:
  "(\<exists>self w'. client_rustls demo_tls_env (demo_network demo_greeting) ''host'' 993 False (Some ''cert'') 0
     = Ret (Inr self, w') \<and> issued_by snd self = [] \<and>
       cs_capabilities (cl_state self) = [Cap_Imap4Rev1, Cap_Move]) \<and>
   (\<exists>self w'. client_insecure demo_tls_env (demo_network demo_silent) ''host'' 143 0 = Ret (Inr self, w') \<and>
     issued_by snd self = [Cmd_Capability])"
proof -
  let ?caps = "[Cap_Imap4Rev1, Cap_Move]"
  have logs: "logs demo_tls_env" and new: "\<forall>opts. snd (next_new (demo_network rs) opts) = []" for rs
    by (auto simp: logs_def demo_tls_env_def demo_network_def)
  have greets: "stream_next (env_socket demo_tls_env)
        (resolver_machine (env_next demo_tls_env) (env_lib demo_tls_env))
        (stream_new socket, cs_resolver (cl_state (just_connected demo_tls_env (demo_network rs) ''host'' d socket)))
      = Ret (Inr ev, st, rs') \<Longrightarrow>
        greeting_capabilities ev = (if rs = demo_greeting then Some ?caps else None)"
    if "rs \<in> {demo_greeting, demo_silent}" for rs socket d ev st rs'
    using that by (auto simp: just_connected_def demo_connect_simps demo_silent_def greeting_capabilities_def
        demo_client_simps)
  from demo_connected demo_connected_silent obtain self1 w1 self2 w2
    where run1: "client_rustls demo_tls_env (demo_network demo_greeting) ''host'' 993 False (Some ''cert'') 0
        = Ret (Inr self1, w1)"
      and run2: "client_insecure demo_tls_env (demo_network demo_silent) ''host'' 143 0 = Ret (Inr self2, w2)"
    by blast
  have "issued_by snd self1 = [] \<and> cs_capabilities (cl_state self1) = ?caps"
    using connected_client_knows_capabilities [OF logs new, where encrypted = True and starttls = False,
        simplified, OF run1] greets [of demo_greeting]
    by fastforce
  moreover have "issued_by snd self2 = [Cmd_Capability]"
    using connected_client_knows_capabilities [OF logs new, where encrypted = False and starttls = False,
        simplified, OF run2] greets [of demo_silent]
    by (fastforce simp: demo_silent_def demo_greeting_def)
  ultimately show ?thesis using run1 run2 by blast
qed

text \<open>A client that has just connected, and its upgrade with a certificate file that is not there, or
  with a host that is no server name.\<close>

lemma upgrade_failures_witness:
  "\<exists>self. upgrade_rustls demo_tls_env (demo_network []) True (Some ''missing'') self 0 =
       Ret (Inl (DoStarttlsPrefixError (Io_Error_Other 2)), 1) \<and>
     upgrade_rustls demo_tls_env ((demo_network [])\<lparr>parse_server_name := Inl \<circ> length\<rparr>) True None self 0 = Panic"
proof -
  let ?W = "demo_network []"
  let ?bad = "?W\<lparr>parse_server_name := Inl \<circ> length\<rparr>"
  let ?self = "just_connected demo_tls_env ?W ''host'' True (Plain [])"
  have plain: "stream_socket (cl_stream ?self) = Plain []" by simp
  have "upgrade_fails demo_tls_env ?W True (Some ''missing'') ?self 0 (DoStarttlsPrefixError (Io_Error_Other 2)) 1"
  proof (rule no_file [OF plain])
    show "prefix_done ?W True [] 0 [] 1" by (simp add: prefix_done_def demo_network_def)
    show "read_file ?W ''missing'' 1 = Ret (Inl (Io_Error_Other 2), 1)" by (simp add: demo_network_def)
  qed simp
  then have "upgrade_rustls demo_tls_env ?W True (Some ''missing'') ?self 0 =
      Ret (Inl (DoStarttlsPrefixError (Io_Error_Other 2)), 1)"
    using upgrade_failures [of demo_tls_env ?W True "Some ''missing''" ?self 0] by blast
  moreover have "prefix_done ?bad True [] 0 [] 1"
    and "config_done ?bad None 1 \<lparr>tls_verifier = Platform (), alpn_protocols = [''imap'']\<rparr> 1"
    and "parse_server_name ?bad (cl_host ?self) = Inl 4"
    by (auto simp: prefix_done_def config_done_def demo_network_def)
  then have "upgrade_rustls demo_tls_env ?bad True None ?self 0 = Panic"
    using upgrade_failures [of demo_tls_env ?bad True None ?self 0] plain by blast
  ultimately show ?thesis by blast
qed

end
