(* ===== verification/Client_Idle.thy ===== *)
theory Client_Idle
  imports Client_High
begin

text \<open>
  The IDLE loop of the client (\<open>idle\<close> in \<open>src/client/tokio.rs\<close>). Every wait for an event runs under
  \<open>tokio::time::timeout\<close>: when the deadline passes while the stream waits for its socket, the
  future is dropped where it stands, and what it had done so far stays done.
\<close>

section \<open>Waiting with a deadline\<close>

text \<open>
  A socket with a timer. Arming sets the deadline; an operation that is still waiting when it passes
  answers the error \<open>Io_Error_Other None\<close>, real errors are \<open>Some\<close>. The stream hands an error
  through at once and does nothing more, so it stops where a dropped future stops.
\<close>

record ('s, 'v) timed_socket =
  ts_arm :: "duration \<Rightarrow> 's \<Rightarrow> 's"
  ts_socket :: "('s, 'v option) socket"

text \<open>The error of a wait, or \<open>None\<close> when it timed out.\<close>

fun io_in_time :: "'v option io_error \<Rightarrow> 'v io_error option" where
  "io_in_time (Io_WriteZero e) = map_option Io_WriteZero e"
| "io_in_time (Io_Error_Other e) = map_option Io_Error_Other e"

fun error_in_time :: "('e, 'v option) stream_error \<Rightarrow> ('e, 'v) stream_error option" where
  "error_in_time Closed = Some Closed"
| "error_in_time (Stream_Io e) = map_option Stream_Io (io_in_time e)"
| "error_in_time (Stream_State e) = Some (Stream_State e)"

text \<open>What one wait comes to: \<open>timeout(d, stream.next(client_next))\<close>.\<close>

datatype 'v wait_outcome =
    Timed_Out
  | Wait_Failed "('v next_error, 'v) stream_error"
  | Got_Event "'v event"

definition wait_event ::
    "('v, 'c, 'g) next_client \<Rightarrow> ('s, 'v) timed_socket \<Rightarrow> duration \<Rightarrow> 's stream \<times> 'c
       \<Rightarrow> ('v wait_outcome \<times> 's stream \<times> 'c) run" where
  "wait_event N T d x =
     (case x of (stream, c) \<Rightarrow>
        (case stream_next (ts_socket T) (next_machine N)
                (stream\<lparr>stream_socket := ts_arm T d (stream_socket stream)\<rparr>, c) of
           Ret (Inr event, x) \<Rightarrow> Ret (Got_Event event, x)
         | Ret (Inl e, x) \<Rightarrow>
             Ret (case error_in_time e of None \<Rightarrow> Timed_Out | Some err \<Rightarrow> Wait_Failed err, x)
         | Panic \<Rightarrow> Panic
         | Diverge \<Rightarrow> Diverge))"

section \<open>The loop\<close>

definition ask_done :: "('v, 'c, 'g) next_client \<Rightarrow> 's stream \<times> 'c \<Rightarrow> 's stream \<times> 'c" where
  "ask_done N x = (case x of (stream, c) \<Rightarrow> (stream, nc_set_idle_done N c))"

definition idle_turn ::
    "('v, 'c, 'g) next_client \<Rightarrow> ('s, 'v) timed_socket \<Rightarrow> duration \<Rightarrow> tag \<Rightarrow> 's stream \<times> 'c
       \<Rightarrow> ('s stream \<times> 'c, ('v next_error, 'v) stream_error + unit) flow" where
  "idle_turn N T idle_timeout tag x =
     (case wait_event N T idle_timeout x of
        Ret (outcome, x) \<Rightarrow>
          (case outcome of
             Timed_Out \<Rightarrow> Continue (ask_done N x)
           | Wait_Failed err \<Rightarrow> Break (Inl err) x
           | Got_Event event \<Rightarrow>
               (case event of
                  IdleCommandSent _ \<Rightarrow> Continue x
                | IdleAccepted _ \<Rightarrow> Continue x
                | IdleRejected _ status \<Rightarrow> Break (Inr ()) x
                | IdleDoneSent _ \<Rightarrow> Continue x
                | DataReceived data \<Rightarrow> Continue (ask_done N x)
                | StatusReceived (Status_Tagged got_tag _) \<Rightarrow>
                    if got_tag = tag then Break (Inr ()) x else Continue x
                | _ \<Rightarrow> Continue x))
      | Panic \<Rightarrow> Panicking
      | Diverge \<Rightarrow> Diverging)"

definition client_idle ::
    "('v, 'c, 'g) next_client \<Rightarrow> ('s, 'v) timed_socket \<Rightarrow> tag \<Rightarrow> ('v, 'c, 'g, 's) client
       \<Rightarrow> ((('v next_error, 'v) stream_error + unit) \<times> ('v, 'c, 'g, 's) client) run" where
  "client_idle N T tag self =
     (case rust_loop (idle_turn N T (cs_idle_timeout (cl_state self)) tag)
             (cl_stream self, client_next (cl_scheduler self)) of
        Ret (r, stream, c) \<Rightarrow>
          Ret (r, (cl_put_scheduler ((cl_scheduler self)\<lparr>client_next := c\<rparr>) self)\<lparr>cl_stream := stream\<rparr>)
      | Panic \<Rightarrow> Panic
      | Diverge \<Rightarrow> Diverge)"

section \<open>What a wait means to the loop\<close>

definition asks_done :: "'v wait_outcome \<Rightarrow> bool" where
  "asks_done w \<longleftrightarrow> w = Timed_Out \<or> (\<exists>d. w = Got_Event (DataReceived d))"

definition idle_result :: "tag \<Rightarrow> 'v wait_outcome \<Rightarrow> (('v next_error, 'v) stream_error + unit) option" where
  "idle_result tag w =
     (case w of
        Wait_Failed err \<Rightarrow> Some (Inl err)
      | Got_Event (IdleRejected _ _) \<Rightarrow> Some (Inr ())
      | Got_Event (StatusReceived (Status_Tagged got_tag _)) \<Rightarrow> if got_tag = tag then Some (Inr ()) else None
      | _ \<Rightarrow> None)"

lemma idle_turn_outcome:
  assumes "wait_event N T d x = Ret (w, x1)"
  shows "idle_turn N T d tag x =
    (case idle_result tag w of
       Some r \<Rightarrow> Break r x1
     | None \<Rightarrow> Continue (if asks_done w then ask_done N x1 else x1))"
  using assms
  by (auto simp: idle_turn_def idle_result_def asks_done_def split: wait_outcome.splits event.splits status.splits)

end
