(* ===== verification/Idle_Theorems.thy ===== *)
theory Idle_Theorems
  imports Client_Idle Client_Theorems
begin

text \<open>The properties of IDLE: when the loop ends, when it asks for DONE, and what it does to tasks.\<close>

section \<open>The loop\<close>

text \<open>The waits a loop goes through, with a request for DONE after those that ask for it.\<close>

inductive idle_waits ::
    "('v, 'c, 'g) next_client \<Rightarrow> ('s, 'v) timed_socket \<Rightarrow> duration \<Rightarrow> 's stream \<times> 'c
       \<Rightarrow> 'v wait_outcome list \<Rightarrow> 's stream \<times> 'c \<Rightarrow> bool"
  for N T d where
  started: "idle_waits N T d x [] x"
| waited: "wait_event N T d x = Ret (w, x1) \<Longrightarrow>
    idle_waits N T d (if asks_done w then ask_done N x1 else x1) ws y \<Longrightarrow> idle_waits N T d x (w # ws) y"

inductive_cases idle_waits_NilE: "idle_waits N T d x [] y"
inductive_cases idle_waits_ConsE: "idle_waits N T d x (w # ws) y"

lemma idle_waits_continues:
  "idle_waits N T d x ws y \<Longrightarrow> list_all (\<lambda>w. idle_result tag w = None) ws \<Longrightarrow>
     continues (idle_turn N T d tag) x y"
  by (induction rule: idle_waits.induct) (auto simp: idle_turn_outcome intro: continues.intros split: if_splits)

lemma idle_turn_Continue:
  assumes "idle_turn N T d tag x = Continue y"
  shows "\<exists>w x1. wait_event N T d x = Ret (w, x1) \<and> idle_result tag w = None \<and>
    y = (if asks_done w then ask_done N x1 else x1)"
proof (cases "wait_event N T d x")
  case (Ret p)
  then obtain w x1 where w: "wait_event N T d x = Ret (w, x1)" by (cases p) auto
  from idle_turn_outcome [OF w] assms w show ?thesis by (auto split: option.splits)
qed (use assms in \<open>simp_all add: idle_turn_def\<close>)

lemma idle_turn_Break:
  assumes "idle_turn N T d tag x = Break r y"
  shows "\<exists>w. wait_event N T d x = Ret (w, y) \<and> idle_result tag w = Some r"
proof (cases "wait_event N T d x")
  case (Ret p)
  then obtain w x1 where w: "wait_event N T d x = Ret (w, x1)" by (cases p) auto
  from idle_turn_outcome [OF w] assms w show ?thesis by (auto split: option.splits)
qed (use assms in \<open>simp_all add: idle_turn_def\<close>)

lemma continues_idle_waits:
  "continues (idle_turn N T d tag) x y \<Longrightarrow>
     \<exists>ws. idle_waits N T d x ws y \<and> list_all (\<lambda>w. idle_result tag w = None) ws"
proof (induction rule: continues.induct)
  case (here x)
  show ?case by (intro exI [of _ "[]"]) (simp add: idle_waits.started)
next
  case (turn x x' y)
  from idle_turn_Continue [OF turn.hyps(1)] obtain w x1 where w: "wait_event N T d x = Ret (w, x1)"
    "idle_result tag w = None" "x' = (if asks_done w then ask_done N x1 else x1)"
    by blast
  from turn.IH obtain ws where ws: "idle_waits N T d x' ws y" "list_all (\<lambda>w. idle_result tag w = None) ws"
    by blast
  from idle_waits.waited [OF w(1) ws(1) [unfolded w(3)]] w(2) ws(2) show ?case
    by (intro exI [of _ "w # ws"]) simp
qed

text \<open>C25: When \<open>idle\<close> ends, and how. It waits for one event after the other, each under the client's
  timeout, and asks imap-next for DONE after exactly the waits that timed out or brought data.
  It returns after the first wait that failed, that saw the IDLE rejected, or that saw a
  completion with the tag of the IDLE: with the failure in the first case and with success in
  the other two. It leaves the tasks and the capabilities of the client alone.\<close>

theorem idle_returns_iff:
  "client_idle N T tag self = Ret (r, self') \<longleftrightarrow>
     (\<exists>ws y w stream c.
        idle_waits N T (cs_idle_timeout (cl_state self)) (cl_stream self, client_next (cl_scheduler self)) ws y \<and>
        list_all (\<lambda>v. idle_result tag v = None) ws \<and>
        wait_event N T (cs_idle_timeout (cl_state self)) y = Ret (w, stream, c) \<and>
        idle_result tag w = Some r \<and>
        self' = (cl_put_scheduler ((cl_scheduler self)\<lparr>client_next := c\<rparr>) self)\<lparr>cl_stream := stream\<rparr>)"
  (is "?returns \<longleftrightarrow> ?waits")
proof
  let ?d = "cs_idle_timeout (cl_state self)" and ?x = "(cl_stream self, client_next (cl_scheduler self))"
  assume ?returns
  then obtain stream c where loop: "rust_loop (idle_turn N T ?d tag) ?x = Ret (r, stream, c)"
    and self': "self' = (cl_put_scheduler ((cl_scheduler self)\<lparr>client_next := c\<rparr>) self)\<lparr>cl_stream := stream\<rparr>"
    by (auto simp: client_idle_def split: run.splits)
  from rust_loop_Ret_reached [OF loop] obtain y where "continues (idle_turn N T ?d tag) ?x y"
    and "idle_turn N T ?d tag y = Break r (stream, c)"
    by blast
  with continues_idle_waits [of N T ?d tag ?x y] idle_turn_Break [of N T ?d tag y] self' show ?waits
    by blast
next
  let ?d = "cs_idle_timeout (cl_state self)" and ?x = "(cl_stream self, client_next (cl_scheduler self))"
  assume ?waits
  then obtain ws y w stream c where ws: "idle_waits N T ?d ?x ws y" "list_all (\<lambda>v. idle_result tag v = None) ws"
    and w: "wait_event N T ?d y = Ret (w, stream, c)" "idle_result tag w = Some r"
    and self': "self' = (cl_put_scheduler ((cl_scheduler self)\<lparr>client_next := c\<rparr>) self)\<lparr>cl_stream := stream\<rparr>"
    by blast
  from continues_rust_loop [OF idle_waits_continues [OF ws]] idle_turn_outcome [OF w(1)] w(2)
  have "rust_loop (idle_turn N T ?d tag) ?x = Ret (r, stream, c)" by (simp add: run_simps)
  with self' show ?returns by (simp add: client_idle_def)
qed

text \<open>A session: the IDLE is accepted, a wait times out, DONE goes out, and the server completes.\<close>

definition demo_timed :: "(bytes list, nat) timed_socket" where
  "demo_timed =
     \<lparr>ts_arm = (\<lambda>d s. s),
      ts_socket =
        \<lparr>sk_read = (\<lambda>n s. Ret (Inl (Io_Error_Other None), s)), sk_write_all = (\<lambda>b s. Ret (Inr (), s)),
         sk_flush = (\<lambda>s. Ret (Inr (), s))\<rparr>\<rparr>"

definition demo_idle :: "(nat next_error interrupt + nat event) list" where
  "demo_idle =
     [Inr (IdleCommandSent 0), Inr (IdleAccepted 0), Inl (Int_Io Io_NeedMoreInput), Inr (IdleDoneSent 0),
      Inr (StatusReceived (Status_Tagged ''0'' (ok_body None 0)))]"

lemma demo_idle_returns:
  "\<exists>self'. client_idle (logged script_client) demo_timed ''0'' (demo_client [Cap_Idle] demo_idle) =
     Ret (Inr (), self')"
  by (simp add: client_idle_def idle_turn_def wait_event_def demo_timed_def demo_idle_def cl_scheduler_def
      cl_put_scheduler_def ask_done_def next_machine_def stream_io_def stream_input_def demo_client_simps)

lemma idle_returns_iff_witness:
  "\<exists>self' ws y. client_idle (logged script_client) demo_timed ''0'' (demo_client [Cap_Idle] demo_idle) =
      Ret (Inr (), self') \<and>
    idle_waits (logged script_client) demo_timed (from_secs 300)
      (stream_new [], script demo_idle, []) ws y"
proof -
  have state: "cs_idle_timeout (cl_state (demo_client [Cap_Idle] demo_idle)) = from_secs 300"
    "cl_stream (demo_client [Cap_Idle] demo_idle) = stream_new []"
    "client_next (cl_scheduler (demo_client [Cap_Idle] demo_idle)) = (script demo_idle, [])"
    by (simp_all add: demo_client_def client_state_new_def cl_scheduler_def resolver_new_def scheduler_new_def)
  from demo_idle_returns obtain self' where
    run: "client_idle (logged script_client) demo_timed ''0'' (demo_client [Cap_Idle] demo_idle) = Ret (Inr (), self')"
    by blast
  from run [unfolded idle_returns_iff state] run show ?thesis by blast
qed

section \<open>idle_done\<close>

text \<open>The events a client sees one after the other, and the one that completes a command.\<close>

inductive sees ::
    "('v, 'c, 'g, 's) env \<Rightarrow> 's stream \<times> 'c \<Rightarrow> 'v event list \<Rightarrow> 's stream \<times> 'c \<Rightarrow> bool"
  for E where
  nothing: "sees E x [] x"
| event: "stream_next (env_socket E) (next_machine (env_next E)) x = Ret (Inr e, x1) \<Longrightarrow>
    sees E x1 es y \<Longrightarrow> sees E x (e # es) y"

definition completes :: "tag \<Rightarrow> 'v event \<Rightarrow> bool" where
  "completes tag e = (case e of StatusReceived (Status_Tagged got _) \<Rightarrow> got = tag | _ \<Rightarrow> False)"

lemma idle_done_turn_outcome:
  "idle_done_turn E tag x =
     (case stream_next (env_socket E) (next_machine (env_next E)) x of
        Ret (Inl e, x1) \<Rightarrow> Break (Inl e) x1
      | Ret (Inr e, x1) \<Rightarrow> if completes tag e then Break (Inr ()) x1 else Continue x1
      | Panic \<Rightarrow> Panicking
      | Diverge \<Rightarrow> Diverging)"
  by (auto simp: idle_done_turn_def completes_def split: run.split sum.split event.split status.split)

lemma sees_continues:
  "sees E x es y \<Longrightarrow> list_all (\<lambda>e. \<not> completes tag e) es \<Longrightarrow> continues (idle_done_turn E tag) x y"
  by (induction rule: sees.induct) (auto simp: idle_done_turn_outcome intro: continues.intros)

lemma continues_sees:
  "continues (idle_done_turn E tag) x y \<Longrightarrow> \<exists>es. sees E x es y \<and> list_all (\<lambda>e. \<not> completes tag e) es"
proof (induction rule: continues.induct)
  case (here x)
  show ?case by (intro exI [of _ "[]"]) (simp add: sees.nothing)
next
  case (turn x x' y)
  then obtain e es where "stream_next (env_socket E) (next_machine (env_next E)) x = Ret (Inr e, x')"
    "\<not> completes tag e" "sees E x' es y" "list_all (\<lambda>e. \<not> completes tag e) es"
    by (auto simp: idle_done_turn_outcome split: run.splits sum.splits prod.splits if_splits)
  then show ?case by (intro exI [of _ "e # es"]) (auto intro: sees.event)
qed

lemma idle_done_loop:
  "idle_done E tag self = Ret (r, self') \<longleftrightarrow>
     (\<exists>stream c. rust_loop (idle_done_turn E tag)
        (cl_stream self, nc_set_idle_done (env_next E) (client_next (cl_scheduler self))) = Ret (r, stream, c) \<and>
      self' = (cl_put_scheduler ((cl_scheduler self)\<lparr>client_next := c\<rparr>) self)\<lparr>cl_stream := stream\<rparr>)"
  by (auto simp: idle_done_def set_idle_done_def cl_put_scheduler_def cl_scheduler_def Let_def split: run.splits)

text \<open>C26: \<open>idle_done\<close> asks imap-next for DONE first and then waits for the completion of the IDLE. It
  returns exactly when, after any number of other events, data, untagged statuses, completions of
  other commands and even the rejection of the IDLE among them, the stream reports a
  completion with the tag of the IDLE, and then with success, or fails, and then with that
  error. It changes nothing of the client but the stream and what imap-next has seen.\<close>

theorem idle_done_waits_for_completion:
  "idle_done E tag self = Ret (r, self') \<longleftrightarrow>
     (\<exists>es y stream c.
        sees E (cl_stream self, nc_set_idle_done (env_next E) (client_next (cl_scheduler self))) es y \<and>
        list_all (\<lambda>e. \<not> completes tag e) es \<and>
        (case r of
           Inr _ \<Rightarrow> (\<exists>body. stream_next (env_socket E) (next_machine (env_next E)) y =
             Ret (Inr (StatusReceived (Status_Tagged tag body)), stream, c))
         | Inl e \<Rightarrow> stream_next (env_socket E) (next_machine (env_next E)) y = Ret (Inl e, stream, c)) \<and>
        self' = (cl_put_scheduler ((cl_scheduler self)\<lparr>client_next := c\<rparr>) self)\<lparr>cl_stream := stream\<rparr>)"
  (is "_ \<longleftrightarrow> ?waits")
proof -
  let ?x = "(cl_stream self, nc_set_idle_done (env_next E) (client_next (cl_scheduler self)))"
  let ?next = "stream_next (env_socket E) (next_machine (env_next E))"
  have last: "idle_done_turn E tag y = Break r x1 \<longleftrightarrow>
      (case r of Inr _ \<Rightarrow> (\<exists>body. ?next y = Ret (Inr (StatusReceived (Status_Tagged tag body)), x1))
       | Inl e \<Rightarrow> ?next y = Ret (Inl e, x1))" for y x1
    by (auto simp: idle_done_turn_outcome completes_def split: run.splits sum.splits prod.splits
        event.splits status.splits if_splits)
  have "rust_loop (idle_done_turn E tag) ?x = Ret (r, stream, c) \<longleftrightarrow>
      (\<exists>es y. sees E ?x es y \<and> list_all (\<lambda>e. \<not> completes tag e) es \<and>
         idle_done_turn E tag y = Break r (stream, c))" for stream c
  proof
    assume "rust_loop (idle_done_turn E tag) ?x = Ret (r, stream, c)"
    from rust_loop_Ret_reached [OF this] show "\<exists>es y. sees E ?x es y \<and>
        list_all (\<lambda>e. \<not> completes tag e) es \<and> idle_done_turn E tag y = Break r (stream, c)"
      by (blast dest: continues_sees)
  next
    assume "\<exists>es y. sees E ?x es y \<and> list_all (\<lambda>e. \<not> completes tag e) es \<and>
      idle_done_turn E tag y = Break r (stream, c)"
    then obtain es y where seen: "sees E ?x es y" "list_all (\<lambda>e. \<not> completes tag e) es"
      and "idle_done_turn E tag y = Break r (stream, c)" by blast
    with continues_rust_loop [OF sees_continues [OF seen]]
    show "rust_loop (idle_done_turn E tag) ?x = Ret (r, stream, c)" by (simp add: run_simps)
  qed
  then show ?thesis unfolding idle_done_loop last by blast
qed

text \<open>The IDLE is rejected, data arrives and another command completes before the IDLE does.\<close>

definition demo_rejected :: "(nat next_error interrupt + nat event) list" where
  "demo_rejected =
     [Inr (IdleRejected 0 (Status_Tagged ''0'' no_body)), Inr (DataReceived (Data_Capability [Cap_Move])),
      Inr (StatusReceived (Status_Tagged ''1'' (ok_body None 0))),
      Inr (StatusReceived (Status_Tagged ''0'' (ok_body None 0)))]"

lemma idle_done_waits_for_completion_witness:
  "\<exists>self' es y. idle_done demo_env ''0'' (demo_client [Cap_Idle] demo_rejected) = Ret (Inr (), self') \<and>
     sees demo_env (stream_new [], script demo_rejected, []) es y \<and> list_all (\<lambda>e. \<not> completes ''0'' e) es"
proof -
  have state: "cl_stream (demo_client [Cap_Idle] demo_rejected) = stream_new []"
    "nc_set_idle_done (env_next demo_env) (client_next (cl_scheduler (demo_client [Cap_Idle] demo_rejected))) =
       (script demo_rejected, [])"
    by (simp_all add: demo_client_def client_state_new_def cl_scheduler_def resolver_new_def scheduler_new_def
        demo_client_simps)
  have "\<exists>self'. idle_done demo_env ''0'' (demo_client [Cap_Idle] demo_rejected) = Ret (Inr (), self')"
    by (simp add: idle_done_def idle_done_turn_def set_idle_done_def demo_rejected_def cl_scheduler_def
        cl_put_scheduler_def next_machine_def demo_client_simps)
  then obtain self' where
    run: "idle_done demo_env ''0'' (demo_client [Cap_Idle] demo_rejected) = Ret (Inr (), self')"
    by blast
  from run [unfolded idle_done_waits_for_completion state] run show ?thesis by blast
qed

end
