(* ===== verification/Task_Props.thy ===== *)
theory Task_Props
  imports Task_Any
begin

text \<open>
  What the tasks promise: each statement is about a whole exchange, from the constructor over
  any sequence of responses to the completion of the command.
\<close>

abbreviation msg1 :: nz_u32 where
  "msg1 \<equiv> Abs_nonzero 1"

abbreviation msg2 :: nz_u32 where
  "msg2 \<equiv> Abs_nonzero 2"

section \<open>Completion of any task\<close>

text \<open>C32: Whatever the task and whatever it has collected, a command completed with NO or BAD
  gives an error that carries the server's status unchanged, and a command completed with OK
  never gives either of these two errors.\<close>

theorem task_completion_errors:
  "(output_error (task_process_tagged L t b) = Some (UnexpectedNoResponse b') \<longleftrightarrow>
      sb_kind b = Kind_No \<and> b' = b) \<and>
   (output_error (task_process_tagged L t b) = Some (UnexpectedBadResponse b') \<longleftrightarrow>
      sb_kind b = Kind_Bad \<and> b' = b)"
  by (cases t; cases "sb_kind b"; auto simp: task_simps split: option.splits code.splits)

section \<open>FETCH and STORE\<close>

lemma fetch_task_collects:
  assumes "sb_kind body = Kind_Ok" and "fetch_task_inv t" and "fetch_output t = []"
  shows "\<exists>m. fetch_task_process_tagged L (feed (fetch_task_process_data L) ds t) body = Inr m \<and>
      distinct (map fst m) \<and> (\<forall>(k, v) \<in> set m. distinct v) \<and>
      (\<forall>k. map_option set (map_of m k) =
         (if List.map_filter (fetch_items_of k) ds = [] then None
          else Some (set (concat (List.map_filter (fetch_items_of k) ds)))))"
proof -
  let ?t = "feed (fetch_task_process_data L) ds t"
  let ?m = "hm_extend (seq_order L) (fetch_output ?t) []"
  have inv: "fetch_task_inv ?t" by (intro fetch_task_feed_inv assms(2))
  note same = fetch_task_collected [OF fetch_task_invD(1) [OF inv], of "seq_order L"]
  have "map_option set (map_of ?m k) =
      (if List.map_filter (fetch_items_of k) ds = [] then None
       else Some (set (concat (List.map_filter (fetch_items_of k) ds))))" for k
    using fetch_task_feed_items [OF assms(2), of L ds k] assms(3) by (simp add: same(1))
  moreover have "\<forall>(k, v) \<in> set ?m. distinct v"
    using fetch_task_invD(2) [OF inv] same by (auto simp: hm.set_entries)
  ultimately show ?thesis
    using assms(1) same(2)
    by (intro exI [of _ ?m]) (auto simp: fetch_task_process_tagged_def hm_valid_def)
qed

text \<open>C20: After any sequence of responses, a completed FETCH maps a message to items exactly
  when some FETCH response was about it; its items are then those of all the responses about
  it, without duplicates, whatever order the hash tables iterate in.\<close>

theorem fetch_reports_all_items:
  assumes "sb_kind body = Kind_Ok"
  shows "\<exists>m. fetch_task_process_tagged L
        (feed (fetch_task_process_data L) ds (fetch_task_new sequence_set items)) body = Inr m \<and>
      distinct (map fst m) \<and> (\<forall>(k, v) \<in> set m. distinct v) \<and>
      (\<forall>k. map_option set (map_of m k) =
         (if List.map_filter (fetch_items_of k) ds = [] then None
          else Some (set (concat (List.map_filter (fetch_items_of k) ds)))))"
  using fetch_task_collects [OF assms fetch_task_new_inv] by (simp add: fetch_task_new_def)

lemma fetch_reports_all_items_witness:
  "\<exists>m. fetch_task_process_tagged example_lib
       (feed (fetch_task_process_data example_lib)
         [Data_Fetch msg1 [Item_Other 5], Data_Expunge msg2, Data_Fetch msg1 [Item_Uid msg2]]
         (fetch_task_new 3 (Macro (Macro_Other 4)))) (ok_body None 0) = Inr m \<and>
     map_option set (map_of m msg1) = Some {Item_Other 5, Item_Uid msg2} \<and> map_of m msg2 = None"
proof -
  let ?ds = "[Data_Fetch msg1 [Item_Other (5::nat)], Data_Expunge msg2, Data_Fetch msg1 [Item_Uid msg2]]"
  have "sb_kind (ok_body None (0::nat)) = Kind_Ok" by simp
  from fetch_reports_all_items [OF this, of example_lib ?ds 3 "Macro (Macro_Other 4)"] obtain m
    where m: "fetch_task_process_tagged example_lib
        (feed (fetch_task_process_data example_lib) ?ds (fetch_task_new 3 (Macro (Macro_Other 4)))) (ok_body None 0) = Inr m"
      and items: "\<And>k. map_option set (map_of m k) =
        (if List.map_filter (fetch_items_of k) ?ds = [] then None
         else Some (set (concat (List.map_filter (fetch_items_of k) ?ds))))"
    by blast
  from items [of msg1] items [of msg2] have "map_option set (map_of m msg1) = Some {Item_Other 5, Item_Uid msg2}"
    and "map_of m msg2 = None"
    by (simp_all add: fetch_items_of_def List.map_filter_simps)
  with m show ?thesis by blast
qed

text \<open>C37: A completed fetch of a single message reports the items of the last FETCH response
  it was offered, whatever message that was about, and misses data when there was none.\<close>

theorem fetch_first_reports_last:
  assumes "sb_kind body = Kind_Ok"
  shows "fetch_first_task_process_tagged
      (feed fetch_first_task_process_data ds (fetch_first_task_new msg_id items)) body =
    (case find_map fetch_of (rev ds) of
       Some (seq, its) \<Rightarrow> Inr its
     | None \<Rightarrow> Inl (MissingData ''FETCH: items''))"
proof -
  have "find_map (\<lambda>d. map_option snd (fetch_of d)) xs = map_option snd (find_map fetch_of xs)"
    for xs :: "'a data list"
    by (induction xs) (auto split: option.split)
  then show ?thesis
    using assms fetch_first.latest [of ds "fetch_first_task_new msg_id items"]
    by (auto simp: fetch_first_task_process_tagged_def fetch_first_task_new_def split: option.splits)
qed

lemma fetch_first_reports_last_witness:
  "fetch_first_task_process_tagged (feed fetch_first_task_process_data
      [Data_Fetch msg1 [Item_Other 5], Data_Fetch msg2 [Item_Other 6]]
      (fetch_first_task_new msg1 (Macro (Macro_Other 4)))) (ok_body None (0::nat)) = Inr [Item_Other 6]"
  using fetch_first_reports_last [of "ok_body None 0"
      "[Data_Fetch msg1 [Item_Other 5], Data_Fetch msg2 [Item_Other 6]]" msg1 "Macro (Macro_Other 4)"]
  by (simp add: fetch_of_def del: feed_Cons)

text \<open>C36: A completed STORE reports, for every message, the items of the latest FETCH response
  about it, each message once.\<close>

theorem store_reports_latest:
  assumes "sb_kind body = Kind_Ok"
  shows "\<exists>m. store_task_process_tagged
        (feed (store_task_process_data L) ds (store_task_new sequence_set kind flags)) body = Inr m \<and>
      distinct (map fst m) \<and> (\<forall>k. map_of m k = find_map (fetch_items_of k) (rev ds))"
proof -
  let ?t0 = "store_task_new sequence_set kind flags"
  have v: "hm_valid (store_output ?t0)" and e: "store_output ?t0 = []"
    by (simp_all add: store_task_new_def hm_valid_def)
  from store_task_valid [OF v, of L ds] store_task_latest [OF v, of L ds] e assms show ?thesis
    by (auto simp: store_task_process_tagged_def hm_valid_def split: option.split)
qed

lemma store_reports_latest_witness:
  "\<exists>m. store_task_process_tagged (feed (store_task_process_data example_lib)
       [Data_Fetch msg1 [Item_Other 5], Data_Fetch msg1 [Item_Other 6]]
       (store_task_new 3 Store_Add [Flag_Deleted])) (ok_body None 0) = Inr m \<and>
     map_of m msg1 = Some [Item_Other 6]"
  using store_reports_latest [of "ok_body None 0" example_lib
      "[Data_Fetch msg1 [Item_Other 5], Data_Fetch msg1 [Item_Other 6]]" 3 Store_Add "[Flag_Deleted]"]
  by (auto simp: fetch_items_of_def simp del: feed_Cons)

section \<open>LIST, EXPUNGE, SEARCH, SORT and THREAD\<close>

text \<open>LIST reports every mailbox listed while it ran and EXPUNGE every sequence number, in the
  order of the responses and with repetitions.\<close>

theorem list_and_expunge_report_all:
  assumes "sb_kind body = Kind_Ok"
  shows "list_task_process_tagged (feed list_task_process_data ds (list_task_new mailbox wildcard)) body
      = Inr (List.map_filter list_line_of ds) \<and>
    expunge_task_process_tagged (feed expunge_task_process_data ds expunge_task_new) body
      = Inr (List.map_filter expunge_of ds)"
  using assms
  by (simp_all add: list_task_process_tagged_def expunge_task_process_tagged_def list_lines.history
      expunge.history list_task_new_def expunge_task_new_def)

lemma list_and_expunge_report_all_witness:
  "list_task_process_tagged (feed list_task_process_data
       [Data_List [5] None 7, Data_Expunge msg1, Data_List [] (Some 2) (8::nat)] (list_task_new 3 4))
       (ok_body None 0) = Inr [(7, None, [5]), (8, Some 2, [])] \<and>
   expunge_task_process_tagged (feed expunge_task_process_data
       [Data_List [5] None 7, Data_Expunge msg1, Data_List [] (Some 2) (8::nat)] expunge_task_new)
       (ok_body None (0::nat)) = Inr [msg1]"
  using list_and_expunge_report_all [of "ok_body None 0"
      "[Data_List [5] None 7, Data_Expunge msg1, Data_List [] (Some 2) (8::nat)]" 3 4]
  by (simp add: list_line_of_def expunge_of_def List.map_filter_simps del: feed_Cons)

text \<open>C35: SEARCH reports the ids of the last SEARCH response, or none; SORT and THREAD report
  their last response as well, but miss data when there was none, and the error of THREAD
  names SORT.\<close>

theorem search_sort_thread_report_last:
  assumes "sb_kind body = Kind_Ok"
  shows "search_task_process_tagged (feed search_task_process_data ds (search_task_new keys)) body =
      Inr (case find_map search_of (rev ds) of Some ids \<Rightarrow> ids | None \<Rightarrow> []) \<and>
    sort_task_process_tagged (feed sort_task_process_data ds (sort_task_new L criteria keys)) body =
      (case find_map sort_of (rev ds) of Some ids \<Rightarrow> Inr ids | None \<Rightarrow> Inl (MissingData ''SORT'')) \<and>
    thread_task_process_tagged (feed thread_task_process_data ds (thread_task_new L alg keys)) body =
      (case find_map thread_of (rev ds) of Some ts \<Rightarrow> Inr ts | None \<Rightarrow> Inl (MissingData ''SORT''))"
  using assms search.latest [of ds "search_task_new keys"] sort.latest [of ds "sort_task_new L criteria keys"]
    thread.latest [of ds "thread_task_new L alg keys"]
  by (auto simp: search_task_process_tagged_def sort_task_process_tagged_def
      thread_task_process_tagged_def search_task_new_def search_task_default_def sort_task_new_def
      thread_task_new_def split: option.splits)

lemma search_sort_thread_report_last_witness:
  "search_task_process_tagged (feed search_task_process_data
       [Data_Search [msg1] 0, Data_Search [msg2, msg1] 0] (search_task_new [Key_All]))
       (ok_body None (0::nat)) = Inr [msg2, msg1]"
  using search_sort_thread_report_last [of "ok_body None 0"
      "[Data_Search [msg1] 0, Data_Search [msg2, msg1] 0]" "[Key_All]" example_lib "[]" 5]
  by (simp add: search_of_def del: feed_Cons)

section \<open>SELECT\<close>

text \<open>Data and untagged statuses as they may alternate during a command.\<close>

definition select_task_step ::
    "'v select_task \<Rightarrow> 'v data + 'v status_body \<Rightarrow> 'v select_task" where
  "select_task_step t m =
     (case m of Inl d \<Rightarrow> snd (select_task_process_data t d)
      | Inr b \<Rightarrow> snd (select_task_process_untagged t b))"

definition data_or_status :: "('v data \<Rightarrow> 'a option) \<Rightarrow> ('v status_body \<Rightarrow> 'a option)
    \<Rightarrow> 'v data + 'v status_body \<Rightarrow> 'a option" where
  "data_or_status f g m = (case m of Inl d \<Rightarrow> f d | Inr b \<Rightarrow> g b)"

lemma select_task_data_fields:
  "sel_unseen (select_output (snd (select_task_process_data t d))) = sel_unseen (select_output t)"
  "sel_permanent_flags (select_output (snd (select_task_process_data t d))) = sel_permanent_flags (select_output t)"
  "sel_uid_next (select_output (snd (select_task_process_data t d))) = sel_uid_next (select_output t)"
  "sel_uid_validity (select_output (snd (select_task_process_data t d))) = sel_uid_validity (select_output t)"
  "sel_highest_modseq (select_output (snd (select_task_process_data t d))) = sel_highest_modseq (select_output t)"
  by (cases d; simp)+

lemma select_task_untagged_fields:
  "sel_flags (select_output (snd (select_task_process_untagged t b))) = sel_flags (select_output t)"
  "sel_exists (select_output (snd (select_task_process_untagged t b))) = sel_exists (select_output t)"
  "sel_recent (select_output (snd (select_task_process_untagged t b))) = sel_recent (select_output t)"
  by (simp_all add: select_task_process_untagged_def split: status_kind.split option.split code.split)

text \<open>A field of the mailbox state holds the latest of the responses that set it.\<close>

lemma fold_latest:
  assumes "\<And>t m. field (step t m) = (case sel m of Some x \<Rightarrow> Some x | None \<Rightarrow> field t)"
  shows "field (foldl step t ms) =
    (case find_map sel (rev ms) of Some x \<Rightarrow> Some x | None \<Rightarrow> field t)"
  by (induction ms arbitrary: t) (auto simp: assms find_map_append split: option.splits)

lemma select_data_field:
  assumes "\<And>d x t. f d = Some x \<Longrightarrow> field (select_output (snd (select_task_process_data t d))) = Some x"
    and "\<And>d t. f d = None \<Longrightarrow>
      field (select_output (snd (select_task_process_data t d))) = field (select_output t)"
    and "\<And>t b. field (select_output (snd (select_task_process_untagged t b))) = field (select_output t)"
    and "field (select_output t0) = None"
  shows "field (select_output (foldl select_task_step t0 ms)) =
    find_map (data_or_status f Map.empty) (rev ms)"
  by (subst fold_latest [where field = "\<lambda>t. field (select_output t)"
        and sel = "data_or_status f Map.empty"])
    (auto simp: select_task_step_def data_or_status_def assms split: sum.split option.split)

lemma select_status_field:
  assumes "\<And>b x t. g b = Some x \<Longrightarrow> field (select_output (snd (select_task_process_untagged t b))) = Some x"
    and "\<And>b t. g b = None \<Longrightarrow>
      field (select_output (snd (select_task_process_untagged t b))) = field (select_output t)"
    and "\<And>t d. field (select_output (snd (select_task_process_data t d))) = field (select_output t)"
    and "field (select_output t0) = None"
  shows "field (select_output (foldl select_task_step t0 ms)) =
    find_map (data_or_status Map.empty g) (rev ms)"
  by (subst fold_latest [where field = "\<lambda>t. field (select_output t)"
        and sel = "data_or_status Map.empty g"])
    (auto simp: select_task_step_def data_or_status_def assms split: sum.split option.split)

lemmas select_fields =
  select_data_field [OF select_flags.takes select_flags.keeps select_task_untagged_fields(1)]
  select_data_field [OF select_exists.takes select_exists.keeps select_task_untagged_fields(2)]
  select_data_field [OF select_recent.takes select_recent.keeps select_task_untagged_fields(3)]
  select_status_field [OF select_unseen.takes select_unseen.keeps select_task_data_fields(1)]
  select_status_field [OF select_permanent_flags.takes select_permanent_flags.keeps
    select_task_data_fields(2)]
  select_status_field [OF select_uid_next.takes select_uid_next.keeps select_task_data_fields(3)]
  select_status_field [OF select_uid_validity.takes select_uid_validity.keeps select_task_data_fields(4)]
  select_status_field [OF select_highest_modseq.takes select_highest_modseq.keeps
    select_task_data_fields(5)]

text \<open>C33: A completed SELECT or EXAMINE never fails, even when required responses are missing:
  each field of the mailbox state is the latest response that announced it, data and status
  responses mixed in any order, and is absent when there was none.\<close>

theorem select_reports_latest_state:
  assumes "sb_kind body = Kind_Ok" and "t0 = select_task_new mailbox \<or> t0 = select_task_read_only mailbox"
  shows "select_task_process_tagged (foldl select_task_step t0 ms) body =
    Inr \<lparr>sel_flags = find_map (data_or_status sel_flags_of Map.empty) (rev ms),
      sel_exists = find_map (data_or_status sel_exists_of Map.empty) (rev ms),
      sel_recent = find_map (data_or_status sel_recent_of Map.empty) (rev ms),
      sel_unseen = find_map (data_or_status Map.empty sel_unseen_of) (rev ms),
      sel_permanent_flags = find_map (data_or_status Map.empty sel_permanent_flags_of) (rev ms),
      sel_uid_next = find_map (data_or_status Map.empty sel_uid_next_of) (rev ms),
      sel_uid_validity = find_map (data_or_status Map.empty sel_uid_validity_of) (rev ms),
      sel_highest_modseq = find_map (data_or_status Map.empty sel_highest_modseq_of) (rev ms)\<rparr>"
proof -
  have start: "select_output t0 = select_data_default"
    using assms(2) by (auto simp: select_task_new_def select_task_read_only_def)
  show ?thesis
    using assms(1)
    by (simp add: select_task_process_tagged_def select_data_validate_def,
        intro select_data.equality) (simp_all add: select_fields start select_data_default_def)
qed

lemma select_reports_latest_state_witness:
  "select_task_process_tagged (foldl select_task_step (select_task_new 3)
       [Inl (Data_Exists 4), Inr (ok_body (Some (Code_UidNext msg2)) (0::nat)), Inl (Data_Exists 5)])
       (ok_body None 0) =
     Inr (select_data_default\<lparr>sel_exists := Some 5, sel_uid_next := Some msg2\<rparr>)"
  using select_reports_latest_state [of "ok_body None 0" "select_task_new 3" 3
      "[Inl (Data_Exists 4), Inr (ok_body (Some (Code_UidNext msg2)) 0), Inl (Data_Exists 5)]"]
  by (simp add: data_or_status_def sel_flags_of_def sel_exists_of_def sel_recent_of_def sel_code_defs
      select_data_default_def del: foldl_Cons)

section \<open>CAPABILITY, LOGIN and AUTHENTICATE\<close>

definition capability_task_step ::
    "'v capability_task \<Rightarrow> 'v data + 'v status_body \<Rightarrow> 'v capability_task" where
  "capability_task_step t m =
     (case m of Inl d \<Rightarrow> snd (capability_task_process_data t d)
      | Inr b \<Rightarrow> snd (capability_task_process_untagged t b))"

text \<open>C34: CAPABILITY reports the latest capabilities announced by data or untagged statuses and
  turns to the code of the completion only when there were none; LOGIN and AUTHENTICATE have
  it the other way round, and report nothing when nothing was announced.\<close>

theorem capabilities_reported:
  assumes "sb_kind body = Kind_Ok"
  shows "capability_task_process_tagged (foldl capability_task_step capability_task_new ms) body =
      (case find_map (data_or_status capabilities_of capability_code) (rev ms) of
         Some caps \<Rightarrow> Inr caps
       | None \<Rightarrow>
           (case capability_code body of
              Some caps \<Rightarrow> Inr caps
            | None \<Rightarrow> Inl (MissingData ''CAPABILITY''))) \<and>
    login_task_process_tagged (feed login_task_process_data ds (login_task_new user passwd)) body =
      Inr (case capability_code body of
             Some caps \<Rightarrow> Some caps
           | None \<Rightarrow> find_map capabilities_of (rev ds)) \<and>
    authenticate_task_process_tagged
        (feed authenticate_task_process_data ds (t\<lparr>auth_output := None\<rparr>)) body =
      Inr (case capability_code body of
             Some caps \<Rightarrow> Some caps
           | None \<Rightarrow> find_map capabilities_of (rev ds))"
proof -
  have "capability_output (foldl capability_task_step capability_task_new ms) =
      find_map (data_or_status capabilities_of capability_code) (rev ms)"
    by (subst fold_latest [where field = capability_output
          and sel = "data_or_status capabilities_of capability_code"])
      (auto simp: capability_task_step_def data_or_status_def capability_task_new_def
        capability.takes capability.keeps capability_untagged.takes capability_untagged.keeps
        split: sum.split option.split)
  then show ?thesis
    using assms login.latest [of ds "login_task_new user passwd"]
      authenticate.latest [of ds "t\<lparr>auth_output := None\<rparr>"]
    by (auto simp: capability_task_process_tagged_def login_task_process_tagged_def
        authenticate_task_process_tagged_def capability_code_def login_task_new_def
        split: option.splits code.splits)
qed

lemma capabilities_reported_witness:
  "capability_task_process_tagged (foldl capability_task_step capability_task_new
       [Inl (Data_Capability [Cap_Idle]), Inr (ok_body (Some (Code_Capability [Cap_Move])) (0::nat))])
       (ok_body (Some (Code_Capability [Cap_Id])) 0) = Inr [Cap_Move] \<and>
   login_task_process_tagged (feed login_task_process_data [Data_Capability [Cap_Idle]] (login_task_new 1 2))
       (ok_body (Some (Code_Capability [Cap_Id])) (0::nat)) = Inr (Some [Cap_Id])"
  using capabilities_reported [of "ok_body (Some (Code_Capability [Cap_Id])) (0::nat)"
      "[Inl (Data_Capability [Cap_Idle]), Inr (ok_body (Some (Code_Capability [Cap_Move])) 0)]"
      "[Data_Capability [Cap_Idle]]" 1 2 "authenticate_task_plain [] [] False"]
  by (simp add: data_or_status_def capabilities_of_def capability_code_def del: foldl_Cons feed_Cons)

text \<open>C18: The authentication data leaves the client exactly once. With SASL-IR it is the
  command's initial response, and every continuation request is answered by a cancellation.
  Without, the command carries none, the first continuation request is answered with the
  data and every later one by a cancellation.\<close>

theorem secret_disclosed_once:
  assumes "t = authenticate_task_plain login passwd ir \<and> line = plain_line login passwd \<or>
    t = authenticate_task_oauthbearer login host port passwd ir \<and>
      line = oauthbearer_line login host port passwd \<or>
    t = authenticate_task_xoauth2 login passwd ir \<and> line = xoauth2_line login passwd"
    and "stop = (if auth_mechanism t = Mech_XOAuth2 then Auth_Continue [] else Auth_Cancel)"
  shows "authenticate_task_command_body t =
      Ret (Cmd_Authenticate (auth_mechanism t) (if ir then Some line else None)) \<and>
    auth_replies t (c # cs) =
      (if ir then replicate (Suc (length cs)) (Inr stop)
       else Inr (Auth_Continue line) # replicate (length cs) (Inr stop)) \<and>
    Auth_Continue line \<noteq> stop"
proof -
  have t: "auth_ir t = ir" "auth_line t = Some line" and line: "line \<noteq> []"
    using assms(1)
    by (auto simp: authenticate_task_ctor_defs plain_line_def oauthbearer_line_def xoauth2_line_def)
  have stop: "authenticate_task_cancel t = stop"
    using assms(2) by (cases "auth_mechanism t") (auto simp: authenticate_task_cancel_def)
  show ?thesis
  proof (cases ir)
    case True
    with t stop assms(2) line auth_replies_cancel [of t "c # cs"] show ?thesis
      by (simp add: authenticate_task_command_body_def del: auth_replies.simps)
  next
    case False
    with t stop assms(2) line auth_replies_line [of t line c cs] show ?thesis
      by (simp add: authenticate_task_command_body_def del: auth_replies.simps)
  qed
qed

lemma secret_disclosed_once_witness:
  "auth_replies (authenticate_task_plain ''ann'' ''pw'' False) [Cont_Basic (0::nat), Cont_Basic 1] =
     [Inr (Auth_Continue (plain_line ''ann'' ''pw'')), Inr Auth_Cancel] \<and>
   auth_replies (authenticate_task_xoauth2 ''ann'' ''tok'' True) [Cont_Basic (0::nat)] =
     [Inr (Auth_Continue [])]"
  using secret_disclosed_once [of "authenticate_task_plain ''ann'' ''pw'' False" "''ann''" "''pw''" False
      "plain_line ''ann'' ''pw''" _ 0 Auth_Cancel "Cont_Basic (0::nat)" "[Cont_Basic 1]"]
    secret_disclosed_once [of "authenticate_task_xoauth2 ''ann'' ''tok'' True" "''ann''" "''tok''" True
      "xoauth2_line ''ann'' ''tok''" _ 0 "Auth_Continue []" "Cont_Basic (0::nat)" "[]"]
  by (simp add: authenticate_task_ctor_defs del: auth_replies.simps)

text \<open>C19: The three SASL messages can be taken apart again. When the parts do not contain the
  separator, splitting a PLAIN message at NUL gives login and password, and splitting the
  two bearer messages at SOH gives the labelled fields, from whose digits the port is read
  back.\<close>

theorem sasl_messages_parse:
  assumes "CHR 0x00 \<notin> set login" and "CHR 0x00 \<notin> set passwd"
    and "CHR 0x01 \<notin> set user" and "CHR 0x01 \<notin> set host" and "CHR 0x01 \<notin> set token"
  shows "split_on (CHR 0x00) (plain_line login passwd) = [[], login, passwd] \<and>
    split_on (CHR 0x01) (oauthbearer_line user host port token) =
      [''n,a='' @ user @ '','', ''host='' @ host, ''port='' @ decimal (unat port),
       ''auth=Bearer '' @ token, [], []] \<and>
    split_on (CHR 0x01) (xoauth2_line user token) =
      [''user='' @ user, ''auth=Bearer '' @ token, [], []] \<and>
    word_of_nat (undecimal (decimal (unat port))) = port"
proof -
  have "split_on (CHR 0x00) (plain_line login passwd) = [[], login, passwd]"
    using assms(1,2) by (simp add: plain_line_def split_on_field split_on_last)
  moreover have "split_on (CHR 0x01) (oauthbearer_line user host port token) =
      [''n,a='' @ user @ '','', ''host='' @ host, ''port='' @ decimal (unat port),
       ''auth=Bearer '' @ token, [], []]"
    using assms(3-5) split_on_field [of "CHR 0x01" "''n,a='' @ user @ '',''"]
      split_on_field [of "CHR 0x01" "''host='' @ host"]
      split_on_field [of "CHR 0x01" "''port='' @ decimal (unat port)"]
      split_on_field [of "CHR 0x01" "''auth=Bearer '' @ token"]
    by (simp add: oauthbearer_line_def soh_notin_decimal)
  moreover have "split_on (CHR 0x01) (xoauth2_line user token) =
      [''user='' @ user, ''auth=Bearer '' @ token, [], []]"
    using assms(3,5) split_on_field [of "CHR 0x01" "''user='' @ user"]
      split_on_field [of "CHR 0x01" "''auth=Bearer '' @ token"]
    by (simp add: xoauth2_line_def)
  ultimately show ?thesis by (simp add: undecimal_decimal)
qed

lemma sasl_messages_parse_witness:
  "split_on (CHR 0x00) (plain_line ''ann'' ''pw'') = [[], ''ann'', ''pw''] \<and>
   split_on (CHR 0x01) (xoauth2_line ''ann'' ''tok'') = [''user=ann'', ''auth=Bearer tok'', [], []]"
  using sasl_messages_parse [of "''ann''" "''pw''" "''ann''" "''h''" "''tok''" 993] by simp

section \<open>LOGOUT and APPEND\<close>

text \<open>A completed LOGOUT succeeds when at least one BYE was received before, and misses
  data otherwise.\<close>

theorem logout_needs_bye:
  assumes "sb_kind body = Kind_Ok"
  shows "logout_task_process_tagged (feed logout_task_process_bye byes logout_task_new) body =
    (if byes = [] then Inl (MissingData ''LOGOUT: BYE'') else Inr ())"
proof -
  have "logout_got_bye (feed logout_task_process_bye byes t) = (byes \<noteq> [] \<or> logout_got_bye t)" for t
    by (induction byes arbitrary: t) (auto simp: logout_task_process_bye_def)
  then show ?thesis
    using assms by (simp add: logout_task_process_tagged_def logout_task_new_def)
qed

text \<open>C38: What an APPEND that completes with OK reports, whatever data comes before its completion. The
  append task and its two follow-ups, NOOP and CHECK, report the number of the last EXISTS among the
  data, and nothing when there was none. The task of UIDPLUS takes none of the data, so that it goes
  on to other tasks or is reported as unsolicited, and reports the pair of ids of the completion's
  code, the UID first, and nothing when the completion has another code or none.\<close>

theorem append_tasks_report:
  assumes "sb_kind body = Kind_Ok"
  shows "append_task_process_tagged (feed append_task_process_data ds (append_task_new mailbox msg)) body
      = Inr (find_map exists_of (rev ds)) \<and>
    post_append_noop_task_process_tagged
        (feed post_append_noop_task_process_data ds post_append_noop_task_new) body
      = Inr (find_map exists_of (rev ds)) \<and>
    post_append_check_task_process_tagged
        (feed post_append_check_task_process_data ds post_append_check_task_new) body
      = Inr (find_map exists_of (rev ds)) \<and>
    fst (task_process_data L (T_AppendUid t) d) = Some d \<and>
    task_process_tagged L (foldl (\<lambda>t d. snd (task_process_data L t d)) (T_AppendUid t) ds) body =
      Out_UidPair (Inr (case sb_code body of
        Some (Code_AppendUid uid uid_validity) \<Rightarrow> Some (uid, uid_validity) | _ \<Rightarrow> None))"
proof -
  have "foldl (\<lambda>t d. snd (task_process_data L t d)) (T_AppendUid t) ds = T_AppendUid t"
    by (induction ds) (simp_all add: task_simps)
  then show ?thesis
  using assms append_exists.latest [of ds "append_task_new mailbox msg"]
    post_noop_exists.latest [of ds post_append_noop_task_new]
    post_check_exists.latest [of ds post_append_check_task_new]
  by (auto simp: task_simps append_task_new_def post_append_noop_task_new_def
      post_append_check_task_new_def split: option.splits code.splits)
qed

lemma append_tasks_report_witness:
  "append_task_process_tagged (feed append_task_process_data [Data_Exists 4, Data_Recent 1, Data_Exists 5]
       (append_task_new 3 (Lit_Literal ''hi''))) (ok_body None (0::nat)) = Inr (Some 5)"
  using append_tasks_report [of "ok_body None 0" "[Data_Exists 4, Data_Recent 1, Data_Exists 5]" 3
      "Lit_Literal ''hi''" example_lib "appenduid_task_new 3 (Lit_Literal ''hi'')" "Data_Exists 4"]
  by (simp add: exists_of_def del: feed_Cons)

end
