(* ===== verification/Scheduler_Life.thy ===== *)
theory Scheduler_Life
  imports Scheduler_Theorems
begin

text \<open>
  The life of a task as the scheduler's user sees it: issued, begun, ended. Along every history
  of a scheduler the events about one handle are a prefix of this sequence, and the two task
  maps say which prefix.
\<close>

section \<open>Histories\<close>

datatype life_event = Issued handle | Begun handle | Ended handle

fun life_handle :: "life_event \<Rightarrow> handle" where
  "life_handle (Issued h) = h"
| "life_handle (Begun h) = h"
| "life_handle (Ended h) = h"

text \<open>What happened to one task.\<close>

definition life :: "handle \<Rightarrow> life_event list \<Rightarrow> life_event list" where
  "life h H = filter (\<lambda>e. life_handle e = h) H"

lemma life_simps [simp]:
  "life h [] = []" "life h (H @ H') = life h H @ life h H'"
  "life h [e] = (if life_handle e = h then [e] else [])"
  by (simp_all add: life_def)

text \<open>What a turn says about tasks: a command was sent, or its task is reported as finished.\<close>

definition begun :: "('v, 'c, 'g) next_client \<Rightarrow> ('v, 'c, 'g) scheduler \<Rightarrow> life_event list" where
  "begun N s =
     (case fst (nc_next N (client_next s)) of
        Inr (CommandSent h) \<Rightarrow> [Begun h]
      | Inr (AuthenticateStarted h) \<Rightarrow> [Begun h]
      | Inr (IdleCommandSent h) \<Rightarrow> [Begun h]
      | _ \<Rightarrow> [])"

definition ended :: "'v progress_result \<Rightarrow> life_event list" where
  "ended r = (case r of Inr (Ev_TaskFinished tok) \<Rightarrow> [Ended (tok_handle tok)] | _ \<Rightarrow> [])"

inductive history ::
    "('v, 'c, 'g) next_client \<Rightarrow> 'v lib \<Rightarrow> life_event list \<Rightarrow> ('v, 'c, 'g) scheduler \<Rightarrow> bool"
  for N L where
  created: "history N L [] (scheduler_new N c)"
| issued: "history N L H s \<Longrightarrow> enqueue_task N L task s = Ret (th, s') \<Longrightarrow>
    Issued (th_handle th) \<notin> set H \<Longrightarrow> fst (nc_tag_generate N (tag_generator s)) \<notin> sched_tags s \<Longrightarrow>
    history N L (H @ [Issued (th_handle th)]) s'"
| fed: "history N L H s \<Longrightarrow> history N L H (scheduler_enqueue_input N input s)"
| turned: "history N L H s \<Longrightarrow> progress_turn N L s = Continue s' \<Longrightarrow> history N L (H @ begun N s) s'"
| returned: "history N L H s \<Longrightarrow> progress_turn N L s = Break r s' \<Longrightarrow> history N L (H @ ended r) s'"

lemma begun_turn_start:
  "begun N s = (case turn_start N s of Started h \<Rightarrow> [Begun h] | _ \<Rightarrow> [])"
  by (auto simp: begun_def turn_start_def event_label_def split: prod.split sum.split event.split)

lemma ended_turn_label: "ended r = (case turn_label r of Finished tok \<Rightarrow> [Ended (tok_handle tok)] | _ \<Rightarrow> [])"
  by (auto simp: ended_def turn_label_def split: sum.split scheduler_event.split)

lemma history_reached:
  "history N L H s \<Longrightarrow> \<exists>\<Gamma>. reached N L \<Gamma> s \<and> dom \<Gamma> = {h. Issued h \<in> set H}"
proof (induction rule: history.induct)
  case (created c)
  from reached.created show ?case by (intro exI [of _ Map.empty]) simp
next
  case (issued H s task th s')
  then obtain \<Gamma> where \<Gamma>: "reached N L \<Gamma> s" "dom \<Gamma> = {h. Issued h \<in> set H}" by blast
  with issued.hyps(3) have "th_handle th \<notin> dom \<Gamma>" by simp
  moreover have "dom (\<Gamma>(th_handle th \<mapsto> th_type th)) = {h. Issued h \<in> set (H @ [Issued (th_handle th)])}"
    unfolding dom_fun_upd using \<Gamma>(2) by auto
  ultimately show ?case using reached.enqueued [OF \<Gamma>(1) issued.hyps(2) _ issued.hyps(4)] by blast
next
  case (turned H s s')
  moreover have "Issued h \<notin> set (begun N s)" for h
    by (simp add: begun_def split: sum.split event.split)
  ultimately show ?case by (auto intro: reached.turned)
next
  case (returned H s r s')
  moreover have "Issued h \<notin> set (ended r)" for h
    by (simp add: ended_def split: sum.split scheduler_event.split)
  ultimately show ?case by (auto intro: reached.returned)
qed (blast intro: reached.fed)

section \<open>What the maps say about the history\<close>

lemma waiting_active_disjoint: "sched_wf s \<Longrightarrow> is_waiting h s \<Longrightarrow> \<not> is_active h s"
  by (auto simp: sched_wf_def sched_entries_def is_waiting_def is_active_def)

lemma sched_step_Started_phase:
  "sched_step L s (Started g) s' \<Longrightarrow> sched_wf s \<Longrightarrow>
     is_waiting g s \<and> is_waiting h s' = (is_waiting h s \<and> h \<noteq> g) \<and> is_active h s' = (is_active h s \<or> h = g)"
  by (erule sched_step_startE)
    (auto simp: sched_wf_def sched_entries_def is_waiting_def is_active_def entry_defs)

lemma sched_step_Finished_phase:
  "sched_step L s (Finished tok) s' \<Longrightarrow> sched_wf s \<Longrightarrow>
     is_active (tok_handle tok) s \<and> is_waiting h s' = is_waiting h s \<and>
     is_active h s' = (is_active h s \<and> h \<noteq> tok_handle tok)"
  by (erule sched_step_finishE)
    (auto simp: sched_wf_def sched_entries_def is_waiting_def is_active_def entry_defs)

lemma sched_step_Touched_phase:
  "sched_step L s Touched s' \<Longrightarrow> is_waiting h s' = is_waiting h s \<and> is_active h s' = is_active h s"
  by (erule sched_step_touchE) (simp add: is_waiting_def is_active_def flip: set_map)

text \<open>The life of a task, read off the two maps.\<close>

definition life_of_phase :: "bool \<Rightarrow> bool \<Rightarrow> bool \<Rightarrow> handle \<Rightarrow> life_event list" where
  "life_of_phase known waiting active h =
     (if waiting then [Issued h]
      else if active then [Issued h, Begun h]
      else if known then [Issued h, Begun h, Ended h]
      else [])"

lemma history_life:
  "history N L H s \<Longrightarrow> life h H = life_of_phase (Issued h \<in> set H) (is_waiting h s) (is_active h s) h"
proof (induction rule: history.induct)
  case (created c)
  show ?case by (simp add: life_of_phase_def scheduler_new_def is_waiting_def is_active_def)
next
  case (issued H s task th s')
  from history_reached [OF issued.hyps(1)] obtain \<Gamma> where
    \<Gamma>: "reached N L \<Gamma> s" "dom \<Gamma> = {h. Issued h \<in> set H}" by blast
  have "th_handle th \<notin> sched_handles s"
    using sched_typed_handles [of \<Gamma> s] reached_invariant [OF \<Gamma>(1)] \<Gamma>(2) issued.hyps(3) by blast
  then have "\<not> is_waiting (th_handle th) s" "\<not> is_active (th_handle th) s"
    by (auto simp: sched_handles_def sched_entries_def is_waiting_def is_active_def)
  moreover from enqueue_task_Ret [OF issued.hyps(2)]
  have "is_waiting h s' \<longleftrightarrow> is_waiting h s \<or> h = th_handle th" "is_active h s' \<longleftrightarrow> is_active h s"
    by (auto simp: is_waiting_def is_active_def entry_defs)
  ultimately show ?case using issued.IH issued.hyps(3) by (auto simp: life_of_phase_def)
next
  case (fed H s input)
  then show ?case by (simp add: scheduler_enqueue_input_def is_waiting_def is_active_def)
next
  case (turned H s s')
  from history_reached [OF turned.hyps(1)] reached_invariant
  have wf: "sched_wf s" by blast
  from progress_turn_Continue_start [OF turned.hyps(2)] have step: "sched_step L s (turn_start N s) s'" .
  show ?case
  proof (cases "turn_start N s")
    case (Started g)
    from sched_step_Started_phase [OF step [unfolded Started] wf, of h] waiting_active_disjoint [OF wf, of g]
      turned.IH Started
    show ?thesis by (auto simp: begun_turn_start life_of_phase_def)
  next
    case Touched
    from sched_step_Touched_phase [OF step [unfolded Touched], of h] turned.IH Touched
    show ?thesis by (simp add: begun_turn_start)
  qed (metis turn_start_unfinished)
next
  case (returned H s r s')
  from history_reached [OF returned.hyps(1)] reached_invariant
  have wf: "sched_wf s" by blast
  from progress_turn_Break [OF returned.hyps(2)] have step: "sched_step L s (turn_label r) s'" .
  show ?case
  proof (cases "turn_label r")
    case (Finished tok)
    let ?g = "tok_handle tok"
    from sched_step_Finished_phase [OF step [unfolded Finished] wf] have g: "is_active ?g s" by blast
    from waiting_active_disjoint [OF wf, of ?g] g have "\<not> is_waiting ?g s" by blast
    moreover from history_reached [OF returned.hyps(1)] obtain \<Gamma> where
      \<Gamma>: "reached N L \<Gamma> s" "dom \<Gamma> = {h. Issued h \<in> set H}" by blast
    moreover from g have "?g \<in> sched_handles s"
      by (auto simp: sched_handles_def sched_entries_def is_active_def)
    ultimately have "\<not> is_waiting ?g s" "Issued ?g \<in> set H"
      using sched_typed_handles [of \<Gamma> s] reached_invariant [OF \<Gamma>(1)] by blast+
    with sched_step_Finished_phase [OF step [unfolded Finished] wf, of h] returned.IH Finished g
    show ?thesis by (auto simp: ended_turn_label life_of_phase_def)
  next
    case (Started g)
    then show ?thesis by (simp add: turn_label_def split: sum.splits scheduler_event.splits)
  next
    case Touched
    from sched_step_Touched_phase [OF step [unfolded Touched], of h] returned.IH Touched
    show ?thesis by (simp add: ended_turn_label)
  qed
qed

text \<open>C2: The life of a task. Along every history of a scheduler, in which any number of tasks is
  issued, fed and made to progress in any interleaving, what happens to one task is a prefix of:
  issued, begun when its command was sent, ended when its token is reported. Each happens at
  most once, no task ends that was not begun, and the two maps show exactly how far each task
  has come: a waiting task was only issued, an active one was begun, and a task that is in
  neither map has ended.\<close>

theorem task_life_cycle:
  assumes "history N L H s"
  shows "life h H =
      (if h \<in> entry_handle ` set (waiting_tasks s) then [Issued h]
       else if h \<in> entry_handle ` set (active_tasks s) then [Issued h, Begun h]
       else if Issued h \<in> set H then [Issued h, Begun h, Ended h]
       else []) \<and>
    entry_handle ` set (waiting_tasks s) \<inter> entry_handle ` set (active_tasks s) = {}"
proof -
  from history_reached [OF assms] reached_invariant have "sched_wf s" by blast
  from waiting_active_disjoint [OF this] history_life [OF assms, of h] show ?thesis
    by (auto simp: life_of_phase_def is_waiting_def is_active_def)
qed

lemma demo_history:
  "history script_client example_lib [Issued 0, Begun 0, Ended 0] demo_done"
proof -
  have "enqueue_task script_client example_lib demo_task (scheduler_new script_client (script demo_answer))
      = Ret (demo_handle, demo demo_answer)"
    by (simp add: enqueue_task_def scheduler_new_def script_defs demo_defs decimal_0 task_simps
        tm_push_back_def search_task_new_def search_task_default_def)
  from history.issued [OF history.created this]
  have "history script_client example_lib [Issued 0] (demo demo_answer)"
    by (simp add: demo_handle_def sched_tags_def sched_entries_def scheduler_new_def)
  from history.turned [OF this demo_turns(1)]
  have "history script_client example_lib [Issued 0, Begun 0] (demo_active (tl demo_answer) [])"
    by (simp add: begun_def script_defs demo_defs)
  from history.turned [OF this demo_turns(2)]
  have "history script_client example_lib [Issued 0, Begun 0]
      (demo_active (tl (tl demo_answer)) [Abs_nonzero 7])"
    by (simp add: begun_def script_defs demo_defs demo_active_def)
  from history.returned [OF this demo_turns(3)] show ?thesis
    by (simp add: ended_def demo_token_def)
qed

lemma task_life_cycle_witness:
  "life 0 [Issued 0, Begun 0, Ended 0] = [Issued 0, Begun 0, Ended 0] \<and>
   waiting_tasks demo_done = [] \<and> active_tasks demo_done = []"
  using task_life_cycle [OF demo_history, of 0] by (simp add: demo_done_def demo_def)

end
