(* ===== verification/Scheduler_Pipeline.thy ===== *)
theory Scheduler_Pipeline
  imports Scheduler_Theorems Resolver
begin

text \<open>
  Several commands in flight. The scheduler offers each response to one task after the other; the
  reference is the other way round: each task in turn goes through all the responses, takes its
  own and passes the rest on to the next. Both come to the same.
\<close>

section \<open>The reference\<close>

fun offered :: "'v event \<Rightarrow> bool" where
  "offered (DataReceived d) = True"
| "offered (ContinuationRequestReceived c) = True"
| "offered (StatusReceived (Status_Untagged b)) = True"
| "offered (StatusReceived (Status_Bye bye)) = True"
| "offered _ = False"

text \<open>Whether a task takes a response, and what becomes of the task.\<close>

fun take_response :: "'v lib \<Rightarrow> 'v task \<Rightarrow> 'v event \<Rightarrow> bool \<times> 'v task" where
  "take_response L t (DataReceived d) = (case task_process_data L t d of (r, t') \<Rightarrow> (r = None, t'))"
| "take_response L t (ContinuationRequestReceived c) =
     (case task_process_continuation t c of (r, t') \<Rightarrow> (r = None, t'))"
| "take_response L t (StatusReceived (Status_Untagged b)) =
     (case task_process_untagged t b of (r, t') \<Rightarrow> (r = None, t'))"
| "take_response L t (StatusReceived (Status_Bye bye)) =
     (case task_process_bye t bye of (r, t') \<Rightarrow> (r = None, t'))"
| "take_response L t _ = (False, t)"

text \<open>One task goes through the responses: those it leaves, and the task it becomes.\<close>

fun take_all :: "'v lib \<Rightarrow> 'v task \<Rightarrow> 'v event list \<Rightarrow> 'v event list \<times> 'v task" where
  "take_all L t [] = ([], t)"
| "take_all L t (e # es) =
     (case take_response L t e of (taken, t1) \<Rightarrow>
        (case take_all L t1 es of (rest, t2) \<Rightarrow> (if taken then rest else e # rest, t2)))"

text \<open>The tasks go through them in turn.\<close>

fun share :: "'v lib \<Rightarrow> 'v task_map \<Rightarrow> 'v event list \<Rightarrow> 'v event list \<times> 'v task_map" where
  "share L [] es = (es, [])"
| "share L ((h, tag, t) # tasks) es =
     (case take_all L t es of (left, t') \<Rightarrow>
        (case share L tasks left of (rest, tasks') \<Rightarrow> (rest, (h, tag, t') # tasks')))"

definition unsolicited :: "'v event \<Rightarrow> 'v progress_result" where
  "unsolicited e =
     (case e of
        DataReceived d \<Rightarrow> Inr (Ev_Unsolicited (Resp_Data d))
      | ContinuationRequestReceived c \<Rightarrow> Inr (Ev_Unsolicited (Resp_Continuation c))
      | StatusReceived status \<Rightarrow> Inr (Ev_Unsolicited (Resp_Status status))
      | _ \<Rightarrow> undefined)"

text \<open>A number of calls of \<open>progress\<close>, with their results.\<close>

fun progress_n ::
    "('v, 'c, 'g) next_client \<Rightarrow> 'v lib \<Rightarrow> nat \<Rightarrow> ('v, 'c, 'g) scheduler
       \<Rightarrow> ('v progress_result list \<times> ('v, 'c, 'g) scheduler) run" where
  "progress_n N L 0 s = Ret ([], s)"
| "progress_n N L (Suc n) s =
     (case progress N L s of
        Ret (r, s) \<Rightarrow>
          (case progress_n N L n s of
             Ret (rs, s) \<Rightarrow> Ret (r # rs, s)
           | Panic \<Rightarrow> Panic
           | Diverge \<Rightarrow> Diverge)
      | Panic \<Rightarrow> Panic
      | Diverge \<Rightarrow> Diverge)"

section \<open>Rows and columns\<close>

lemma share_Nil [simp]: "share L tasks [] = ([], tasks)"
  by (induction L tasks "[] :: 'a event list" rule: share.induct) simp_all

lemma share_Cons:
  "share L tasks (e # es) =
     (case share L tasks [e] of (r, tasks1) \<Rightarrow>
        (case share L tasks1 es of (rest, tasks2) \<Rightarrow> (r @ rest, tasks2)))"
proof (induction tasks arbitrary: es)
  case (Cons entry tasks)
  obtain h tag t where entry: "entry = (h, tag, t)" by (cases entry)
  obtain taken t1 where t1: "take_response L t e = (taken, t1)" by (cases "take_response L t e")
  obtain left t2 where t2: "take_all L t1 es = (left, t2)" by (cases "take_all L t1 es")
  from entry t1 t2 Cons.IH [of left] show ?case
    by (cases taken) (simp_all split: prod.split)
qed simp

context task_consumer
begin

lemma share_first_taker:
  assumes "\<And>t. take_response L t e = (case process t m of (r, t') \<Rightarrow> (r = None, t'))"
  shows "share L tasks [e] =
    (case first_taker (\<lambda>t. process t m) tasks of None \<Rightarrow> ([e], tasks) | Some tasks' \<Rightarrow> ([], tasks'))"
proof (induction tasks)
  case (Cons entry tasks)
  obtain h tag t where entry: "entry = (h, tag, t)" by (cases entry)
  show ?case
  proof (cases "process t m")
    case (Pair r t')
    with hand_back [of t m _ t'] Cons.IH entry assms [of t] show ?thesis
      by (cases r) (auto split: option.split)
  qed
qed simp

end

text \<open>One turn at a response: where the reference sends it.\<close>

lemma handle_event_shares:
  assumes "offered e"
  shows "handle_event N L e s =
    (case share L (active_tasks s) [e] of
       ([], active) \<Rightarrow> Continue (s\<lparr>active_tasks := active\<rparr>)
     | (_, active) \<Rightarrow> Break (unsolicited e) (s\<lparr>active_tasks := active\<rparr>))"
  using assms
proof (cases e rule: offered.cases)
  case (1 d)
  with any_data.share_first_taker [of L e L d "active_tasks s"] show ?thesis
    by (simp add: handle_event_def unsolicited_def any_data.trickle_active_first_taker split: option.split)
next
  case (2 c)
  with any_continuation.share_first_taker [of L e c "active_tasks s"] show ?thesis
    by (simp add: handle_event_def unsolicited_def any_continuation.trickle_active_first_taker
        split: option.split)
next
  case (3 b)
  with any_untagged.share_first_taker [of L e b "active_tasks s"] show ?thesis
    by (simp add: handle_event_def unsolicited_def any_untagged.trickle_active_first_taker
        split: option.split)
next
  case (4 bye)
  with any_bye.share_first_taker [of L e bye "active_tasks s"] show ?thesis
    by (simp add: handle_event_def unsolicited_def any_bye.trickle_active_first_taker split: option.split)
qed simp_all

lemma take_all_left: "take_all L t es = (left, t') \<Longrightarrow> length left \<le> length es"
  by (induction es arbitrary: t left) (fastforce split: prod.splits if_splits)+

lemma share_one_left: "fst (share L tasks [e]) = [] \<or> fst (share L tasks [e]) = [e]"
  by (induction tasks) (auto split: prod.splits)

lemma progress_n_same: "progress N L s = progress N L s' \<Longrightarrow> progress_n N L (Suc n) s = progress_n N L (Suc n) s'"
  by simp

section \<open>Pipelined commands\<close>

text \<open>The first of the responses: it is reported at once, or swallowed on the way to the next.\<close>

lemma progress_shares_one:
  assumes n: "nc_next N (client_next s) = (Inr e, c)" and "offered e"
    and one: "share L (active_tasks s) [e] = (r, active)"
    and rest: "progress_n N L (Suc k) (s\<lparr>client_next := c, active_tasks := active\<rparr>) = Ret (rs, s')"
  shows "progress_n N L (Suc (length r + k)) s = Ret (map unsolicited r @ rs, s')"
proof -
  let ?s = "s\<lparr>client_next := c, active_tasks := active\<rparr>"
  have turn: "progress_turn N L s = (case r of [] \<Rightarrow> Continue ?s | _ \<Rightarrow> Break (unsolicited e) ?s)"
    using progress_turn_event [OF n, of L] handle_event_shares [of e N L "s\<lparr>client_next := c\<rparr>"] assms(2) one
    by (simp split: list.split)
  from share_one_left [of L "active_tasks s" e] one consider "r = []" | "r = [e]" by auto
  then show ?thesis
  proof cases
    case 1
    with turn have "progress N L s = progress N L ?s" by (simp add: progress_Continue)
    from progress_n_same [OF this] rest 1 show ?thesis by simp
  next
    case 2
    with turn have "progress N L s = Ret (unsolicited e, ?s)" by (simp add: progress_Break)
    with rest 2 show ?thesis by simp
  qed
qed

text \<open>C3: Pipelined commands. Any number of tasks is active; responses arrive and then the completion of
  one of them. The scheduler shares the responses exactly as if each task, in the order in which
  the tasks were begun, had gone through all of them, taken what it wants and passed the rest on:
  the responses that no task wanted are reported as unsolicited, in order and nothing else
  is, and the completed task reports the output of the responses that came to it, while the
  other tasks go on with theirs.\<close>

theorem pipelined_tasks_share_responses:
  assumes "emits N (client_next s) (es @ [StatusReceived (Status_Tagged tag body)]) c"
    and "\<forall>e \<in> set es. offered e"
    and "share L (active_tasks s) es = (rest, us @ (h, tag, t) # vs)"
    and "tag \<notin> entry_tag ` set us"
  shows "progress_n N L (Suc (length rest)) s =
    Ret (map unsolicited rest @
          [Inr (Ev_TaskFinished \<lparr>tok_handle = h, tok_output = Some (task_process_tagged L t body)\<rparr>)],
        s\<lparr>client_next := c, active_tasks := us @ vs\<rparr>)"
  using assms(1-3)
proof (induction es arbitrary: s rest)
  case Nil
  then have n: "nc_next N (client_next s) = (Inr (StatusReceived (Status_Tagged tag body)), c)"
    and act: "active_tasks s = us @ (h, tag, t) # vs" and rest: "rest = []"
    by (auto simp: emits_Cons simp del: emits.simps(2))
  have "progress_turn N L s =
      Break (Inr (Ev_TaskFinished \<lparr>tok_handle = h, tok_output = Some (task_process_tagged L t body)\<rparr>))
        (s\<lparr>client_next := c, active_tasks := us @ vs\<rparr>)"
    unfolding progress_turn_event [OF n]
    by (subst tagged_status_finishes [where us = us and vs = vs and h = h and t = t])
      (simp_all add: act assms(4))
  from progress_Break [OF this] show ?case unfolding rest by simp
next
  case (Cons e es)
  from Cons.prems(1) obtain c1 where n: "nc_next N (client_next s) = (Inr e, c1)"
    and es: "emits N c1 (es @ [StatusReceived (Status_Tagged tag body)]) c"
    by (simp only: append_Cons emits_Cons) blast
  obtain r active where one: "share L (active_tasks s) [e] = (r, active)"
    by (cases "share L (active_tasks s) [e]")
  from Cons.prems(3) one obtain rest' where rest: "rest = r @ rest'"
    and share: "share L active es = (rest', us @ (h, tag, t) # vs)"
    by (subst (asm) share_Cons) (auto split: prod.splits)
  from Cons.prems(2) es share have "progress_n N L (Suc (length rest')) (s\<lparr>client_next := c1, active_tasks := active\<rparr>) =
      Ret (map unsolicited rest' @
          [Inr (Ev_TaskFinished \<lparr>tok_handle = h, tok_output = Some (task_process_tagged L t body)\<rparr>)],
        s\<lparr>client_next := c, active_tasks := us @ vs\<rparr>)"
    by (subst Cons.IH) simp_all
  from progress_shares_one [OF n _ one this] Cons.prems(2) rest show ?case by simp
qed

text \<open>SEARCH and EXPUNGE in flight together; EXPUNGE completes first.\<close>

definition demo_pipeline_events :: "nat event list" where
  "demo_pipeline_events =
     [DataReceived (Data_Expunge (Abs_nonzero 3)), DataReceived (Data_Exists 2),
      DataReceived (Data_Search [Abs_nonzero 7] 0)]"

definition demo_pipeline :: "(nat, nat script, nat) scheduler" where
  "demo_pipeline =
     \<lparr>client_next = script (map Inr (demo_pipeline_events @
        [StatusReceived (Status_Tagged ''1'' (ok_body None 0))])),
      waiting_tasks = [], active_tasks = [(0, ''0'', demo_task), (1, ''1'', T_Expunge expunge_task_new)],
      tag_generator = 2\<rparr>"

lemma pipelined_tasks_share_responses_witness:
  "progress_n script_client example_lib 2 demo_pipeline =
     Ret ([Inr (Ev_Unsolicited (Resp_Data (Data_Exists 2))),
           Inr (Ev_TaskFinished \<lparr>tok_handle = 1, tok_output = Some (Out_Ids (Inr [Abs_nonzero 3]))\<rparr>)],
       demo_pipeline\<lparr>client_next := script [],
         active_tasks := [(0, ''0'', T_Search ((search_task_new [Key_All])\<lparr>search_output := [Abs_nonzero 7]\<rparr>))]\<rparr>)"
proof -
  have emits: "emits script_client (client_next demo_pipeline)
      (demo_pipeline_events @ [StatusReceived (Status_Tagged ''1'' (ok_body None 0))]) (script [])"
    by (simp add: demo_pipeline_def demo_pipeline_events_def script_defs)
  have offered: "\<forall>e \<in> set demo_pipeline_events. offered e"
    by (simp add: demo_pipeline_events_def)
  have share: "share example_lib (active_tasks demo_pipeline) demo_pipeline_events =
      ([DataReceived (Data_Exists 2)],
       [(0, ''0'', T_Search ((search_task_new [Key_All])\<lparr>search_output := [Abs_nonzero 7]\<rparr>))] @
       (1, ''1'', T_Expunge (expunge_task_new\<lparr>expunge_output := [Abs_nonzero 3]\<rparr>)) # [])"
    by (simp add: demo_pipeline_def demo_pipeline_events_def demo_task_def task_simps reboxed_def
        expunge_task_new_def search_task_new_def search_task_default_def)
  show ?thesis
    using pipelined_tasks_share_responses [OF emits offered share]
    by (simp add: unsolicited_def entry_defs task_simps numeral_2_eq_2 del: progress_n.simps)
qed

end
