(* ===== verification/Client_Api.thy ===== *)
theory Client_Api
  imports Connect_Theorems
begin

text \<open>
  The contract of the client's methods that stand for one command: for every call, the command
  that has to go out, or the reason why none does. The methods are shown to keep it.
\<close>

section \<open>The contract\<close>

text \<open>A call of such a method. \<open>uid\<close> chooses between a method and its \<open>uid_\<close> variant.\<close>

datatype 'v api_call =
    Call_Enable "'v capability_enable list"
  | Call_Create "'v + 'v"
  | Call_List "'v + 'v" "'v + 'v"
  | Call_Select "'v + 'v"
  | Call_Examine "'v + 'v"
  | Call_Expunge
  | Call_Delete "'v + 'v"
  | Call_Search bool "'v search_key list"
  | Call_Sort bool "sort_criterion list" "'v search_key list"
  | Call_Thread bool 'v "'v search_key list"
  | Call_Store bool 'v "'v store_type" "'v flag list"
  | Call_SilentStore bool 'v "'v store_type" "'v flag list"
  | Call_PostAppendNoop
  | Call_PostAppendCheck
  | Call_FetchFirst bool nz_u32 "'v macro_or_names"
  | Call_Copy bool 'v "'v + 'v"
  | Call_Move bool 'v "'v + 'v"
  | Call_Check
  | Call_Noop
  | Call_Id "('v \<times> 'v) list option"
  | Call_Append "'v + 'v" "'v flag list" bytes
  | Call_AppendUid "'v + 'v" "'v flag list" bytes
  | Call_Fetch bool 'v "'v macro_or_names" "'v fetch_modifier list option"

text \<open>The method behind a call, its output dropped.\<close>

definition op_unit :: "('v, 'c, 'g, 's, 'a) op \<Rightarrow> ('v, 'c, 'g, 's, unit) op" where
  "op_unit m = op_bind m (\<lambda>_. op_return ())"

fun run_call :: "('v, 'c, 'g, 's) env \<Rightarrow> 'v api_call \<Rightarrow> ('v, 'c, 'g, 's, unit) op" where
  "run_call E (Call_Enable capabilities) = op_unit (client_enable E capabilities)"
| "run_call E (Call_Create mailbox) = client_create E mailbox"
| "run_call E (Call_List mailbox wildcard) = op_unit (client_list E mailbox wildcard)"
| "run_call E (Call_Select mailbox) = op_unit (client_select E mailbox)"
| "run_call E (Call_Examine mailbox) = op_unit (client_examine E mailbox)"
| "run_call E Call_Expunge = op_unit (client_expunge E)"
| "run_call E (Call_Delete mailbox) = client_delete E mailbox"
| "run_call E (Call_Search uid keys) =
     op_unit (if uid then client_uid_search E keys else client_search E keys)"
| "run_call E (Call_Sort uid criteria keys) =
     op_unit (if uid then client_uid_sort E criteria keys else client_sort E criteria keys)"
| "run_call E (Call_Thread uid algorithm keys) =
     op_unit (if uid then client_uid_thread E algorithm keys else client_thread E algorithm keys)"
| "run_call E (Call_Store uid sequence_set kind flags) =
     op_unit (if uid then client_uid_store E sequence_set kind flags
              else client_store E sequence_set kind flags)"
| "run_call E (Call_SilentStore uid sequence_set kind flags) =
     (if uid then client_uid_silent_store E sequence_set kind flags
      else client_silent_store E sequence_set kind flags)"
| "run_call E Call_PostAppendNoop = op_unit (post_append_noop E)"
| "run_call E Call_PostAppendCheck = op_unit (post_append_check E)"
| "run_call E (Call_FetchFirst uid msg_id items) =
     op_unit (if uid then client_uid_fetch_first E msg_id items else client_fetch_first E msg_id items)"
| "run_call E (Call_Copy uid sequence_set mailbox) =
     (if uid then client_uid_copy E sequence_set mailbox else client_copy E sequence_set mailbox)"
| "run_call E (Call_Move uid sequence_set mailbox) =
     (if uid then client_uid_move E sequence_set mailbox else client_move E sequence_set mailbox)"
| "run_call E Call_Check = client_check E"
| "run_call E Call_Noop = client_noop E"
| "run_call E (Call_Id params) = op_unit (client_id E params)"
| "run_call E (Call_Append mailbox flags message) = op_unit (client_append E mailbox flags message)"
| "run_call E (Call_AppendUid mailbox flags message) = op_unit (client_appenduid E mailbox flags message)"
| "run_call E (Call_Fetch uid sequence_set items modifiers) =
     op_unit (case modifiers of
         None \<Rightarrow> if uid then client_uid_fetch E sequence_set items else client_fetch E sequence_set items
       | Some m \<Rightarrow> if uid then client_uid_fetch_with_modifiers E sequence_set items m
                   else client_fetch_with_modifiers E sequence_set items m)"

text \<open>
  What a call is to issue: \<open>Some\<close> command, or nothing because the server does not have the
  extension; \<open>Inl\<close> when an argument is refused.
\<close>

definition select_params :: "('v, 'c, 'g) client_state \<Rightarrow> select_parameter list" where
  "select_params state = (if client_condstore_enabled state then [Param_CondStore] else [])"

definition or_all :: "'v search_key list \<Rightarrow> 'v search_key list" where
  "or_all keys = (if keys = [] then [Key_All] else keys)"

definition or_newest_first :: "sort_criterion list \<Rightarrow> sort_criterion list" where
  "or_newest_first criteria =
     (if criteria = [] then [\<lparr>sc_reverse = True, sc_key = Sort_Date\<rparr>] else criteria)"

fun with_arg :: "'e + 'a \<Rightarrow> ('a \<Rightarrow> 'e + 'b) \<Rightarrow> 'e + 'b" where
  "with_arg (Inl e) f = Inl e"
| "with_arg (Inr a) f = f a"

definition message_literal ::
    "'v lib \<Rightarrow> ('v, 'c, 'g) client_state \<Rightarrow> bytes \<Rightarrow> 'v + literal_or_literal8" where
  "message_literal L state message =
     (if ext_binary_supported state then Inr (Lit_Literal8 message Mode_Sync)
      else with_arg (literal_validate L message) (\<lambda>_. Inr (Lit_Literal message)))"

fun call_command ::
    "'v lib \<Rightarrow> ('v, 'c, 'g) client_state \<Rightarrow> 'v api_call \<Rightarrow> 'v + 'v command_body option" where
  "call_command L state (Call_Enable capabilities) =
     Inr (if ext_enable_supported state \<and> capabilities \<noteq> [] then Some (Cmd_Enable capabilities) else None)"
| "call_command L state (Call_Create mailbox) = with_arg mailbox (\<lambda>m. Inr (Some (Cmd_Create m)))"
| "call_command L state (Call_List mailbox wildcard) =
     with_arg mailbox (\<lambda>m. with_arg wildcard (\<lambda>w. Inr (Some (Cmd_List m w))))"
| "call_command L state (Call_Select mailbox) =
     with_arg mailbox (\<lambda>m. Inr (Some (Cmd_Select m (select_params state))))"
| "call_command L state (Call_Examine mailbox) =
     with_arg mailbox (\<lambda>m. Inr (Some (Cmd_Examine m (select_params state))))"
| "call_command L state Call_Expunge = Inr (Some Cmd_Expunge)"
| "call_command L state (Call_Delete mailbox) = with_arg mailbox (\<lambda>m. Inr (Some (Cmd_Delete m)))"
| "call_command L state (Call_Search uid keys) = Inr (Some (Cmd_Search None (or_all keys) uid))"
| "call_command L state (Call_Sort uid criteria keys) =
     Inr (Some (Cmd_Sort (or_newest_first criteria) (charset_utf8 L) (or_all keys) uid))"
| "call_command L state (Call_Thread uid algorithm keys) =
     Inr (Some (Cmd_Thread algorithm (charset_utf8 L) (or_all keys) uid))"
| "call_command L state (Call_Store uid sequence_set kind flags) =
     Inr (Some (Cmd_Store [] sequence_set kind Answer flags uid))"
| "call_command L state (Call_SilentStore uid sequence_set kind flags) =
     Inr (Some (Cmd_Store [] sequence_set kind Silent flags uid))"
| "call_command L state Call_PostAppendNoop = Inr (Some Cmd_Noop)"
| "call_command L state Call_PostAppendCheck = Inr (Some Cmd_Check)"
| "call_command L state (Call_FetchFirst uid msg_id items) =
     Inr (Some (Cmd_Fetch [] (seq_set_of_id L msg_id) items uid))"
| "call_command L state (Call_Copy uid sequence_set mailbox) =
     with_arg mailbox (\<lambda>m. Inr (Some (Cmd_Copy sequence_set m uid)))"
| "call_command L state (Call_Move uid sequence_set mailbox) =
     with_arg mailbox (\<lambda>m. Inr (Some (Cmd_Move sequence_set m uid)))"
| "call_command L state Call_Check = Inr (Some Cmd_Check)"
| "call_command L state Call_Noop = Inr (Some Cmd_Noop)"
| "call_command L state (Call_Id params) =
     Inr (if ext_id_supported state then Some (Cmd_Id params) else None)"
| "call_command L state (Call_Append mailbox flags message) =
     with_arg mailbox (\<lambda>m. with_arg (message_literal L state message) (\<lambda>lit.
       Inr (Some (Cmd_Append m flags None lit))))"
| "call_command L state (Call_AppendUid mailbox flags message) =
     with_arg mailbox (\<lambda>m. with_arg (message_literal L state message) (\<lambda>lit.
       Inr (Some (Cmd_Append m flags None lit))))"
| "call_command L state (Call_Fetch uid sequence_set items modifiers) =
     Inr (Some (Cmd_Fetch (case modifiers of Some m \<Rightarrow> m | None \<Rightarrow> []) sequence_set
       (Item_Names (macro_names L items @ (if uid then [Name_Uid] else []))) uid))"

section \<open>The methods keep it\<close>

lemma op_unit_return [simp]: "op_unit (op_return a) = op_return ()"
  and op_unit_throw [simp]: "op_unit (op_throw e) = op_throw e"
  by (simp_all add: op_unit_def)

lemma op_unit_try: "op_unit (op_bind (op_try arg) g) = op_bind (op_try arg) (\<lambda>a. op_unit (g a))"
  and op_unit_state: "op_unit (op_state f) = op_state (\<lambda>state. op_unit (f state))"
  and op_unit_mapped: "op_unit (op_bind m (\<lambda>a. op_return (h a))) = op_unit m"
  by (simp_all add: op_unit_def op_bind_assoc op_state_def op_bind_def fun_eq_iff)

text \<open>A method of a client does what the contract says of its call.\<close>

definition meets ::
    "('v, 'c \<times> 'v command list, 'g, 's) env \<Rightarrow> ('v, 'c \<times> 'v command list, 'g, 's) client
       \<Rightarrow> ('v, 'c \<times> 'v command list, 'g, 's, unit) op \<Rightarrow> 'v + 'v command_body option \<Rightarrow> bool" where
  "meets E self m contract \<longleftrightarrow>
     (\<forall>r self'. m self = Ret (r, self') \<longrightarrow>
        (case contract of
           Inl e \<Rightarrow> r = Inl (Validation e) \<and> self' = self
         | Inr None \<Rightarrow> r = Inr () \<and> self' = self
         | Inr (Some body) \<Rightarrow>
             issued_by snd self' = issued_by snd self @ [body] \<and> same_but_io self self'))"

named_theorems meets_intros \<open>how a method meets the contract, by its shape\<close>

lemma meets_command_any:
  "meets E self (op_unit m) contract \<Longrightarrow> m self = Ret (r, self') \<Longrightarrow>
     (case contract of
        Inl e \<Rightarrow> map_sum id (\<lambda>_. ()) r = Inl (Validation e) \<and> self' = self
      | Inr None \<Rightarrow> map_sum id (\<lambda>_. ()) r = Inr () \<and> self' = self
      | Inr (Some body) \<Rightarrow>
          issued_by snd self' = issued_by snd self @ [body] \<and> same_but_io self self')"
  by (cases r) (auto simp: meets_def op_unit_def op_bind_def split: sum.splits option.splits)

lemma meets_throw [meets_intros]: "meets E self (op_throw (Validation e)) (Inl e)"
  and meets_return [meets_intros]: "meets E self (op_return ()) (Inr None)"
  by (simp_all add: meets_def)

lemma meets_task [meets_intros]:
  assumes "logs E" and "task_command_body (env_lib E) task = Ret body"
  shows "meets E self (client_task E out task) (Inr (Some body))"
  using client_task_logged [OF _ assms] client_task_same by (auto simp: meets_def)

lemma meets_unit_task [meets_intros]:
  assumes "logs E" and "task_command_body (env_lib E) task = Ret body"
  shows "meets E self (op_unit (client_task E out task)) (Inr (Some body))"
  unfolding meets_def op_unit_def
  using client_task_logged [OF _ assms] client_task_same by (fastforce elim: op_bind_Ret)

lemma meets_try [meets_intros]:
  "(\<And>a. arg = Inr a \<Longrightarrow> meets E self (g a) (f a)) \<Longrightarrow>
     meets E self (op_bind (op_try arg) g) (with_arg arg f)"
  by (cases arg) (simp_all add: meets_throw)

lemma meets_state [meets_intros]:
  "meets E self (f (cl_state self)) contract \<Longrightarrow> meets E self (op_state f) contract"
  by (simp add: meets_def op_state_def)

lemma meets_if [meets_intros]:
  "(b \<Longrightarrow> meets E self m contract) \<Longrightarrow> (\<not> b \<Longrightarrow> meets E self m' contract) \<Longrightarrow>
     meets E self (if b then m else m') contract"
  by simp

text \<open>The contract of each method that has a \<open>uid\<close> switch or options, over the switch.\<close>

lemma search_meets:
  "logs E \<Longrightarrow> meets E self (op_unit (client_do_search E keys uid)) (Inr (Some (Cmd_Search None (or_all keys) uid)))"
  unfolding client_do_search_def Let_def
  by (rule meets_unit_task)
    (simp_all add: task_simps or_all_def search_task_new_def search_task_default_def
      search_task_with_uid_def search_task_set_uid_def)

lemma sort_meets:
  "logs E \<Longrightarrow> meets E self (op_unit (client_do_sort E criteria keys uid))
     (Inr (Some (Cmd_Sort (or_newest_first criteria) (charset_utf8 (env_lib E)) (or_all keys) uid)))"
  unfolding client_do_sort_def Let_def
  by (rule meets_unit_task)
    (simp_all add: task_simps or_all_def or_newest_first_def sort_task_new_def sort_task_with_uid_def
      sort_task_set_uid_def)

lemma thread_meets:
  "logs E \<Longrightarrow> meets E self (op_unit (client_do_thread E algorithm keys uid))
     (Inr (Some (Cmd_Thread algorithm (charset_utf8 (env_lib E)) (or_all keys) uid)))"
  unfolding client_do_thread_def Let_def
  by (rule meets_unit_task)
    (simp_all add: task_simps or_all_def thread_task_new_def thread_task_with_uid_def thread_task_set_uid_def)

lemma store_meets:
  "logs E \<Longrightarrow> meets E self (op_unit (client_do_store E sequence_set kind flags uid))
     (Inr (Some (Cmd_Store [] sequence_set kind Answer flags uid)))"
  unfolding client_do_store_def
  by (rule meets_unit_task)
    (simp_all add: task_simps store_task_new_def store_task_with_uid_def store_task_set_uid_def)

lemma silent_store_meets:
  "logs E \<Longrightarrow> meets E self (client_do_silent_store E sequence_set kind flags uid)
     (Inr (Some (Cmd_Store [] sequence_set kind Silent flags uid)))"
  unfolding client_do_silent_store_def
  by (rule meets_task)
    (simp_all add: task_simps store_task_new_def store_task_with_uid_def store_task_set_uid_def
      store_task_silent_def Let_def)

lemma fetch_first_meets:
  "logs E \<Longrightarrow> meets E self (op_unit (client_do_fetch_first E msg_id items uid))
     (Inr (Some (Cmd_Fetch [] (seq_set_of_id (env_lib E) msg_id) items uid)))"
  unfolding client_do_fetch_first_def
  by (rule meets_unit_task)
    (simp_all add: task_simps fetch_first_task_new_def fetch_first_task_with_uid_def
      fetch_first_task_set_uid_def)

lemma copy_meets:
  "logs E \<Longrightarrow> meets E self (client_do_copy E sequence_set mailbox uid)
     (with_arg mailbox (\<lambda>m. Inr (Some (Cmd_Copy sequence_set m uid))))"
  unfolding client_do_copy_def
  by (intro meets_try meets_task)
    (simp_all add: task_simps copy_task_new_def copy_task_with_uid_def copy_task_set_uid_def)

lemma move_meets:
  "logs E \<Longrightarrow> meets E self (client_do_move E sequence_set mailbox uid)
     (with_arg mailbox (\<lambda>m. Inr (Some (Cmd_Move sequence_set m uid))))"
  unfolding client_do_move_def
  by (intro meets_try meets_task)
    (simp_all add: task_simps move_task_new_def move_task_with_uid_def move_task_set_uid_def)

lemma fetch_meets:
  "logs E \<Longrightarrow> meets E self (op_unit (client_do_fetch E sequence_set items uid modifiers))
     (Inr (Some (Cmd_Fetch (case modifiers of Some m \<Rightarrow> m | None \<Rightarrow> []) sequence_set
       (Item_Names (macro_names (env_lib E) items @ (if uid then [Name_Uid] else []))) uid)))"
  unfolding client_do_fetch_def Let_def op_unit_mapped
  by (rule meets_unit_task)
    (simp_all add: task_simps fetch_task_new_def fetch_task_with_uid_def fetch_task_set_uid_def
      fetch_task_set_modifiers_def split: option.split)

text \<open>The literal of a message is validated exactly when it is not sent as a \<open>literal8\<close>.\<close>

lemma to_static_literal_message:
  "to_static_literal L message (ext_binary_supported state) = message_literal L state message"
  by (cases "literal_validate L message") (simp_all add: to_static_literal_def message_literal_def)

lemma append_meets:
  "logs E \<Longrightarrow> meets E self (op_unit (client_append E mailbox flags message))
     (with_arg mailbox (\<lambda>m. with_arg (message_literal (env_lib E) (cl_state self) message)
       (\<lambda>lit. Inr (Some (Cmd_Append m flags None lit)))))"
  unfolding client_append_def op_unit_try op_unit_state to_static_literal_message
  by (intro meets_try meets_state meets_unit_task)
    (simp_all add: task_simps append_task_new_def append_task_with_flags_def append_task_set_flags_def)

lemma appenduid_meets:
  "logs E \<Longrightarrow> meets E self (op_unit (client_appenduid E mailbox flags message))
     (with_arg mailbox (\<lambda>m. with_arg (message_literal (env_lib E) (cl_state self) message)
       (\<lambda>lit. Inr (Some (Cmd_Append m flags None lit)))))"
  unfolding client_appenduid_def op_unit_try op_unit_state to_static_literal_message
  by (intro meets_try meets_state meets_unit_task)
    (simp_all add: task_simps appenduid_task_new_def appenduid_task_with_flags_def
      appenduid_task_set_flags_def)

lemma select_meets:
  "logs E \<Longrightarrow> meets E self (op_unit (client_select E mailbox))
     (with_arg mailbox (\<lambda>m. Inr (Some (Cmd_Select m (select_params (cl_state self))))))"
  "logs E \<Longrightarrow> meets E self (op_unit (client_examine E mailbox))
     (with_arg mailbox (\<lambda>m. Inr (Some (Cmd_Examine m (select_params (cl_state self))))))"
  unfolding client_select_def client_examine_def op_unit_try op_unit_state
  by (intro meets_try meets_state meets_unit_task;
      simp add: task_simps select_task_new_def select_task_read_only_def select_task_with_condstore_def
        select_params_def client_condstore_enabled_def)+

lemma guarded_meets:
  "logs E \<Longrightarrow> meets E self (op_unit (client_enable E capabilities))
     (Inr (if ext_enable_supported (cl_state self) \<and> capabilities \<noteq> []
           then Some (Cmd_Enable capabilities) else None))"
  "logs E \<Longrightarrow> meets E self (op_unit (client_id E params))
     (Inr (if ext_id_supported (cl_state self) then Some (Cmd_Id params) else None))"
  unfolding client_enable_def client_id_def op_unit_state
  by (intro meets_state; simp add: meets_return meets_unit_task task_simps enable_task_new_def id_task_new_def)+

lemmas method_meets =
  search_meets sort_meets thread_meets store_meets silent_store_meets fetch_first_meets copy_meets
  move_meets fetch_meets append_meets appenduid_meets select_meets guarded_meets

lemma simple_meets:
  assumes "logs E"
  shows "meets E self (client_create E mailbox) (with_arg mailbox (\<lambda>m. Inr (Some (Cmd_Create m))))"
    and "meets E self (client_delete E mailbox) (with_arg mailbox (\<lambda>m. Inr (Some (Cmd_Delete m))))"
    and "meets E self (op_unit (client_list E mailbox wildcard))
      (with_arg mailbox (\<lambda>m. with_arg wildcard (\<lambda>w. Inr (Some (Cmd_List m w)))))"
    and "meets E self (op_unit (client_expunge E)) (Inr (Some Cmd_Expunge))"
    and "meets E self (op_unit (post_append_noop E)) (Inr (Some Cmd_Noop))"
    and "meets E self (op_unit (post_append_check E)) (Inr (Some Cmd_Check))"
    and "meets E self (client_check E) (Inr (Some Cmd_Check))"
    and "meets E self (client_noop E) (Inr (Some Cmd_Noop))"
  unfolding client_create_def client_delete_def client_list_def client_expunge_def post_append_noop_def
    post_append_check_def client_check_def client_noop_def op_unit_try
  by (intro meets_try meets_task meets_unit_task assms;
      simp add: task_simps create_task_new_def delete_task_new_def list_task_new_def)+

lemma run_call_meets:
  assumes "logs E"
  shows "meets E self (run_call E call) (call_command (env_lib E) (cl_state self) call)"
proof (cases call)
  case (Call_Search uid keys)
  with assms show ?thesis by (cases uid) (simp_all add: client_search_def client_uid_search_def method_meets)
next
  case (Call_Sort uid criteria keys)
  with assms show ?thesis by (cases uid) (simp_all add: client_sort_def client_uid_sort_def method_meets)
next
  case (Call_Thread uid algorithm keys)
  with assms show ?thesis by (cases uid) (simp_all add: client_thread_def client_uid_thread_def method_meets)
next
  case (Call_Store uid sequence_set kind flags)
  with assms show ?thesis by (cases uid) (simp_all add: client_store_def client_uid_store_def method_meets)
next
  case (Call_SilentStore uid sequence_set kind flags)
  with assms show ?thesis
    by (cases uid) (simp_all add: client_silent_store_def client_uid_silent_store_def method_meets)
next
  case (Call_FetchFirst uid msg_id items)
  with assms show ?thesis
    by (cases uid) (simp_all add: client_fetch_first_def client_uid_fetch_first_def method_meets)
next
  case (Call_Copy uid sequence_set mailbox)
  with assms show ?thesis by (cases uid) (simp_all add: client_copy_def client_uid_copy_def method_meets)
next
  case (Call_Move uid sequence_set mailbox)
  with assms show ?thesis by (cases uid) (simp_all add: client_move_def client_uid_move_def method_meets)
next
  case (Call_Fetch uid sequence_set items modifiers)
  with assms fetch_meets [OF assms, of self sequence_set items uid modifiers] show ?thesis
    by (cases uid; cases modifiers)
      (simp_all add: client_fetch_def client_uid_fetch_def client_fetch_with_modifiers_def
        client_uid_fetch_with_modifiers_def)
qed (simp_all add: assms method_meets simple_meets del: if_split)

text \<open>C6: The methods that stand for one command keep their contract: the low-level ones from
  \<open>enable\<close> to \<open>noop\<close>, but not \<open>enable_condstore_if_supported\<close>, which changes the CONDSTORE flag and
  has a property of its own, and also \<open>id\<close>, \<open>append\<close>, \<open>appenduid\<close> and the four \<open>fetch\<close> methods.
  A call whose arguments are refused returns the refusal, issues nothing and changes nothing. ENABLE
  of no capability at all, and ENABLE or ID on a server without that extension, issue nothing, change
  nothing and return no error. Every other call of such a method issues exactly one command, the one
  it stands for, with its \<open>uid\<close> variant, its default search keys and criteria and the CONDSTORE
  parameter as the state asks for them, and leaves capabilities, timeout and the CONDSTORE flag alone.\<close>

theorem methods_issue_their_command:
  assumes "logs E" and "run_call E call self = Ret (r, self')"
  shows "case call_command (env_lib E) (cl_state self) call of
      Inl e \<Rightarrow> r = Inl (Validation e) \<and> self' = self
    | Inr None \<Rightarrow> r = Inr () \<and> self' = self
    | Inr (Some body) \<Rightarrow>
        issued_by snd self' = issued_by snd self @ [body] \<and> same_but_io self self'"
  using run_call_meets [OF assms(1)] assms(2) unfolding meets_def by blast

lemma methods_issue_their_command_witness:
  "\<exists>r self'. run_call demo_env (Call_Copy True 5 (Inr 6))
      (demo_client [] [Inr (CommandSent 0), Inr (StatusReceived (Status_Tagged ''0'' no_body))]) = Ret (r, self') \<and>
    issued_by snd self' = [Cmd_Copy 5 6 True]"
proof -
  let ?self = "demo_client [] [Inr (CommandSent 0), Inr (StatusReceived (Status_Tagged ''0'' no_body))]"
  have "\<exists>r self'. run_call demo_env (Call_Copy True 5 (Inr 6)) ?self = Ret (r, self')"
    by (simp add: client_uid_copy_def client_do_copy_def demo_client_simps demo_task_simps)
  moreover have "issued_by snd ?self = []"
    by (simp add: demo_client_simps issued_by_def rs_client_def)
  ultimately show ?thesis
    using methods_issue_their_command [OF demo_logs, of "Call_Copy True 5 (Inr 6)" ?self] by fastforce
qed

section \<open>CONDSTORE\<close>

text \<open>C24: Enabling CONDSTORE. Without CONDSTORE or ENABLE on the server nothing is issued and nothing
  changes. Otherwise ENABLE CONDSTORE is issued, and when it succeeds the client's flag says exactly
  whether the server confirmed CONDSTORE in this answer, whatever it said before; a failed ENABLE
  leaves it. From then on SELECT asks for CONDSTORE exactly when the flag is set.\<close>

theorem condstore_enabled_when_confirmed:
  assumes "logs E" and "enable_condstore_if_supported E self = Ret (r, self')"
  shows "if ext_condstore_supported (cl_state self) \<and> ext_enable_supported (cl_state self)
    then issued_by snd self' = issued_by snd self @ [Cmd_Enable [CapEnable_CondStore]] \<and>
      (case r of
         Inl _ \<Rightarrow> same_but_io self self'
       | Inr enabled \<Rightarrow> \<exists>confirmed s1.
           client_enable E [CapEnable_CondStore] self = Ret (Inr confirmed, s1) \<and>
           enabled = (\<exists>cs. confirmed = Some cs \<and> CapEnable_CondStore \<in> set cs) \<and>
           client_condstore_enabled (cl_state self') = enabled \<and>
           (\<forall>mbox r2 s2. client_select E (Inr mbox) self' = Ret (r2, s2) \<longrightarrow>
             issued_by snd s2 = issued_by snd self' @
               [Cmd_Select mbox (if enabled then [Param_CondStore] else [])]))
    else r = Inr False \<and> self' = self"
proof (cases "ext_condstore_supported (cl_state self) \<and> ext_enable_supported (cl_state self)")
  case True
  with assms(2) have "op_bind (client_enable E [CapEnable_CondStore]) (\<lambda>capabilities.
      let enabled = (case capabilities of Some capabilities \<Rightarrow> CapEnable_CondStore \<in> set capabilities | None \<Rightarrow> False)
      in op_bind (op_modify (\<lambda>state. state\<lparr>cs_condstore_enabled := enabled\<rparr>)) (\<lambda>_. op_return enabled)) self
    = Ret (r, self')"
    by (simp add: enable_condstore_if_supported_def op_state_def)
  then show ?thesis
  proof (cases rule: op_bind_Ret)
    case (raised e)
    from meets_command_any [OF guarded_meets(1) [OF assms(1)] raised(1)] True raised(2)
    show ?thesis by simp
  next
    case (continued confirmed s1)
    define enabled where "enabled = (case confirmed of Some cs \<Rightarrow> CapEnable_CondStore \<in> set cs | None \<Rightarrow> False)"
    from continued(2) have r: "r = Inr enabled"
      and self': "self' = s1\<lparr>cl_state := (cl_state s1)\<lparr>cs_condstore_enabled := enabled\<rparr>\<rparr>"
      by (auto simp: enabled_def Let_def op_bind_def op_modify_def)
    from meets_command_any [OF guarded_meets(1) [OF assms(1)] continued(1)] True
    have "issued_by snd self' = issued_by snd self @ [Cmd_Enable [CapEnable_CondStore]]"
      by (simp add: issued_by_def self')
    moreover have "enabled = (\<exists>cs. confirmed = Some cs \<and> CapEnable_CondStore \<in> set cs)"
      by (auto simp: enabled_def split: option.split)
    moreover have "client_condstore_enabled (cl_state self') = enabled"
      by (simp add: client_condstore_enabled_def self')
    moreover from this have "\<forall>mbox r2 s2. client_select E (Inr mbox) self' = Ret (r2, s2) \<longrightarrow>
        issued_by snd s2 = issued_by snd self' @ [Cmd_Select mbox (if enabled then [Param_CondStore] else [])]"
      using select_issues [OF _ assms(1)] by (simp add: client_condstore_enabled_def)
    ultimately show ?thesis using continued(1) True by (simp only: r) auto
  qed
next
  case False
  with assms(2) show ?thesis by (auto simp: enable_condstore_if_supported_def op_state_def)
qed

lemma condstore_enabled_when_confirmed_witness:
  "\<exists>self'. enable_condstore_if_supported demo_env (demo_client [Cap_CondStore, Cap_Enable]
      [Inr (CommandSent 0), Inr (DataReceived (Data_Enabled [CapEnable_CondStore])),
       Inr (StatusReceived (Status_Tagged ''0'' (ok_body None 0)))]) = Ret (Inr True, self') \<and>
    client_condstore_enabled (cl_state self') \<and>
    issued_by snd self' = [Cmd_Enable [CapEnable_CondStore]]"
proof -
  let ?self = "demo_client [Cap_CondStore, Cap_Enable]
      [Inr (CommandSent 0), Inr (DataReceived (Data_Enabled [CapEnable_CondStore])),
       Inr (StatusReceived (Status_Tagged ''0'' (ok_body None 0)))]"
  have sup: "ext_condstore_supported (cl_state ?self)" "ext_enable_supported (cl_state ?self)"
    by (simp_all add: demo_client_def ext_supported_iff)
  have "\<exists>self'. enable_condstore_if_supported demo_env ?self = Ret (Inr True, self')"
    unfolding enable_condstore_if_supported_def op_state_def using sup
    by (simp add: client_enable_def enable_task_new_def demo_client_simps Let_def ext_supported_iff)
  then obtain self' where run: "enable_condstore_if_supported demo_env ?self = Ret (Inr True, self')" by blast
  have "issued_by snd ?self = []"
    by (simp add: demo_client_simps issued_by_def rs_client_def)
  with condstore_enabled_when_confirmed [OF demo_logs run] sup run show ?thesis by auto
qed

end
