(* ===== verification/Example_Programs.thy ===== *)
theory Example_Programs
  imports Client_Connect Client_High
begin

text \<open>
  The programs of \<open>examples/\<close>: they compose the client's methods, unwrap every result and print.
  A program is modelled by the lines it prints; an \<open>unwrap\<close> or \<open>expect\<close> that fails is a panic.
\<close>

section \<open>The standard library\<close>

text \<open>\<open>str::parse\<close> for an unsigned integer of \<open>w\<close> bits: decimal digits after an optional plus sign.\<close>

definition is_decimal :: "char \<Rightarrow> bool" where
  "is_decimal c \<longleftrightarrow> (48::nat) \<le> of_char c \<and> of_char c \<le> (57::nat)"

definition digit_of :: "char \<Rightarrow> nat" where
  "digit_of c = of_char c - 48"

definition parse_uint :: "nat \<Rightarrow> string \<Rightarrow> nat option" where
  "parse_uint w s =
     (let digits = (case s of c # d # ds \<Rightarrow> if c = CHR ''+'' then d # ds else s | _ \<Rightarrow> s)
      in if digits = [] \<or> \<not> list_all is_decimal digits then None
         else let n = foldl (\<lambda>n c. 10 * n + digit_of c) 0 digits
              in if n < 2 ^ w then Some n else None)"

definition parse_u16 :: "string \<Rightarrow> u16 option" where
  "parse_u16 s = map_option of_nat (parse_uint 16 s)"

definition parse_u64 :: "string \<Rightarrow> u64 option" where
  "parse_u64 s = map_option of_nat (parse_uint 64 s)"

definition saturating_sub :: "u64 \<Rightarrow> u64 \<Rightarrow> u64" where
  "saturating_sub a b = (if b \<le> a then a - b else 0)"

text \<open>Whether \<open>std::str::from_utf8\<close> accepts the bytes: the well-formed sequences of one to four bytes.\<close>

definition byte_in :: "nat \<Rightarrow> nat \<Rightarrow> byte \<Rightarrow> bool" where
  "byte_in lo hi b \<longleftrightarrow> lo \<le> of_char b \<and> of_char b \<le> hi"

fun is_utf8 :: "bytes \<Rightarrow> bool" where
  "is_utf8 [] = True"
| "is_utf8 (a # s) =
     (if byte_in 0 0x7F a then is_utf8 s
      else (case s of
        [] \<Rightarrow> False
      | b # s \<Rightarrow>
          if byte_in 0xC2 0xDF a then byte_in 0x80 0xBF b \<and> is_utf8 s
          else (case s of
            [] \<Rightarrow> False
          | c # s \<Rightarrow>
              if byte_in 0xE0 0xEF a then
                byte_in (if byte_in 0xE0 0xE0 a then 0xA0 else 0x80)
                  (if byte_in 0xED 0xED a then 0x9F else 0xBF) b \<and>
                byte_in 0x80 0xBF c \<and> is_utf8 s
              else (case s of
                [] \<Rightarrow> False
              | d # s \<Rightarrow>
                  byte_in 0xF0 0xF4 a \<and>
                  byte_in (if byte_in 0xF0 0xF0 a then 0x90 else 0x80)
                    (if byte_in 0xF4 0xF4 a then 0x8F else 0xBF) b \<and>
                  byte_in 0x80 0xBF c \<and> byte_in 0x80 0xBF d \<and> is_utf8 s))))"

section \<open>Programs\<close>

text \<open>The lines the programs print, with what they interpolate.\<close>

datatype 'v line =
    Line_Enabled bool
  | Line_Unsupported
  | Line_Selected "'v select_data"
  | Line_Active nz_u64
  | Line_Cached u64
  | Line_Calculated u64 u64
  | Line_Testing_Fetch nz_u64
  | Line_Changed nat
  | Line_Testing_Search nz_u64
  | Line_Found nat
  | Line_Testing_Vanished
  | Line_Vanished nat
  | Line_Vanished_Note
  | Line_Vanished_Failed "'v task_error"
  | Line_Vanished_Error "'v client_error"
  | Line_No_QResync
  | Line_Inactive
  | Line_Inbox
  | Line_Subject bytes
  | Line_Append
  | Line_Appended "u32 option"

text \<open>A program over its connected client: the lines from here on, and the client at the end.\<close>

type_synonym ('v, 'c, 'g, 's) program =
  "('v, 'c, 'g, 's) client \<Rightarrow> ('v line list \<times> ('v, 'c, 'g, 's) client) run"

definition prog_end :: "('v, 'c, 'g, 's) program" where
  "prog_end self = Ret ([], self)"

definition println :: "'v line \<Rightarrow> ('v, 'c, 'g, 's) program \<Rightarrow> ('v, 'c, 'g, 's) program" where
  "println line next self =
     (case next self of
        Ret (lines, self) \<Rightarrow> Ret (line # lines, self)
      | Panic \<Rightarrow> Panic
      | Diverge \<Rightarrow> Diverge)"

text \<open>\<open>client.method(..).await.unwrap()\<close>\<close>

definition unwrapped ::
    "('v, 'c, 'g, 's, 'a) op \<Rightarrow> ('a \<Rightarrow> ('v, 'c, 'g, 's) program) \<Rightarrow> ('v, 'c, 'g, 's) program" where
  "unwrapped m next self =
     (case m self of
        Ret (Inr a, self) \<Rightarrow> next a self
      | Ret (Inl _, _) \<Rightarrow> Panic
      | Panic \<Rightarrow> Panic
      | Diverge \<Rightarrow> Diverge)"

definition unwrap_some :: "'a option \<Rightarrow> ('a \<Rightarrow> ('v, 'c, 'g, 's) program) \<Rightarrow> ('v, 'c, 'g, 's) program" where
  "unwrap_some x next = (case x of Some a \<Rightarrow> next a | None \<Rightarrow> (\<lambda>_. Panic))"

definition unwrap_ok :: "'e + 'a \<Rightarrow> ('a \<Rightarrow> ('v, 'c, 'g, 's) program) \<Rightarrow> ('v, 'c, 'g, 's) program" where
  "unwrap_ok x next = (case x of Inr a \<Rightarrow> next a | Inl _ \<Rightarrow> (\<lambda>_. Panic))"

definition with_state ::
    "(('v, 'c, 'g) client_state \<Rightarrow> ('v, 'c, 'g, 's) program) \<Rightarrow> ('v, 'c, 'g, 's) program" where
  "with_state f self = f (cl_state self) self"

text \<open>The conversions of imap-types from strings.\<close>

record 'v from_str =
  str_sequence_set :: "string \<Rightarrow> 'v + 'v"
  str_mailbox :: "string \<Rightarrow> 'v + 'v"

text \<open>
  The arguments all programs take: host, port, user name and password after the program's name.
  \<open>None\<close> is the panic of a missing argument or of a port that is no number.
\<close>

definition login_args :: "string list \<Rightarrow> (string \<times> u16 \<times> string \<times> string) option" where
  "login_args args =
     (case args of
        _ # host # port # username # password # _ \<Rightarrow>
          (case parse_u16 port of
             Some port \<Rightarrow> Some (host, port, username, password)
           | None \<Rightarrow> None)
      | _ \<Rightarrow> None)"

text \<open>The program from its connection on: \<open>connect(host, port).await.unwrap()\<close>.\<close>

definition run_connected ::
    "('v, 'w, ('v, 'c, 'g, 's) client) net_op \<Rightarrow> ('v, 'c, 'g, 's) program \<Rightarrow> 'w \<Rightarrow> ('v line list \<times> 'w) run" where
  "run_connected connect session w =
     (case connect w of
        Ret (Inr client, w) \<Rightarrow>
          (case session client of
             Ret (lines, _) \<Rightarrow> Ret (lines, w)
           | Panic \<Rightarrow> Panic
           | Diverge \<Rightarrow> Diverge)
      | Ret (Inl _, _) \<Rightarrow> Panic
      | Panic \<Rightarrow> Panic
      | Diverge \<Rightarrow> Diverge)"

section \<open>append.rs\<close>

text \<open>\<open>message_eml\<close> is the file the compiler includes.\<close>

definition append_session ::
    "('v, 'c, 'g, 's) env \<Rightarrow> 'v from_str \<Rightarrow> bytes \<Rightarrow> string \<Rightarrow> string \<Rightarrow> ('v, 'c, 'g, 's) program" where
  "append_session E S message_eml username password =
     unwrapped (client_authenticate_plain E username password) (\<lambda>_.
     unwrapped (client_select E (str_mailbox S ''Drafts'')) (\<lambda>_.
     println Line_Append (
     unwrapped (client_append E (str_mailbox S ''Drafts'') [] message_eml) (\<lambda>data.
     println (Line_Appended data) prog_end))))"

definition append_main ::
    "('v, 'c, 'g, ('p, 't) maybe_tls) env \<Rightarrow> ('v, 'c, 'p, 't, 'n, 'k, 'w) network \<Rightarrow> 'v from_str \<Rightarrow> bytes
       \<Rightarrow> string list \<Rightarrow> 'w \<Rightarrow> ('v line list \<times> 'w) run" where
  "append_main E W S message_eml args w =
     (case login_args args of
        None \<Rightarrow> Panic
      | Some (host, port, username, password) \<Rightarrow>
          run_connected (client_rustls E W host port False None)
            (append_session E S message_eml username password) w)"

section \<open>fetch.rs\<close>

fun is_envelope :: "'v item \<Rightarrow> bool" where
  "is_envelope (Item_Envelope _) = True"
| "is_envelope _ = False"

text \<open>The subject of every message, in the order the map iterates in.\<close>

fun print_subjects :: "(nz_u32, 'v item list) hash_map \<Rightarrow> ('v, 'c, 'g, 's) program" where
  "print_subjects [] = prog_end"
| "print_subjects ((_, items) # data) =
     unwrap_some (List.find is_envelope items) (\<lambda>envelope.
     case envelope of
       Item_Envelope env \<Rightarrow>
         (case env_subject env of
            Some sub \<Rightarrow>
              unwrap_some (if is_utf8 (istring_bytes sub) then Some (istring_bytes sub) else None)
                (\<lambda>sub. println (Line_Subject sub) (print_subjects data))
          | None \<Rightarrow> print_subjects data)
     | _ \<Rightarrow> print_subjects data)"

definition fetch_session ::
    "('v, 'c, 'g, 's) env \<Rightarrow> 'v from_str \<Rightarrow> string \<Rightarrow> string \<Rightarrow> ('v, 'c, 'g, 's) program" where
  "fetch_session E S username password =
     unwrapped (client_authenticate_plain E username password) (\<lambda>_.
     unwrapped (client_select E (str_mailbox S ''inbox'')) (\<lambda>select_data.
     println (Line_Selected select_data) (
     unwrap_ok (str_sequence_set S ''1:10'') (\<lambda>sequence_set.
     unwrapped (client_fetch E sequence_set (Macro Macro_Full)) (\<lambda>data.
     println Line_Inbox (print_subjects data))))))"

text \<open>The constructor the program calls, \<open>Client::tls\<close>, is not part of the library: a parameter.\<close>

definition fetch_main ::
    "('v, 'c, 'g, 's) env \<Rightarrow> (string \<Rightarrow> u16 \<Rightarrow> ('v, 'w, ('v, 'c, 'g, 's) client) net_op) \<Rightarrow> 'v from_str
       \<Rightarrow> string list \<Rightarrow> 'w \<Rightarrow> ('v line list \<times> 'w) run" where
  "fetch_main E client_tls S args w =
     (case login_args args of
        None \<Rightarrow> Panic
      | Some (host, port, username, password) \<Rightarrow>
          run_connected (client_tls host port) (fetch_session E S username password) w)"

section \<open>condstore.rs\<close>

definition cached_modseq_arg :: "string list \<Rightarrow> u64 option" where
  "cached_modseq_arg args = (case drop 5 args of s # _ \<Rightarrow> parse_u64 s | [] \<Rightarrow> None)"

text \<open>The mod-sequence the program tests with, and what it prints about it.\<close>

definition baseline_modseq :: "u64 option \<Rightarrow> nz_u64 \<Rightarrow> 'v line \<times> nz_u64 option" where
  "baseline_modseq cached_modseq modseq =
     (case cached_modseq of
        Some cached \<Rightarrow> (Line_Cached cached, nz_new cached)
      | None \<Rightarrow>
          (let calculated = saturating_sub (nz_get modseq) 200
           in (Line_Calculated 200 calculated, nz_new calculated)))"

definition condstore_vanished ::
    "('v, 'c, 'g, 's) env \<Rightarrow> 'v from_str \<Rightarrow> nz_u64 \<Rightarrow> ('v, 'c, 'g, 's) program" where
  "condstore_vanished E S test_modseq =
     with_state (\<lambda>state.
     if list_ex (\<lambda>c. case c of Cap_QResync \<Rightarrow> True | _ \<Rightarrow> False) (capabilities_iter state) then
       println Line_Testing_Vanished (
       unwrap_ok (str_sequence_set S ''1:*'') (\<lambda>sequence_set.
       let vanished_task = fetch_task_with_vanished (fetch_task_with_changed_since test_modseq
             (fetch_task_new sequence_set (Macro Macro_Fast)))
       in (\<lambda>self.
         case client_resolve E (T_Fetch vanished_task) self of
           Ret (Inr output, self) \<Rightarrow>
             (case as_item_map output of
                Some (Inr messages) \<Rightarrow>
                  println (Line_Vanished (length messages)) (println Line_Vanished_Note prog_end) self
              | Some (Inl e) \<Rightarrow> println (Line_Vanished_Failed e) prog_end self
              | None \<Rightarrow> Panic)
         | Ret (Inl e, self) \<Rightarrow> println (Line_Vanished_Error e) prog_end self
         | Panic \<Rightarrow> Panic
         | Diverge \<Rightarrow> Diverge)))
     else println Line_No_QResync prog_end)"

definition condstore_tests ::
    "('v, 'c, 'g, 's) env \<Rightarrow> 'v from_str \<Rightarrow> u64 option \<Rightarrow> nz_u64 \<Rightarrow> ('v, 'c, 'g, 's) program" where
  "condstore_tests E S cached_modseq modseq =
     println (Line_Active modseq) (
     case baseline_modseq cached_modseq modseq of (line, baseline) \<Rightarrow>
     println line (
     unwrap_some baseline (\<lambda>test_modseq.
     println (Line_Testing_Fetch test_modseq) (
     unwrap_some (nz_new (nz_get test_modseq)) (\<lambda>since.
     unwrap_ok (str_sequence_set S ''1:*'') (\<lambda>sequence_set.
     unwrapped (client_fetch_with_modifiers E sequence_set (Macro Macro_Fast) [Mod_ChangedSince since])
       (\<lambda>changed_messages.
     println (Line_Changed (length changed_messages)) (
     println (Line_Testing_Search test_modseq) (
     unwrapped (client_search E [Key_ModSequence None (nz_get test_modseq)]) (\<lambda>search_results.
     println (Line_Found (length search_results)) (
     condstore_vanished E S test_modseq)))))))))))"

definition condstore_selected ::
    "('v, 'c, 'g, 's) env \<Rightarrow> 'v from_str \<Rightarrow> u64 option \<Rightarrow> ('v, 'c, 'g, 's) program" where
  "condstore_selected E S cached_modseq =
     unwrapped (client_select E (str_mailbox S ''inbox'')) (\<lambda>select_data.
     println (Line_Selected select_data) (
     case sel_highest_modseq select_data of
       Some modseq \<Rightarrow> condstore_tests E S cached_modseq modseq
     | None \<Rightarrow> println Line_Inactive prog_end))"

definition condstore_session ::
    "('v, 'c, 'g, 's) env \<Rightarrow> 'v from_str \<Rightarrow> u64 option \<Rightarrow> string \<Rightarrow> string \<Rightarrow> ('v, 'c, 'g, 's) program" where
  "condstore_session E S cached_modseq username password =
     unwrapped (client_authenticate_plain E username password) (\<lambda>_.
     with_state (\<lambda>state.
     if ext_condstore_supported state then
       unwrapped (enable_condstore_if_supported E) (\<lambda>enabled.
       println (Line_Enabled enabled) (condstore_selected E S cached_modseq))
     else println Line_Unsupported (condstore_selected E S cached_modseq)))"

definition condstore_main ::
    "('v, 'c, 'g, ('p, 't) maybe_tls) env \<Rightarrow> ('v, 'c, 'p, 't, 'n, 'k, 'w) network \<Rightarrow> 'v from_str
       \<Rightarrow> string list \<Rightarrow> 'w \<Rightarrow> ('v line list \<times> 'w) run" where
  "condstore_main E W S args w =
     (case login_args args of
        None \<Rightarrow> Panic
      | Some (host, port, username, password) \<Rightarrow>
          run_connected (client_rustls E W host port False None)
            (condstore_session E S (cached_modseq_arg args) username password) w)"

end
