(* ===== verification/Example_Theorems.thy ===== *)
theory Example_Theorems
  imports Example_Programs Client_Api
begin

text \<open>What the example programs do with the client: when they panic, and what they ask the server for.\<close>

section \<open>Programs that return\<close>

lemma println_Ret:
  "println line next self = Ret (lines, self') \<longleftrightarrow>
     (\<exists>more. next self = Ret (more, self') \<and> lines = line # more)"
  by (auto simp: println_def split: run.splits)

lemma println_Panic [simp]: "println line next self = Panic \<longleftrightarrow> next self = Panic"
  by (auto simp: println_def split: run.splits)

lemma unwrapped_Ret:
  "unwrapped m next self = Ret (lines, self') \<longleftrightarrow>
     (\<exists>a s1. m self = Ret (Inr a, s1) \<and> next a s1 = Ret (lines, self'))"
  by (auto simp: unwrapped_def split: run.splits sum.splits)

lemma unwrap_Ret:
  "unwrap_some x next self = Ret (lines, self') \<longleftrightarrow> (\<exists>a. x = Some a \<and> next a self = Ret (lines, self'))"
  "unwrap_ok y next' self = Ret (lines, self') \<longleftrightarrow> (\<exists>a. y = Inr a \<and> next' a self = Ret (lines, self'))"
  by (auto simp: unwrap_some_def unwrap_ok_def split: option.splits sum.splits)

lemma prog_end_Ret [simp]: "prog_end self = Ret (lines, self') \<longleftrightarrow> lines = [] \<and> self' = self"
  by (auto simp: prog_end_def)

lemmas program_returns = println_Ret unwrapped_Ret unwrap_Ret prog_end_Ret

section \<open>Arguments\<close>

text \<open>Decimal numbers parse to what they were printed from, as far as they fit.\<close>

lemma decimal_parses:
  "decimal n \<noteq> [] \<and> list_all is_decimal (decimal n) \<and>
     foldl (\<lambda>n c. 10 * n + digit_of c) 0 (decimal n) = n"
proof (induction n rule: decimal.induct)
  case (1 n)
  have digit: "is_decimal (char_of (48 + k)) \<and> digit_of (char_of (48 + k)) = k" if "k < 10" for k :: nat
    using that by (simp add: is_decimal_def digit_of_def)
  show ?case
  proof (cases "n < 10")
    case True
    with digit [of n] show ?thesis by (subst (1 2 3) decimal.simps) simp
  next
    case False
    with 1 digit [of "n mod 10"] show ?thesis by (subst (1 2 3) decimal.simps) simp
  qed
qed

lemma parse_uint_decimal: "parse_uint w (decimal n) = (if n < 2 ^ w then Some n else None)"
proof -
  from decimal_parses [of n] obtain c ds where d: "decimal n = c # ds" "is_decimal c"
    by (cases "decimal n") auto
  then have "c \<noteq> CHR ''+''" by (auto simp: is_decimal_def)
  with d have "(case decimal n of c # d # ds \<Rightarrow> if c = CHR ''+'' then d # ds else decimal n | _ \<Rightarrow> decimal n)
      = decimal n"
    by (simp split: list.split)
  with decimal_parses [of n] show ?thesis unfolding parse_uint_def by simp
qed

section \<open>Subjects\<close>

text \<open>The loop of \<open>fetch.rs\<close> panics as soon as one message has no envelope among its items.\<close>

lemma print_subjects_needs_envelopes:
  assumes "(seq, items) \<in> set data" and "list_all (\<lambda>item. \<not> is_envelope item) items"
  shows "print_subjects data self = Panic"
  using assms(1)
proof (induction data)
  case (Cons entry data)
  from assms(2) have none: "List.find is_envelope items = None"
    by (simp add: find_None_iff list_all_iff)
  show ?case
  proof (cases "entry = (seq, items)")
    case True
    with none show ?thesis by (simp add: unwrap_some_def)
  next
    case False
    with Cons have "print_subjects data self = Panic" by simp
    then show ?thesis
      by (cases entry)
        (simp add: unwrap_some_def split: option.split item.split if_split)
  qed
qed simp

section \<open>condstore.rs\<close>

text \<open>The mod-sequence the program tests with; zero stands for the panic of \<open>NonZeroU64::new\<close>.\<close>

definition tested_modseq :: "u64 option \<Rightarrow> nz_u64 \<Rightarrow> u64" where
  "tested_modseq cached modseq =
     (case cached of
        Some c \<Rightarrow> c
      | None \<Rightarrow> if 200 < nz_get modseq then nz_get modseq - 200 else 0)"

lemma nz_new_get: "nz_new w = Some n \<longleftrightarrow> w \<noteq> 0 \<and> n = Abs_nonzero w"
  by (auto simp: nz_new_def)

lemma baseline_modseq_tested:
  "snd (baseline_modseq cached modseq) = nz_new (tested_modseq cached modseq)"
proof -
  have "nz_get modseq - 200 = 0" if "200 \<le> nz_get modseq" "\<not> 200 < nz_get modseq"
    using that by simp
  then show ?thesis
    by (auto simp: baseline_modseq_def tested_modseq_def saturating_sub_def Let_def split: option.split)
qed

lemma condstore_vanished_issues:
  assumes "condstore_vanished E S modseq self = Ret (lines, self')" and "logs E"
    and "str_sequence_set S ''1:*'' = Inr all"
  shows "issued_by snd self' = issued_by snd self @
    (if Cap_QResync \<in> set (cs_capabilities (cl_state self))
     then [Cmd_Fetch [Mod_ChangedSince modseq, Mod_Vanished] all (Macro Macro_Fast) True] else [])"
proof -
  let ?task = "fetch_task_with_vanished (fetch_task_with_changed_since modseq
    (fetch_task_new all (Macro Macro_Fast)))"
  have qresync: "list_ex (\<lambda>c. case c of Cap_QResync \<Rightarrow> True | _ \<Rightarrow> False) (capabilities_iter (cl_state self))
      \<longleftrightarrow> Cap_QResync \<in> set (cs_capabilities (cl_state self))"
    by (subst list_ex_eq [where a = Cap_QResync]) (auto split: capability.split)
  show ?thesis
  proof (cases "Cap_QResync \<in> set (cs_capabilities (cl_state self))")
    case True
    with assms(1,3) qresync obtain r where "client_resolve E (T_Fetch ?task) self = Ret (r, self')"
      by (auto simp: condstore_vanished_def with_state_def program_returns Let_def
          split: run.splits sum.splits option.splits prod.splits)
    moreover from assms(2) obtain N where "env_next E = logged N" by (auto simp: logs_def)
    ultimately have "issued_by snd self' = issued_by snd self @ [fetch_task_command_body ?task]"
      using logged.client_resolve_issues [where E = E and task = "T_Fetch ?task"] by simp
    with True show ?thesis
      by (simp add: fetch_task_command_body_def fetch_task_with_vanished_def
          fetch_task_with_changed_since_def fetch_task_new_def)
  next
    case False
    with assms(1) qresync show ?thesis by (simp add: condstore_vanished_def with_state_def program_returns)
  qed
qed

lemma op_unit_Ok: "m self = Ret (Inr a, self') \<Longrightarrow> op_unit m self = Ret (Inr (), self')"
  by (simp add: op_unit_def op_bind_def)

lemma meets_command:
  assumes "meets E self (op_unit m) (Inr (Some body))" and "m self = Ret (Inr a, self')"
  shows "issued_by snd self' = issued_by snd self @ [body] \<and> same_but_io self self'"
  using assms(1) op_unit_Ok [of m self, OF assms(2)] by (simp add: meets_def)

lemma baseline_line:
  obtains line :: "'v line" where "baseline_modseq cached modseq = (line, nz_new (tested_modseq cached modseq))"
  using baseline_modseq_tested [of cached modseq] by (metis prod.collapse)

lemma condstore_tests_panic:
  fixes E :: "('v, 'c, 'g, 's) env"
  assumes "tested_modseq cached modseq = 0"
  shows "condstore_tests E S cached modseq self = Panic"
proof -
  obtain line :: "'v line" where "baseline_modseq cached modseq = (line, None)"
    using baseline_line [of cached modseq] assms by (metis nz_new_def)
  then show ?thesis by (simp add: condstore_tests_def unwrap_some_def)
qed

text \<open>What the tests ask for when they come to their end.\<close>

lemma condstore_tests_issue:
  fixes E :: "('v, 'c \<times> 'v command list, 'g, 's) env"
  assumes "condstore_tests E S cached modseq self = Ret (lines, self')" and "logs E"
    and "str_sequence_set S ''1:*'' = Inr all" and "tested = tested_modseq cached modseq"
  shows "issued_by snd self' = issued_by snd self @
    [Cmd_Fetch [Mod_ChangedSince (Abs_nonzero tested)] all (Item_Names (macro_expand (env_lib E) Macro_Fast)) False,
     Cmd_Search None [Key_ModSequence None tested] False] @
    (if Cap_QResync \<in> set (cs_capabilities (cl_state self))
     then [Cmd_Fetch [Mod_ChangedSince (Abs_nonzero tested), Mod_Vanished] all (Macro Macro_Fast) True] else [])"
proof -
  obtain line :: "'v line" where "baseline_modseq cached modseq = (line, nz_new tested)"
    using baseline_line assms(4) by metis
  with assms(1,3) obtain n changed s2 found s3 ls where n: "nz_new tested = Some n"
    and fetch: "client_fetch_with_modifiers E all (Macro Macro_Fast) [Mod_ChangedSince n] self = Ret (Inr changed, s2)"
    and search: "client_search E [Key_ModSequence None (nz_get n)] s2 = Ret (Inr found, s3)"
    and rest: "condstore_vanished E S n s3 = Ret (ls, self')"
    by (auto simp: condstore_tests_def program_returns nz_new_get)
  from n have tested: "n = Abs_nonzero tested" "nz_get n = tested" by (simp_all add: nz_new_get)
  from meets_command [OF fetch_meets [OF assms(2), of self all "Macro Macro_Fast" False "Some [Mod_ChangedSince n]"]]
    fetch [unfolded client_fetch_with_modifiers_def]
  have s2: "issued_by snd s2 = issued_by snd self @
      [Cmd_Fetch [Mod_ChangedSince n] all (Item_Names (macro_expand (env_lib E) Macro_Fast)) False]"
    "same_but_io self s2"
    by (simp_all add: macro_names_def)
  from meets_command [OF search_meets [OF assms(2), of s2 "[Key_ModSequence None tested]" False]]
    search [unfolded client_search_def tested(2)]
  have s3: "issued_by snd s3 = issued_by snd s2 @ [Cmd_Search None [Key_ModSequence None tested] False]"
    "same_but_io s2 s3"
    by (simp_all add: or_all_def)
  from s2(2) s3(2) have "cs_capabilities (cl_state s3) = cs_capabilities (cl_state self)"
    by (simp add: same_but_io_def)
  with condstore_vanished_issues [OF rest assms(2,3)] s2(1) s3(1) tested(1) show ?thesis by simp
qed

text \<open>C40: The CONDSTORE example. Once the inbox is selected on a server that announces its highest
  mod-sequence, the program panics when the cached mod-sequence is zero, or when none is given and
  the highest is at most 200, since it takes 200 from it and unwraps the result as non-zero. When it
  comes through, it has asked for exactly the messages changed since that mod-sequence, searched by
  it, and fetched with VANISHED exactly when the server has QRESYNC.\<close>

theorem condstore_program_commands:
  assumes "logs E" and "client_select E (str_mailbox S ''inbox'') self = Ret (Inr data, s1)"
    and "sel_highest_modseq data = Some modseq" and "str_sequence_set S ''1:*'' = Inr all"
    and "tested = tested_modseq cached modseq"
  shows "(tested = 0 \<longrightarrow> condstore_selected E S cached self = Panic) \<and>
    (condstore_selected E S cached self = Ret (lines, self') \<longrightarrow>
      issued_by snd self' = issued_by snd s1 @
        [Cmd_Fetch [Mod_ChangedSince (Abs_nonzero tested)] all
           (Item_Names (macro_expand (env_lib E) Macro_Fast)) False,
         Cmd_Search None [Key_ModSequence None tested] False] @
        (if Cap_QResync \<in> set (cs_capabilities (cl_state s1))
         then [Cmd_Fetch [Mod_ChangedSince (Abs_nonzero tested), Mod_Vanished] all (Macro Macro_Fast) True]
         else []))"
  using assms condstore_tests_panic [of cached modseq E S s1] condstore_tests_issue [of E S cached modseq s1]
  by (auto simp: condstore_selected_def unwrapped_def println_Ret)

text \<open>A fresh mailbox: its highest mod-sequence is 150.\<close>

definition demo_modseq :: "(nat next_error interrupt + nat event) list" where
  "demo_modseq =
     [Inr (CommandSent 0),
      Inr (StatusReceived (Status_Untagged (ok_body (Some (Code_HighestModSeq (Abs_nonzero 150))) 0))),
      Inr (StatusReceived (Status_Tagged ''0'' (ok_body None 0)))]"

definition demo_from_str :: "nat from_str" where
  "demo_from_str = \<lparr>str_sequence_set = (\<lambda>_. Inr 1), str_mailbox = (\<lambda>_. Inr 2)\<rparr>"

lemma condstore_program_commands_witness:
  "condstore_selected demo_env demo_from_str None (demo_client [Cap_CondStore] demo_modseq) = Panic"
proof -
  have "\<exists>data s1. client_select demo_env (str_mailbox demo_from_str ''inbox'')
      (demo_client [Cap_CondStore] demo_modseq) = Ret (Inr data, s1) \<and>
      sel_highest_modseq data = Some (Abs_nonzero 150)"
    by (simp add: client_select_def demo_from_str_def demo_modseq_def demo_client_simps demo_task_simps)
  then obtain data s1 where sel: "client_select demo_env (str_mailbox demo_from_str ''inbox'')
      (demo_client [Cap_CondStore] demo_modseq) = Ret (Inr data, s1)"
    "sel_highest_modseq data = Some (Abs_nonzero 150)"
    by blast
  have "str_sequence_set demo_from_str ''1:*'' = Inr 1" "tested_modseq None (Abs_nonzero 150) = 0"
    by (simp_all add: demo_from_str_def tested_modseq_def)
  with condstore_program_commands [OF demo_logs sel] show ?thesis by metis
qed

end
