(* ===== verification/Fetch_Run.thy ===== *)
theory Fetch_Run
  imports Client_Theorems Task_Props
begin

text \<open>
  FETCH by UID from the responses of the server to the map the client's method returns: the run
  of the task, what the task collects, and the change of keys.
\<close>

section \<open>From sequence numbers to UIDs\<close>

lemma uid_map_of_extend:
  "uid_map_of L m = hm_extend (seq_order L)
     (List.map_filter (\<lambda>(seq, items). map_option (\<lambda>uid. (uid, items)) (uid_item items)) m) []"
proof -
  have "fold (\<lambda>(seq, items) uid_map. case uid_item items of
        Some uid \<Rightarrow> hm_insert (seq_order L) uid items uid_map | None \<Rightarrow> uid_map) m acc =
      hm_extend (seq_order L)
        (List.map_filter (\<lambda>(seq, items). map_option (\<lambda>uid. (uid, items)) (uid_item items)) m) acc" for acc
    by (induction m arbitrary: acc) (auto simp: hm_extend_def List.map_filter_simps split: option.split)
  then show ?thesis by (simp add: uid_map_of_def)
qed

lemma uid_map_of_distinct: "distinct (map fst (uid_map_of L m))"
  using hm_extend_valid [of "[]" "seq_order L"] by (simp add: uid_map_of_extend hm_valid_def)

lemma uid_map_of_get:
  "map_of (uid_map_of L m) = map_of (rev
     (List.map_filter (\<lambda>(seq, items). map_option (\<lambda>uid. (uid, items)) (uid_item items)) m))"
  using hm_extend_get [of "[]"] by (simp add: uid_map_of_extend hm_valid_def)

lemma uid_pairs:
  "(uid, items) \<in> set (List.map_filter (\<lambda>(seq, items). map_option (\<lambda>uid. (uid, items)) (uid_item items)) m)
     \<longleftrightarrow> (\<exists>seq. (seq, items) \<in> set m) \<and> uid_item items = Some uid"
  by (force simp: List.map_filter_def image_iff)

lemma uid_map_of_SomeD:
  "map_of (uid_map_of L m) uid = Some items \<Longrightarrow> (\<exists>seq. (seq, items) \<in> set m) \<and> uid_item items = Some uid"
  unfolding uid_map_of_get by (drule map_of_SomeD) (simp add: uid_pairs)

lemma uid_map_of_unique:
  assumes "(seq, items) \<in> set m" and "uid_item items = Some uid"
    and "\<And>seq' items'. (seq', items') \<in> set m \<Longrightarrow> uid_item items' = Some uid \<Longrightarrow> items' = items"
  shows "map_of (uid_map_of L m) uid = Some items"
proof -
  from assms(1,2) have "uid \<in> dom (map_of (uid_map_of L m))"
    using uid_pairs [of uid items m] by (auto simp: uid_map_of_get dom_map_of_conv_image_fst intro: rev_image_eqI)
  then obtain items' where "map_of (uid_map_of L m) uid = Some items'" by blast
  with uid_map_of_SomeD assms(3) show ?thesis by metis
qed

lemma uid_item_SomeD: "uid_item items = Some uid \<Longrightarrow> Item_Uid uid \<in> set items"
  by (induction items) (auto simp: uid_item_def split: item.splits)

lemma uid_item_the_only:
  "{uid. Item_Uid uid \<in> set items} = {uid} \<Longrightarrow> uid_item items = Some uid"
proof -
  assume only: "{uid. Item_Uid uid \<in> set items} = {uid}"
  then have "uid_item items \<noteq> None"
    by (induction items) (auto simp: uid_item_def split: item.splits)
  with only uid_item_SomeD show ?thesis by fastforce
qed

section \<open>The run\<close>

definition data_of :: "'v event list \<Rightarrow> 'v data list" where
  "data_of = List.map_filter (\<lambda>e. case e of DataReceived d \<Rightarrow> Some d | _ \<Rightarrow> None)"

lemma fetch_task_after:
  "task_after L es (T_Fetch t) = T_Fetch (feed (fetch_task_process_data L) (data_of es) t)"
proof (induction es arbitrary: t)
  case (Cons e es)
  then show ?case
    by (cases "(L, e, T_Fetch t)" rule: task_after_event.cases)
      (simp_all add: task_after_def data_of_def List.map_filter_simps task_simps reboxed_def split: prod.splits)
qed (simp add: task_after_def data_of_def List.map_filter_simps)

text \<open>All the items that the FETCH responses about message \<open>k\<close> carry.\<close>

definition items_about :: "nz_u32 \<Rightarrow> 'v event list \<Rightarrow> 'v item set" where
  "items_about k es = set (concat (List.map_filter (fetch_items_of k) (data_of es)))"

text \<open>The task \<open>client_do_fetch\<close> runs for a UID FETCH.\<close>

abbreviation uid_fetch_task ::
    "'v lib \<Rightarrow> 'v \<Rightarrow> 'v macro_or_names \<Rightarrow> 'v fetch_modifier list option \<Rightarrow> 'v task" where
  "uid_fetch_task L sequence_set items modifiers \<equiv>
     T_Fetch (let task = fetch_task_with_uid True
                (fetch_task_new sequence_set (Item_Names (macro_names L items @ [Name_Uid])))
              in case modifiers of Some m \<Rightarrow> fetch_task_set_modifiers m task | None \<Rightarrow> task)"

text \<open>C7: UID FETCH on a client that has no other command in flight, from the responses to the result:
  between the sending of the command and its completion come only data, untagged statuses,
  continuation requests, greetings and I/O, in any number and order, and the hash tables iterate in
  whatever order. The client asks for the UIDs, and once the command completes with OK it returns a
  map by UID. An entry holds, without duplicates, all
  that the responses about one message carried, its UID among it; a message whose responses name one UID, that
  no other message claims, is in the map with everything that was sent about it, even when the
  UID came in another response than the rest; nothing is in the map for a
  UID that no response named.\<close>

theorem uid_fetch_returns_items:
  fixes E :: "('v, 'c, 'g, 's) env"
  assumes "answered E (uid_fetch_task (env_lib E) sequence_set items modifiers) self es body self'"
    and "sb_kind body = Kind_Ok"
  shows "\<exists>m. client_do_fetch E sequence_set items True modifiers self = Ret (Inr m, self') \<and>
    distinct (map fst m) \<and>
    (\<forall>uid its. map_of m uid = Some its \<longrightarrow>
       distinct its \<and> Item_Uid uid \<in> set its \<and> (\<exists>k. set its = items_about k es)) \<and>
    (\<forall>k uid. {u. Item_Uid u \<in> items_about k es} = {uid} \<and>
         (\<forall>k'. Item_Uid uid \<in> items_about k' es \<longrightarrow> k' = k) \<longrightarrow>
       map_option set (map_of m uid) = Some (items_about k es))"
proof -
  let ?L = "env_lib E"
  obtain t :: "'v fetch_task" where t: "uid_fetch_task ?L sequence_set items modifiers = T_Fetch t"
    and start: "fetch_task_inv t" "fetch_output t = []"
    by (cases modifiers) (simp_all add: Let_def fetch_task_new_def fetch_task_with_uid_def
        fetch_task_set_uid_def fetch_task_set_modifiers_def fetch_task_inv_def hm.valid_empty)
  from fetch_task_collects [OF assms(2) start, of ?L "data_of es", folded items_about_def] obtain sm
    where out: "fetch_task_process_tagged ?L (feed (fetch_task_process_data ?L) (data_of es) t) body = Inr sm"
      and dist: "distinct (map fst sm)" and each: "\<And>k v. (k, v) \<in> set sm \<Longrightarrow> distinct v"
      and got: "\<And>k. map_option set (map_of sm k) =
         (if List.map_filter (fetch_items_of k) (data_of es) = [] then None else Some (items_about k es))"
    by blast
  have entry: "set v = items_about k es" if "(k, v) \<in> set sm" for k v
    using that dist got [of k] by (auto split: if_splits)
  have present: "\<exists>v. (k, v) \<in> set sm" if "Item_Uid u \<in> items_about k es" for k u
  proof -
    from that have "List.map_filter (fetch_items_of k) (data_of es) \<noteq> []" by (auto simp: items_about_def)
    with got [of k] show ?thesis by (auto dest: map_of_SomeD)
  qed
  have "map_option set (map_of (uid_map_of ?L sm) uid) = Some (items_about k es)"
    if only: "{u. Item_Uid u \<in> items_about k es} = {uid}"
      and claim: "\<forall>k'. Item_Uid uid \<in> items_about k' es \<longrightarrow> k' = k" for k uid
  proof -
    from only present obtain v where v: "(k, v) \<in> set sm" by blast
    have "map_of (uid_map_of ?L sm) uid = Some v"
    proof (rule uid_map_of_unique [OF v])
      show "uid_item v = Some uid" using only entry [OF v] by (intro uid_item_the_only) simp
      fix k' v' assume other: "(k', v') \<in> set sm" "uid_item v' = Some uid"
      with entry uid_item_SomeD have "Item_Uid uid \<in> items_about k' es" by metis
      with claim other v dist show "v' = v" by (metis map_of_is_SomeI option.inject)
    qed
    with entry [OF v] show ?thesis by simp
  qed
  moreover have "distinct its \<and> Item_Uid uid \<in> set its \<and> (\<exists>k. set its = items_about k es)"
    if "map_of (uid_map_of ?L sm) uid = Some its" for uid its
    using uid_map_of_SomeD [OF that] uid_item_SomeD each entry by metis
  moreover have "client_do_fetch E sequence_set items True modifiers self = Ret (Inr (uid_map_of ?L sm), self')"
  proof -
    have "client_resolve E (T_Fetch t) self = Ret (Inr (Out_ItemMap (Inr sm)), self')"
      using client_resolve_answered [OF assms(1)] t out by (simp add: fetch_task_after task_simps)
    then have "client_task E as_item_map (T_Fetch t) self = Ret (Inr sm, self')"
      by (simp add: client_task_def op_bind_def as_item_map_def)
    with t show ?thesis by (simp add: client_do_fetch_def Let_def op_bind_def op_return_def)
  qed
  ultimately show ?thesis using uid_map_of_distinct by blast
qed

text \<open>A server that sends the UID of the first message apart from the rest, with a read in between.\<close>

definition demo_fetch_events :: "(nat next_error interrupt + nat event) list" where
  "demo_fetch_events =
     [Inr (CommandSent 0), Inr (DataReceived (Data_Fetch msg1 [Item_Other 5])),
      Inl (Int_Io Io_NeedMoreInput), Inr (DataReceived (Data_Fetch msg2 [Item_Other 6])),
      Inr (DataReceived (Data_Fetch msg1 [Item_Uid (Abs_nonzero 9)])),
      Inr (StatusReceived (Status_Tagged ''0'' (ok_body None 0)))]"

definition demo_fetch_client :: "(nat, nat script \<times> nat command list, nat, bytes list) client" where
  "demo_fetch_client = (demo_client [] demo_fetch_events)\<lparr>cl_stream := stream_new [''ab'']\<rparr>"

definition demo_fetch_answer :: "nat event list" where
  "demo_fetch_answer =
     [DataReceived (Data_Fetch msg1 [Item_Other 5]), DataReceived (Data_Fetch msg2 [Item_Other 6]),
      DataReceived (Data_Fetch msg1 [Item_Uid (Abs_nonzero 9)])]"

lemma demo_fetch_about:
  "items_about k demo_fetch_answer = (if k = msg1 then {Item_Other 5, Item_Uid (Abs_nonzero 9)}
     else if k = msg2 then {Item_Other 6} else {})"
  by (auto simp: demo_fetch_answer_def items_about_def data_of_def fetch_items_of_def List.map_filter_simps)

lemma demo_fetch_answered:
  "\<exists>self'. answered demo_env (uid_fetch_task (env_lib demo_env) 3 (Item_Names []) None)
     demo_fetch_client demo_fetch_answer (ok_body None 0) self'"
proof -
  let ?task = "uid_fetch_task (env_lib demo_env) 3 (Item_Names []) None :: nat task"
  let ?cmd = "\<lparr>cmd_tag = ''0'', cmd_body = Cmd_Fetch [] 3 (Item_Names [Name_Uid]) True\<rparr>"
  let ?c = "((script demo_fetch_events)\<lparr>sc_next_handle := 1, sc_commands := [?cmd]\<rparr>, [?cmd])"
  let ?rs = "\<lparr>resolver_scheduler = \<lparr>client_next = ?c, waiting_tasks = [(0, ''0'', ?task)],
    active_tasks = [], tag_generator = 1 :: nat\<rparr>\<rparr>"
  have "\<exists>y. delivers (logged script_client) script_socket (stream_new [''ab''], ?c)
      (CommandSent 0 # demo_fetch_answer @ [StatusReceived (Status_Tagged ''0'' (ok_body None 0))]) y"
    unfolding demo_fetch_events_def demo_fetch_answer_def append_Cons append_Nil
    by (rule exI, rule delivers.reported, simp add: logged_def script_defs,
        rule delivers.reported, simp add: logged_def script_defs,
        rule delivers.transferred, simp add: logged_def script_defs,
        simp add: stream_io_def stream_input_def stream_new_def script_socket_def,
        rule delivers.reported, simp add: logged_def script_defs,
        rule delivers.reported, simp add: logged_def script_defs,
        rule delivers.reported, simp add: logged_def script_defs, rule delivers.finished)
  then obtain st c where "delivers (env_next demo_env) (env_socket demo_env) (cl_stream demo_fetch_client, rs_client ?rs)
      (CommandSent 0 # demo_fetch_answer @ [StatusReceived (Status_Tagged ''0'' (ok_body None 0))]) (st, c)"
    by (auto simp: demo_env_def rs_client_def demo_fetch_client_def)
  moreover have "active_tasks (cl_scheduler demo_fetch_client) = []"
    "waiting_tasks (cl_scheduler demo_fetch_client) = []"
    "fst (nc_tag_generate (env_next demo_env) (tag_generator (cl_scheduler demo_fetch_client))) = ''0''"
    by (simp_all add: demo_fetch_client_def cl_scheduler_def demo_client_simps)
  moreover have "\<exists>th. th_handle th = 0 \<and> resolver_resolve (env_next demo_env) (env_lib demo_env) ?task
      (cs_resolver (cl_state demo_fetch_client)) = Ret (th, ?rs)"
    by (simp add: demo_fetch_client_def demo_client_simps demo_task_simps macro_names_def Let_def)
  moreover have "\<forall>e \<in> set demo_fetch_answer. between e" by (simp add: demo_fetch_answer_def)
  ultimately show ?thesis
    unfolding answered_def by (metis empty_iff image_empty list.set(1))
qed

lemma uid_fetch_returns_items_witness:
  "\<exists>m self'. client_uid_fetch demo_env 3 (Item_Names []) demo_fetch_client = Ret (Inr m, self') \<and>
     map_option set (map_of m (Abs_nonzero 9)) = Some {Item_Other 5, Item_Uid (Abs_nonzero 9)} \<and>
     dom (map_of m) = {Abs_nonzero 9}"
proof -
  let ?es = demo_fetch_answer
  from demo_fetch_answered obtain self' where "answered demo_env
    (uid_fetch_task (env_lib demo_env) 3 (Item_Names []) None) demo_fetch_client ?es (ok_body None 0) self'"
    by blast
  then have "\<exists>m. client_do_fetch demo_env 3 (Item_Names []) True None demo_fetch_client = Ret (Inr m, self') \<and>
      distinct (map fst m) \<and>
      (\<forall>uid its. map_of m uid = Some its \<longrightarrow>
         distinct its \<and> Item_Uid uid \<in> set its \<and> (\<exists>k. set its = items_about k ?es)) \<and>
      (\<forall>k uid. {u. Item_Uid u \<in> items_about k ?es} = {uid} \<and>
           (\<forall>k'. Item_Uid uid \<in> items_about k' ?es \<longrightarrow> k' = k) \<longrightarrow>
         map_option set (map_of m uid) = Some (items_about k ?es))"
    by (rule uid_fetch_returns_items) simp
  then obtain m
    where m: "client_do_fetch demo_env 3 (Item_Names []) True None demo_fetch_client = Ret (Inr m, self')"
      and entries: "\<And>uid its. map_of m uid = Some its \<Longrightarrow>
        Item_Uid uid \<in> set its \<and> (\<exists>k. set its = items_about k ?es)"
      and unique: "\<And>k uid. {u. Item_Uid u \<in> items_about k ?es} = {uid} \<and>
        (\<forall>k'. Item_Uid uid \<in> items_about k' ?es \<longrightarrow> k' = k) \<Longrightarrow>
        map_option set (map_of m uid) = Some (items_about k ?es)"
    by (elim exE conjE) blast
  have got: "map_option set (map_of m (Abs_nonzero 9)) = Some {Item_Other 5, Item_Uid (Abs_nonzero 9)}"
    using unique [of msg1 "Abs_nonzero 9"] by (auto simp: demo_fetch_about)
  have "uid = Abs_nonzero 9" if "map_of m uid = Some its" for uid its
    using entries [OF that] by (auto simp: demo_fetch_about split: if_splits)
  with got m show ?thesis by (auto simp: client_uid_fetch_def)
qed

end
