(* ===== verification/Client_Abandoned.thy ===== *)
theory Client_Abandoned
  imports Client_Theorems Scheduler_Pipeline
begin

text \<open>
  Abandoned calls. The future of a call can be dropped while it waits, which leaves its task among
  the waiting or the active ones and its command in flight. The next call then drives the
  scheduler through the rest of the old exchange as well. The reference says what each
  event does to the two task maps; the run of the new call follows it.
\<close>

section \<open>The reference\<close>

text \<open>The tasks that wait and those that are active.\<close>

type_synonym 'v task_maps = "'v task_map \<times> 'v task_map"

text \<open>What an event does to them while the task with the tag \<open>own\<close> is being resolved; \<open>None\<close> for events
  that end the run.\<close>

fun settle :: "'v lib \<Rightarrow> tag \<Rightarrow> 'v event \<Rightarrow> 'v task_maps \<Rightarrow> 'v task_maps option" where
  "settle L own (GreetingReceived g) (w, a) = Some (w, a)"
| "settle L own (CommandSent h) (w, a) =
     (if h \<in> entry_handle ` set w
      then Some (filter (\<lambda>x. entry_handle x \<noteq> h) w, a @ filter (\<lambda>x. entry_handle x = h) w) else None)"
| "settle L own (DataReceived d) (w, a) = Some (w, snd (share L a [DataReceived d]))"
| "settle L own (ContinuationRequestReceived c) (w, a) =
     Some (w, snd (share L a [ContinuationRequestReceived c]))"
| "settle L own (StatusReceived (Status_Untagged b)) (w, a) =
     Some (w, snd (share L a [StatusReceived (Status_Untagged b)]))"
| "settle L own (StatusReceived (Status_Bye bye)) (w, a) =
     (case share L a [StatusReceived (Status_Bye bye)] of
        ([], a') \<Rightarrow> Some (w, a')
      | _ \<Rightarrow> None)"
| "settle L own (StatusReceived (Status_Tagged tag body)) (w, a) =
     (if tag \<noteq> own \<and> tag \<in> entry_tag ` set a then Some (w, filter (\<lambda>x. entry_tag x \<noteq> tag) a) else None)"
| "settle L own _ _ = None"

fun settle_all :: "'v lib \<Rightarrow> tag \<Rightarrow> 'v event list \<Rightarrow> 'v task_maps \<Rightarrow> 'v task_maps option" where
  "settle_all L own [] m = Some m"
| "settle_all L own (e # es) m =
     (case settle L own e m of Some m' \<Rightarrow> settle_all L own es m' | None \<Rightarrow> None)"

text \<open>Handles and tags stay with their tasks.\<close>

abbreviation names :: "'v task_map \<Rightarrow> (handle \<times> tag) list" where
  "names \<equiv> map (\<lambda>x. (entry_handle x, entry_tag x))"

lemma share_names: "names (snd (share L tasks es)) = names tasks"
  by (induction L tasks es rule: share.induct) (auto simp: entry_defs split: prod.splits)

lemma share_names_set [simp]:
  "(\<lambda>x. (entry_handle x, entry_tag x)) ` set (snd (share L tasks es)) =
     (\<lambda>x. (entry_handle x, entry_tag x)) ` set tasks"
  using share_names [of L tasks es] by (metis set_map)

lemma settle_offered:
  "settle L own e (w, a) = Some (w', a') \<Longrightarrow> offered e \<Longrightarrow> w' = w \<and> a' = snd (share L a [e])"
  by (cases e rule: offered.cases) (auto split: prod.splits list.splits)

lemma settle_names:
  assumes "settle L own e (w, a) = Some (w', a')"
  shows "set (names w') \<union> set (names a') \<subseteq> set (names w) \<union> set (names a)"
proof (cases "offered e")
  case True
  from settle_offered [OF assms this] show ?thesis by simp
next
  case False
  with assms show ?thesis
    by (cases "(L, own, e, w, a)" rule: settle.cases) (auto split: if_splits)
qed

lemma settle_all_names:
  "settle_all L own es (w, a) = Some (w', a') \<Longrightarrow>
     set (names w') \<union> set (names a') \<subseteq> set (names w) \<union> set (names a)"
proof (induction es arbitrary: w a)
  case (Cons e es)
  then obtain w1 a1 where "settle L own e (w, a) = Some (w1, a1)"
    "settle_all L own es (w1, a1) = Some (w', a')"
    by (auto split: option.splits)
  with settle_names Cons.IH show ?case by blast
qed simp

text \<open>With distinct keys, the first entry with a key is the only one.\<close>

lemma filter_only:
  assumes "distinct (map f (us @ x # vs))"
  shows "filter (\<lambda>y. f y \<noteq> f x) (us @ x # vs) = us @ vs" and "filter (\<lambda>y. f y = f x) (us @ x # vs) = [x]"
proof -
  from assms have "\<forall>y \<in> set us. f y \<noteq> f x" and "\<forall>y \<in> set vs. f y \<noteq> f x"
    by (auto simp: image_iff)
  then show "filter (\<lambda>y. f y \<noteq> f x) (us @ x # vs) = us @ vs" and "filter (\<lambda>y. f y = f x) (us @ x # vs) = [x]"
    by (auto simp: filter_id_conv filter_empty_conv)
qed

section \<open>One event of a run\<close>

lemma resolving_skip_foreign:
  assumes "progress_turn N L (resolver_scheduler rs) = Break (Inr (Ev_TaskFinished tok)) s"
    and "tok_handle tok \<noteq> th_handle th"
  shows "resolving_next N L th rs = resolving_next N L th (rs\<lparr>resolver_scheduler := s\<rparr>)"
  using assms unfolding resolving_next_def
  by (auto simp: resolving_turn_def resolver_next_def progress_Break handle_resolve_def
      intro!: rust_loop_Continue)

text \<open>The turn at one event: it goes on, or comes back with something the run drops.\<close>

definition dropped :: "task_handle \<Rightarrow> 'v progress_result \<Rightarrow> bool" where
  "dropped th r \<longleftrightarrow>
     (\<exists>g. r = Inr (Ev_GreetingReceived g)) \<or>
     (\<exists>u. r = Inr (Ev_Unsolicited u) \<and> (\<forall>bye. u \<noteq> Resp_Status (Status_Bye bye))) \<or>
     (\<exists>tok. r = Inr (Ev_TaskFinished tok) \<and> tok_handle tok \<noteq> th_handle th)"

lemma resolving_dropped:
  assumes "progress_turn N L (resolver_scheduler rs) = Continue s \<or>
      (\<exists>r. progress_turn N L (resolver_scheduler rs) = Break r s \<and> dropped th r)"
  shows "resolving_next N L th rs = resolving_next N L th (rs\<lparr>resolver_scheduler := s\<rparr>)"
  using assms resolving_skip_Continue [of N L rs s th] resolving_skip_Break [of N L rs _ s th]
    resolving_skip_foreign [of N L rs _ s th]
  by (auto simp: dropped_def)

lemma shared_response:
  assumes "offered e" and "\<forall>bye. e \<noteq> StatusReceived (Status_Bye bye) \<or> fst (share L (active_tasks s) [e]) = []"
  shows "handle_event N L e s = Continue (s\<lparr>active_tasks := snd (share L (active_tasks s) [e])\<rparr>) \<or>
    (\<exists>r. handle_event N L e s = Break r (s\<lparr>active_tasks := snd (share L (active_tasks s) [e])\<rparr>) \<and> dropped th r)"
proof -
  obtain r a where s: "share L (active_tasks s) [e] = (r, a)" by (cases "share L (active_tasks s) [e]")
  with handle_event_shares [OF assms(1), of N L s] share_one_left [of L "active_tasks s" e] assms
  show ?thesis
    by (cases e rule: offered.cases) (auto simp: unsolicited_def dropped_def)
qed


lemma started_task:
  assumes "sched_wf s" and "h \<in> entry_handle ` set (waiting_tasks s)"
  shows "start_task h s = Continue (s\<lparr>waiting_tasks := filter (\<lambda>x. entry_handle x \<noteq> h) (waiting_tasks s),
    active_tasks := active_tasks s @ filter (\<lambda>x. entry_handle x = h) (waiting_tasks s)\<rparr>)"
proof -
  from assms(2) obtain x us vs where w: "waiting_tasks s = us @ x # vs" and x: "entry_handle x = h"
    by (auto dest: split_list)
  obtain tag t where p: "x = (h, tag, t)" using x by (cases x) (auto simp: entry_defs)
  from assms(1) w have d: "distinct (map entry_handle (us @ x # vs))"
    by (simp add: sched_wf_def sched_entries_def Int_Un_distrib)
  then have "h \<notin> entry_handle ` set us" using x by auto
  from command_sent_starts [OF w [unfolded p] this] filter_only [OF d] w x p show ?thesis by simp
qed

lemma finished_foreign:
  assumes "sched_wf s" and "tag \<in> entry_tag ` set (active_tasks s)" and "tag \<noteq> own"
    and "(h, own) \<in> set (names (waiting_tasks s)) \<union> set (names (active_tasks s))"
  shows "\<exists>tok. handle_event N L (StatusReceived (Status_Tagged tag body)) s =
      Break (Inr (Ev_TaskFinished tok)) (s\<lparr>active_tasks := filter (\<lambda>x. entry_tag x \<noteq> tag) (active_tasks s)\<rparr>) \<and>
    tok_handle tok \<noteq> h"
proof -
  from assms(2) obtain x us vs where a: "active_tasks s = us @ x # vs" and x: "entry_tag x = tag"
    by (auto dest: split_list)
  obtain g t where p: "x = (g, tag, t)" using x by (cases x) (auto simp: entry_defs)
  from assms(1) a have d: "distinct (map entry_tag (us @ x # vs))"
    by (simp add: sched_wf_def sched_entries_def)
  then have "tag \<notin> entry_tag ` set us" using x by auto
  moreover have "g \<noteq> h"
  proof
    assume "g = h"
    from assms(4) obtain y where y: "y \<in> set (sched_entries s)" "entry_handle y = h" "entry_tag y = own"
      by (auto simp: sched_entries_def)
    have "x \<in> set (sched_entries s)" "entry_handle x = h"
      using a p \<open>g = h\<close> by (simp_all add: sched_entries_def entry_defs)
    with y assms(1) have "x = y" by (auto simp: sched_wf_def distinct_map inj_on_def)
    with x y assms(3) show False by simp
  qed
  ultimately show ?thesis
    using tagged_status_finishes [OF a [unfolded p]] filter_only(1) [OF d] a x p by auto
qed

lemma settle_turn:
  assumes "settle L own e (waiting_tasks s, active_tasks s) = Some (w, a)" and "sched_wf s"
    and "(th_handle th, own) \<in> set (names (waiting_tasks s)) \<union> set (names (active_tasks s))"
  shows "handle_event N L e s = Continue (s\<lparr>waiting_tasks := w, active_tasks := a\<rparr>) \<or>
    (\<exists>r. handle_event N L e s = Break r (s\<lparr>waiting_tasks := w, active_tasks := a\<rparr>) \<and> dropped th r)"
proof -
  have stay: "s\<lparr>waiting_tasks := waiting_tasks s, active_tasks := a\<rparr> = s\<lparr>active_tasks := a\<rparr>" for a
    by simp
  consider (greeting) g where "e = GreetingReceived g" | (sent) h where "e = CommandSent h"
    | (tagged) tag body where "e = StatusReceived (Status_Tagged tag body)"
    | (bye) bye where "e = StatusReceived (Status_Bye bye)"
    | (offer) "offered e" "\<forall>bye. e \<noteq> StatusReceived (Status_Bye bye)"
    using assms(1) by (cases e rule: offered.cases) (auto elim: settle.elims)
  then show ?thesis
  proof cases
    case greeting
    with assms(1) show ?thesis by (auto simp: handle_event_def dropped_def)
  next
    case sent
    with assms(1) started_task [OF assms(2), of h] show ?thesis
      by (auto simp: handle_event_def split: if_splits)
  next
    case tagged
    with assms(1) finished_foreign [OF assms(2) _ _ assms(3), of tag N L body] show ?thesis
      by (auto simp: dropped_def split: if_splits)
  next
    case bye
    with assms(1) have "w = waiting_tasks s" "a = snd (share L (active_tasks s) [e])"
      "fst (share L (active_tasks s) [e]) = []" "offered e"
      by (auto split: prod.splits list.splits)
    with shared_response [of e L s N th] show ?thesis by (simp add: stay)
  next
    case offer
    with settle_offered assms(1) have "w = waiting_tasks s" "a = snd (share L (active_tasks s) [e])"
      by blast+
    with shared_response [of e L s N th] offer show ?thesis by (simp add: stay)
  qed
qed

section \<open>The run\<close>

abbreviation maps_of :: "('v, 'c, 'g) resolver \<Rightarrow> 'v task_maps" where
  "maps_of rs \<equiv> (waiting_tasks (resolver_scheduler rs), active_tasks (resolver_scheduler rs))"

definition rs_settled :: "'c \<Rightarrow> 'v task_maps \<Rightarrow> ('v, 'c, 'g) resolver \<Rightarrow> ('v, 'c, 'g) resolver" where
  "rs_settled c m rs = rs\<lparr>resolver_scheduler := (resolver_scheduler rs)
     \<lparr>client_next := c, waiting_tasks := fst m, active_tasks := snd m\<rparr>\<rparr>"

lemma rs_settled_simps [simp]:
  "rs_client (rs_settled c m rs) = c" "maps_of (rs_settled c m rs) = m"
  "rs_settled c m (rs_settled c' m' rs) = rs_settled c m rs"
  "rs_settled c m (rs_put_client c' rs) = rs_settled c m rs"
  "maps_of (rs_put_client c rs) = maps_of rs"
  by (simp_all add: rs_settled_def rs_client_def rs_put_client_def)

lemma resolving_settles:
  assumes "reached N L \<Gamma> (resolver_scheduler rs)" and "settle L own e (maps_of rs) = Some m"
    and "(th_handle th, own) \<in> set (names (fst m)) \<union> set (names (snd m))"
    and "nc_next N (rs_client rs) = (Inr e, c)"
  shows "resolving_next N L th rs = resolving_next N L th (rs_settled c m rs)"
    and "reached N L \<Gamma> (resolver_scheduler (rs_settled c m rs))"
proof -
  obtain w a where m: "m = (w, a)" by (cases m)
  let ?s = "(resolver_scheduler rs)\<lparr>client_next := c\<rparr>"
  have turn: "progress_turn N L (resolver_scheduler rs) = handle_event N L e ?s"
    using progress_turn_event [of N "resolver_scheduler rs" e c L] assms(4) by (simp add: rs_client_def)
  from reached_invariant [OF assms(1)] have "sched_wf ?s"
    by (simp add: sched_wf_def sched_entries_def)
  moreover have "(th_handle th, own) \<in> set (names (waiting_tasks ?s)) \<union> set (names (active_tasks ?s))"
    using settle_names [of L own e "waiting_tasks ?s" "active_tasks ?s" w a] assms(2,3) m by auto
  ultimately have "handle_event N L e ?s = Continue (?s\<lparr>waiting_tasks := w, active_tasks := a\<rparr>) \<or>
      (\<exists>r. handle_event N L e ?s = Break r (?s\<lparr>waiting_tasks := w, active_tasks := a\<rparr>) \<and> dropped th r)"
    using settle_turn [of L own e ?s w a th N] assms(2) m by simp
  then have "progress_turn N L (resolver_scheduler rs) = Continue (resolver_scheduler (rs_settled c m rs)) \<or>
      (\<exists>r. progress_turn N L (resolver_scheduler rs) = Break r (resolver_scheduler (rs_settled c m rs)) \<and>
        dropped th r)"
    unfolding turn by (simp add: rs_settled_def m)
  with resolving_dropped [OF this] reached.turned [OF assms(1)] reached.returned [OF assms(1)]
  show "resolving_next N L th rs = resolving_next N L th (rs_settled c m rs)"
    and "reached N L \<Gamma> (resolver_scheduler (rs_settled c m rs))"
    by (auto simp: rs_settled_def)
qed

text \<open>The end of the run: the completion of the task that is being resolved.\<close>

lemma resolving_completes:
  assumes "reached N L \<Gamma> (resolver_scheduler rs)" and "\<Gamma> (th_handle th) = Some (th_type th)"
    and "maps_of rs = (w, us @ (th_handle th, own, t) # vs)"
    and "nc_next N (rs_client rs) = (Inr (StatusReceived (Status_Tagged own body)), c)"
  shows "resolving_next N L th rs =
    Ret (Inr (task_process_tagged L t body), rs_settled c (w, us @ vs) rs)"
proof -
  let ?s = "(resolver_scheduler rs)\<lparr>client_next := c\<rparr>"
  from assms(3) have w: "waiting_tasks ?s = w" and a: "active_tasks ?s = us @ (th_handle th, own, t) # vs"
    by simp_all
  from reached_invariant [OF assms(1)] assms(3) have "own \<notin> entry_tag ` set us"
    and ty: "task_type t = th_type th"
    using assms(2) by (auto simp: sched_wf_def sched_typed_def sched_entries_def entry_defs)
  from tagged_status_finishes [OF a this(1)] assms(4)
  have "progress N L (resolver_scheduler rs) =
      Ret (Inr (Ev_TaskFinished \<lparr>tok_handle = th_handle th, tok_output = Some (task_process_tagged L t body)\<rparr>),
        ?s\<lparr>active_tasks := us @ vs\<rparr>)"
    using progress_turn_event [of N "resolver_scheduler rs"] by (simp add: rs_client_def progress_Break)
  then have "resolving_turn N L th rs = Break (Inr (task_process_tagged L t body)) (rs_settled c (w, us @ vs) rs)"
    using ty w by (simp add: resolving_turn_def resolver_next_def handle_resolve_def rs_settled_def)
  then show ?thesis by (simp add: resolving_next_def run_simps)
qed

lemma stream_settles:
  assumes "delivers N K x (es @ [StatusReceived (Status_Tagged own body)]) (st', c')"
    and "x = (st, rs_client rs)" and "reached N L \<Gamma> (resolver_scheduler rs)"
    and "\<Gamma> (th_handle th) = Some (th_type th)"
    and "settle_all L own es (maps_of rs) = Some (w, us @ (th_handle th, own, t) # vs)"
  shows "stream_next K (resolving_machine N L th) (st, rs) =
    Ret (Inr (task_process_tagged L t body), st', rs_settled c' (w, us @ vs) rs)"
  using assms(1-3,5)
proof (induction x "es @ [StatusReceived (Status_Tagged own body)]" "(st', c')"
    arbitrary: es st rs rule: delivers.induct)
  case (reported c e c1 st0 es0)
  show ?case
  proof (cases es)
    case Nil
    with reported.hyps reported.prems(1,3) have "st0 = st'" "c1 = c'" "st0 = st"
      and n: "nc_next N (rs_client rs) = (Inr (StatusReceived (Status_Tagged own body)), c1)"
      and m: "maps_of rs = (w, us @ (th_handle th, own, t) # vs)"
      by (auto elim: delivers.cases)
    with resolving_completes [OF reported.prems(2) assms(4) m n] show ?thesis
      by (simp add: stream_next_output)
  next
    case (Cons e' es')
    with reported.hyps reported.prems obtain m
      where n: "nc_next N (rs_client rs) = (Inr e, c1)" and "st0 = st"
        and es: "es0 = es' @ [StatusReceived (Status_Tagged own body)]"
        and m: "settle L own e (maps_of rs) = Some m"
        and rest: "settle_all L own es' m = Some (w, us @ (th_handle th, own, t) # vs)"
      by (auto split: option.splits)
    have "(th_handle th, own) \<in> set (names (fst m)) \<union> set (names (snd m))"
      using settle_all_names [of L own es' "fst m" "snd m"] rest by (auto simp: entry_defs)
    from resolving_settles [OF reported.prems(2) m this n] have
      "stream_next K (resolving_machine N L th) (st, rs) =
         stream_next K (resolving_machine N L th) (st, rs_settled c1 m rs)"
      and "reached N L \<Gamma> (resolver_scheduler (rs_settled c1 m rs))"
      by (auto intro: stream_next_same)
    with reported.hyps(3) [OF es, of st "rs_settled c1 m rs"] rest \<open>st0 = st\<close> show ?thesis by simp
  qed
next
  case (transferred c io c1 st0 got st1 e es0)
  then have c: "nc_next N (rs_client rs) = (Inl (Int_Io io), c1)" and "st0 = st" by auto
  let ?rs = "rs_put_client (nc_enqueue_input N got c1) rs"
  from stream_next_io [OF c] transferred.hyps(2) \<open>st0 = st\<close>
  have "stream_next K (resolving_machine N L th) (st, rs) = stream_next K (resolving_machine N L th) (st1, ?rs)"
    by blast
  moreover have "reached N L \<Gamma> (resolver_scheduler ?rs)"
  proof -
    have "progress_turn N L (resolver_scheduler rs) =
        Break (Inl (Int_Io io)) ((resolver_scheduler rs)\<lparr>client_next := c1\<rparr>)"
      using progress_turn_io [of N "resolver_scheduler rs"] c by (simp add: rs_client_def)
    from reached.fed [OF reached.returned [OF transferred.prems(2) this], of got] show ?thesis
      by (simp add: scheduler_enqueue_input_def rs_put_client_def)
  qed
  ultimately show ?case
    using transferred.hyps(4) [OF transferred.hyps(5), of st1 ?rs] transferred.prems(3) by simp
qed simp

section \<open>On a server that goes through the commands in order\<close>

lemma settle_all_append:
  "settle_all L own (es @ fs) m =
     (case settle_all L own es m of Some m' \<Rightarrow> settle_all L own fs m' | None \<Rightarrow> None)"
  by (induction es arbitrary: m) (auto split: option.split)

lemma settle_waiting:
  assumes "settle L own e (w, a) = Some (w', a')"
  shows "\<exists>P. w' = filter P w"
proof (cases "offered e")
  case True
  from settle_offered [OF assms this] show ?thesis by (intro exI [of _ "\<lambda>_. True"]) simp
next
  case False
  with assms show ?thesis
    by (cases "(L, own, e, w, a)" rule: settle.cases)
      (auto split: if_splits intro: exI [of _ "\<lambda>_. True"])
qed

lemma settle_all_waiting:
  "settle_all L own es (w, a) = Some (w', a') \<Longrightarrow> \<exists>P. w' = filter P w"
proof (induction es arbitrary: w a)
  case Nil
  then show ?case by (intro exI [of _ "\<lambda>_. True"]) simp
next
  case (Cons e es)
  then obtain w1 a1 where "settle L own e (w, a) = Some (w1, a1)"
    and "settle_all L own es (w1, a1) = Some (w', a')"
    by (auto split: option.splits)
  with settle_waiting Cons.IH obtain P Q where "w1 = filter P w" "w' = filter Q w1" by metis
  then show ?case by (intro exI [of _ "\<lambda>x. P x \<and> Q x"]) (auto simp: conj_commute)
qed

lemma settle_alone:
  "between e \<Longrightarrow> settle L own e (w, [(h, tag, t)]) = Some (w, [(h, tag, task_after_event L e t)])"
  by (cases e rule: between.cases)
    (auto simp: task_process_continuation_def default_process_def split: prod.split)

lemma settle_all_alone:
  "\<forall>e \<in> set es. between e \<Longrightarrow>
     settle_all L own es (w, [(h, tag, t)]) = Some (w, [(h, tag, task_after L es t)])"
  by (induction es arbitrary: t) (auto simp: settle_alone task_after_def)

text \<open>The old commands are completed before the new one is sent.\<close>

lemma settle_in_order:
  assumes "settle_all L own (es @ CommandSent h # fs) (w0 @ [(h, own, task)], a0) = Some (w, us @ (h, own, t) # vs)"
    and "settle_all L own es (w0 @ [(h, own, task)], a0) = Some (w1, [])"
    and "h \<notin> entry_handle ` set w0" and "\<forall>e \<in> set fs. between e"
  shows "t = task_after L fs task \<and> us = [] \<and> vs = []"
proof -
  from assms(1,2) have h: "h \<in> entry_handle ` set w1"
    and rest: "settle_all L own fs (filter (\<lambda>x. entry_handle x \<noteq> h) w1, filter (\<lambda>x. entry_handle x = h) w1)
      = Some (w, us @ (h, own, t) # vs)"
    by (auto simp: settle_all_append split: if_splits)
  from settle_all_waiting [OF assms(2)] obtain P where P: "w1 = filter P (w0 @ [(h, own, task)])" by blast
  have "filter (\<lambda>x. entry_handle x = h) w0 = []" using assms(3) by (auto simp: filter_empty_conv)
  then have "filter (\<lambda>x. entry_handle x = h) (w0 @ [(h, own, task)]) = [(h, own, task)]"
    by (simp add: entry_defs)
  then have "filter P [(h, own, task)] = filter (\<lambda>x. entry_handle x = h) w1"
    unfolding P by (metis (no_types, lifting) filter_filter filter_cong conj_commute)
  moreover from h have "filter (\<lambda>x. entry_handle x = h) w1 \<noteq> []" by (auto simp: filter_empty_conv)
  ultimately have "filter (\<lambda>x. entry_handle x = h) w1 = [(h, own, task)]" by (simp split: if_splits)
  with rest settle_all_alone [OF assms(4), of L own _ h own task]
  show ?thesis by (auto simp: Cons_eq_append_conv)
qed

text \<open>C5: Calls after abandoned ones. The client still has tasks of calls whose futures were
  dropped, waiting or active, in any number, when a new call is made. While it is resolved the old commands
  may still be sent and completed and their responses arrive, in any interleaving with those of the new
  command and with I/O. The call returns its own output, that of the responses which no
  older task has taken, drops the outputs of the abandoned calls, and leaves those that are
  not completed yet as they are. On a server that completes the old commands before the new one
  goes out, the output is that of exactly the responses to the new one.\<close>

theorem abandoned_calls_do_not_disturb:
  assumes "reached (env_next E) (env_lib E) \<Gamma> (cl_scheduler self)"
    and "resolver_resolve (env_next E) (env_lib E) task (cs_resolver (cl_state self)) = Ret (th, rs)"
    and "th_handle th \<notin> dom \<Gamma>"
    and "tag = fst (nc_tag_generate (env_next E) (tag_generator (cl_scheduler self)))"
    and "tag \<notin> sched_tags (cl_scheduler self)"
    and "settle_all (env_lib E) tag es
      (waiting_tasks (cl_scheduler self) @ [(th_handle th, tag, task)], active_tasks (cl_scheduler self)) =
        Some (waiting, us @ (th_handle th, tag, t) # vs)"
    and "delivers (env_next E) (env_socket E) (cl_stream self, rs_client rs)
      (es @ [StatusReceived (Status_Tagged tag body)]) (stream, c)"
  shows "client_resolve E task self =
      Ret (Inr (task_process_tagged (env_lib E) t body),
        cl_put stream (rs\<lparr>resolver_scheduler := (resolver_scheduler rs)
          \<lparr>client_next := c, waiting_tasks := waiting, active_tasks := us @ vs\<rparr>\<rparr>) self) \<and>
    (\<forall>old new w. es = old @ CommandSent (th_handle th) # new \<and> (\<forall>e \<in> set new. between e) \<and>
        settle_all (env_lib E) tag old
          (waiting_tasks (cl_scheduler self) @ [(th_handle th, tag, task)], active_tasks (cl_scheduler self)) =
            Some (w, []) \<longrightarrow>
      t = task_after (env_lib E) new task \<and> us @ vs = [])"
proof -
  from assms(2) obtain s where enq: "enqueue_task (env_next E) (env_lib E) task (cl_scheduler self) = Ret (th, s)"
    and rs: "rs = (cs_resolver (cl_state self))\<lparr>resolver_scheduler := s\<rparr>"
    by (auto simp: resolver_resolve_def cl_scheduler_def split: run.splits)
  from reached.enqueued [OF assms(1) enq assms(3)] assms(4,5)
  have r: "reached (env_next E) (env_lib E) (\<Gamma>(th_handle th \<mapsto> th_type th)) (resolver_scheduler rs)"
    by (simp add: rs)
  from resolver_resolve_Ret [OF assms(2)] assms(4) have m: "maps_of rs =
      (waiting_tasks (cl_scheduler self) @ [(th_handle th, tag, task)], active_tasks (cl_scheduler self))"
    by (auto simp: cl_scheduler_def)
  from stream_settles [OF assms(7) refl r, of th waiting us t vs] assms(6) m
  have "client_resolve E task self = Ret (Inr (task_process_tagged (env_lib E) t body),
      cl_put stream (rs_settled c (waiting, us @ vs) rs) self)"
    by (simp add: client_resolve_def assms(2))
  moreover have "th_handle th \<notin> entry_handle ` set (waiting_tasks (cl_scheduler self))"
    using sched_typed_handles [of \<Gamma> "cl_scheduler self"] reached_invariant [OF assms(1)] assms(3)
    by (auto simp: sched_handles_def sched_entries_def)
  ultimately show ?thesis
    using settle_in_order [of "env_lib E" tag _ "th_handle th" _ "waiting_tasks (cl_scheduler self)" task
        "active_tasks (cl_scheduler self)" waiting us t vs] assms(6)
    by (auto simp: rs_settled_def)
qed

text \<open>A SEARCH is abandoned before it is sent; an EXPUNGE follows.\<close>

definition demo_old :: "nat event list" where
  "demo_old =
     [CommandSent 0, DataReceived (Data_Search [Abs_nonzero 7] 0), StatusReceived (Status_Tagged ''0'' (ok_body None 0))]"

definition demo_new :: "nat event list" where
  "demo_new = [DataReceived (Data_Expunge (Abs_nonzero 3)), DataReceived (Data_Exists 2)]"

definition demo_abandoned_events :: "nat event list" where
  "demo_abandoned_events = demo_old @ CommandSent 1 # demo_new"

definition demo_abandoned_env :: "(nat, nat script, nat, bytes list) env" where
  "demo_abandoned_env = \<lparr>env_next = script_client, env_lib = example_lib, env_socket = script_socket\<rparr>"

definition demo_abandoned :: "(nat, nat script, nat, bytes list) client" where
  "demo_abandoned =
     \<lparr>cl_host = ''localhost'',
      cl_state = (client_state_new script_client (script []))\<lparr>cs_resolver := \<lparr>resolver_scheduler =
        demo (map Inr (demo_abandoned_events @ [StatusReceived (Status_Tagged ''1'' (ok_body None 0))]))\<rparr>\<rparr>,
      cl_stream = stream_new []\<rparr>"

lemma script_delivers:
  "sc_results c = map Inr es \<Longrightarrow> delivers script_client K (st, c) es (st, c\<lparr>sc_results := []\<rparr>)"
proof (induction es arbitrary: c)
  case Nil
  then have "c\<lparr>sc_results := []\<rparr> = c" by simp
  then show ?case by (simp add: delivers.finished)
next
  case (Cons e es)
  have "nc_next script_client c = (Inr e, c\<lparr>sc_results := map Inr es\<rparr>)"
    using Cons.prems by (simp add: script_client_def)
  with Cons.IH [of "c\<lparr>sc_results := map Inr es\<rparr>"] show ?case by (auto intro: delivers.reported)
qed

lemma abandoned_calls_do_not_disturb_witness:
  "\<exists>self'. client_resolve demo_abandoned_env (T_Expunge expunge_task_new) demo_abandoned =
     Ret (Inr (Out_Ids (Inr [Abs_nonzero 3])), self')"
proof -
  let ?E = demo_abandoned_env and ?task = "T_Expunge expunge_task_new :: nat task"
  let ?s = "cl_scheduler demo_abandoned" and ?body = "ok_body None (0::nat)"
  let ?own = "T_Expunge (expunge_task_new\<lparr>expunge_output := [Abs_nonzero 3]\<rparr>)"
  have s: "?s = demo (map Inr (demo_abandoned_events @ [StatusReceived (Status_Tagged ''1'' ?body)]))"
    by (simp add: cl_scheduler_def demo_abandoned_def)
  have r: "reached (env_next ?E) (env_lib ?E) [0 \<mapsto> Ty_Ids] ?s"
    by (simp add: s demo_abandoned_env_def demo_reached)
  have "\<exists>th rs. resolver_resolve (env_next ?E) (env_lib ?E) ?task (cs_resolver (cl_state demo_abandoned)) = Ret (th, rs) \<and>
      th_handle th = 1 \<and> sc_results (rs_client rs) =
        map Inr (demo_abandoned_events @ [StatusReceived (Status_Tagged ''1'' ?body)])"
    by (simp add: demo_abandoned_def demo_abandoned_env_def demo_client_simps demo_defs rs_client_def)
  then obtain th rs where res: "resolver_resolve (env_next ?E) (env_lib ?E) ?task
        (cs_resolver (cl_state demo_abandoned)) = Ret (th, rs)"
    and th: "th_handle th = 1"
    and script: "sc_results (rs_client rs) = map Inr (demo_abandoned_events @ [StatusReceived (Status_Tagged ''1'' ?body)])"
    by blast
  have tag: "''1'' = fst (nc_tag_generate (env_next ?E) (tag_generator ?s))" "''1'' \<notin> sched_tags ?s"
    by (simp_all add: s demo_defs demo_abandoned_env_def script_defs decimal_1 sched_tags_def sched_entries_def entry_defs)
  have settled: "settle_all (env_lib ?E) ''1'' demo_abandoned_events
      (waiting_tasks ?s @ [(th_handle th, ''1'', ?task)], active_tasks ?s) = Some ([], [] @ (th_handle th, ''1'', ?own) # [])"
    by (simp add: s th demo_defs demo_abandoned_env_def demo_abandoned_events_def demo_old_def demo_new_def entry_defs
        task_simps reboxed_def expunge_task_new_def search_task_new_def search_task_default_def)
  have "delivers (env_next ?E) (env_socket ?E) (cl_stream demo_abandoned, rs_client rs)
      (demo_abandoned_events @ [StatusReceived (Status_Tagged ''1'' ?body)])
      (cl_stream demo_abandoned, (rs_client rs)\<lparr>sc_results := []\<rparr>)"
    using script_delivers [OF script] by (simp add: demo_abandoned_env_def)
  from abandoned_calls_do_not_disturb [OF r res _ tag settled this] th show ?thesis
    by (simp add: task_simps)
qed

end
