(* ===== verification/Spec2Isabelle.thy ===== *)
theory Spec2Isabelle
  imports Sort_Theorems Connect_Theorems Idle_Theorems Task_Props Scheduler_Life Scheduler_Pipeline
    Client_Api Example_Theorems Fetch_Run Client_Abandoned
begin

text \<open>
  \<^bold>\<open>The IMAP client, modelled and verified.\<close>

  The library (\<open>src/\<close>) is an IMAP client in Rust in five layers. Tasks (\<open>src/tasks/tasks/\<close>) know
  one command each and collect its responses. The scheduler (\<open>src/tasks/mod.rs\<close>) tags and
  enqueues their commands in the sans-I/O client of imap-next and hands its events to them. The
  resolver (\<open>src/tasks/resolver.rs\<close>) runs one task to its output. The stream
  (\<open>src/stream.rs\<close>) does the I/O that imap-next asks for. The asynchronous client
  (\<open>src/client/tokio.rs\<close>, state in \<open>src/client/mod.rs\<close>, pinned certificates in
  \<open>src/client/verifier.rs\<close>) connects, and has one method per command and some that combine commands.

  \<^bold>\<open>Theories\<close>, from the bottom up:

  \<^item> \<open>Prelude\<close>: what a Rust computation can do (\<open>Ret\<close>, \<open>Panic\<close>, \<open>Diverge\<close>), the \<open>loop\<close> construct
    (\<open>rust_loop\<close> over turns that \<open>Continue\<close> or \<open>Break\<close>) with its rules, non-zero integers, the
    list operations of the standard library. \<open>Containers\<close>: hash maps and sets whose iteration order is arbitrary.
  \<^item> \<open>Imap_Types\<close>: the values of imap-types and imap-next that the code takes apart or builds. What
    it only passes on is the type parameter \<open>'v\<close>; the functions of these crates that it calls are
    the records \<open>next_client\<close> and \<open>lib\<close>, arguments of the model.
  \<^item> \<open>Task_Trait\<close>, \<open>Tasks_Basic\<close>, \<open>Tasks_Session\<close>, \<open>Tasks_Append\<close>, \<open>Tasks_Search\<close>, \<open>Tasks_Select\<close>,
    \<open>Tasks_Fetch\<close>: every task, one record and one definition per method. \<open>Task_Any\<close>: the trait
    objects, one datatype over all tasks. \<open>Task_Props\<close>: what a task reports after any exchange.
  \<^item> \<open>Task_Map\<close>, \<open>Scheduler\<close>: the task queue and the whole of \<open>progress\<close>. \<open>Scheduler_Inv\<close>: an abstract
    step relation on the tasks that \<open>progress\<close> refines; \<open>Scheduler_Props\<close>, \<open>Scheduler_Events\<close>,
    \<open>Scheduler_Theorems\<close>: invariants of the reachable schedulers, conservation of tasks, types of
    outputs, panics, termination. \<open>Scheduler_Life\<close>: the life of every task along any history.
    \<open>Scheduler_Pipeline\<close>: several commands in flight, against a reference that lets one task after
    the other go through all the responses.
  \<^item> \<open>Resolver\<close>, \<open>Resolver_Theorems\<close>: one task run to its end.
  \<^item> \<open>Stream_IO\<close>, \<open>Stream_Theorems\<close>: the I/O loop over any socket and machine, and that it is a faithful
    transport within its buffer.
  \<^item> \<open>Verifier\<close>, \<open>Client_State\<close>: the certificate check and the client's state.
  \<^item> \<open>Client_Core\<close>, \<open>Client_Ops\<close>, \<open>Client_High\<close>, \<open>Fetch_Order\<close>, \<open>Client_Idle\<close>, \<open>Client_Connect\<close>: the
    asynchronous client. A method is a function from the client to a result and the client; a \<open>?\<close> is
    \<open>op_bind\<close>.
  \<^item> \<open>Client_Run\<close>, \<open>Client_Log\<close>: a task's run with I/O in between, and the commands a method issues, by
    a log beside imap-next. \<open>Client_Theorems\<close>, \<open>Sort_Theorems\<close>, \<open>Connect_Theorems\<close>, \<open>Idle_Theorems\<close>:
    the properties of the methods. \<open>Client_Api\<close>: the contract of the methods that stand for one
    command (\<open>call_command\<close> says what has to go out for a call) and that they keep it.
    \<open>Fetch_Run\<close>: a UID FETCH from the responses to the map by UID.
    \<open>Client_Abandoned\<close>: calls made while the tasks of calls that were given up are still in flight.
  \<^item> \<open>Example_Programs\<close>, \<open>Example_Theorems\<close>: the programs of \<open>examples/\<close>, from their arguments to the
    lines they print, with the parsing of numbers and UTF-8 they use.
  \<^item> This theory: a task from the call to its output through all the layers, and the histories that
    end in a panic.

  \<^bold>\<open>Interfaces\<close> are locales: the table behind hash maps, the look-up by handle and by tag in the
  task queue, the log of commands (interpreted on every logged imap-next), the invariant of a
  socket (interpreted on the TLS socket). Their lemmas are proved once and reach the properties
  through the interpretations on the model's own definitions.

  \<^bold>\<open>Bounds.\<close> No loop has fuel. A loop that need not end has the outcome \<open>Diverge\<close>, as has a future that is never
  ready; the conditions under which \<open>progress\<close> and \<open>resolve\<close> return are theorems
  (\<open>progress_returns\<close>, \<open>client_resolves_task\<close>). Integers have the width of the source. The
  buffer of the stream has its 1024 bytes, and the chunks of a sort at most 255 ids.

  \<^bold>\<open>Hypotheses about other code\<close> are named where they are used: that handles and tags are fresh
  (\<open>reached\<close>), that a read returns no more than fits the buffer (\<open>socket_documented\<close>), which events
  imap-next reports (\<open>delivers\<close>, \<open>emits\<close>, and in one word for a whole exchange \<open>answered\<close>), that a new client of imap-next has issued no command.

  \<^bold>\<open>Not modelled.\<close> Logging and the text of errors; imap-next, imap-types, tokio, rustls,
  the STARTTLS prefix, PEM parsing and SHA-256, which are parameters; the futures tokio makes of the polls of a
  socket, which the model takes as operations that run to their end; tasks defined outside the
  crate; the tests, which assert at compile time that types are \<open>Send\<close>. \<open>Client::tls\<close>, which
  \<open>examples/fetch.rs\<close> calls, does not exist in the repository and is a parameter of that program.
\<close>

section \<open>A task from the call to its output\<close>

text \<open>C4: \<open>resolve\<close>, end to end. A task is handed to a client with no command in flight, imap-next
  reports that its command was sent, then any number of data, untagged statuses, stray
  continuation requests or greetings, then the completion with its tag, and in between, anywhere,
  the stream writes and reads for it. The client returns the output the task computes from
  exactly these responses; the task is gone, the tasks that waited before still wait, and
  of the rest of the client nothing has changed.\<close>

theorem client_resolves_task:
  assumes "resolver_resolve (env_next E) (env_lib E) task (cs_resolver (cl_state self)) = Ret (th, rs)"
    and "active_tasks (cl_scheduler self) = []"
    and "th_handle th \<notin> entry_handle ` set (waiting_tasks (cl_scheduler self))"
    and "tag = fst (nc_tag_generate (env_next E) (tag_generator (cl_scheduler self)))"
    and "\<forall>e \<in> set es. between e"
    and "delivers (env_next E) (env_socket E) (cl_stream self, rs_client rs)
      (CommandSent (th_handle th) # es @ [StatusReceived (Status_Tagged tag body)]) (stream, c)"
  shows "client_resolve E task self =
    Ret (Inr (task_process_tagged (env_lib E) (task_after (env_lib E) es task) body),
      cl_put stream (rs\<lparr>resolver_scheduler := (resolver_scheduler rs)\<lparr>waiting_tasks := waiting_tasks (cl_scheduler self),
        client_next := c, active_tasks := []\<rparr>\<rparr>) self)"
proof -
  from assms have "answered E task self es body (cl_put stream (rs\<lparr>resolver_scheduler :=
      (resolver_scheduler rs)\<lparr>waiting_tasks := waiting_tasks (cl_scheduler self),
        client_next := c, active_tasks := []\<rparr>\<rparr>) self)"
    unfolding answered_def by blast
  then show ?thesis by (rule client_resolve_answered)
qed

text \<open>A SEARCH, with a read between its response and its completion.\<close>

definition demo_search_events :: "(nat next_error interrupt + nat event) list" where
  "demo_search_events =
     [Inr (CommandSent 0), Inr (DataReceived (Data_Search [Abs_nonzero 7] 0)), Inl (Int_Io Io_NeedMoreInput),
      Inr (StatusReceived (Status_Tagged ''0'' (ok_body None 0)))]"

definition demo_online :: "(nat, nat script \<times> nat command list, nat, bytes list) client" where
  "demo_online = (demo_client [] demo_search_events)\<lparr>cl_stream := stream_new [''ab'']\<rparr>"

lemma client_resolves_task_witness:
  "\<exists>self'. client_resolve demo_env (T_Search (search_task_new [Key_All])) demo_online =
     Ret (Inr (Out_Ids (Inr [Abs_nonzero 7])), self')"
proof -
  let ?task = "T_Search (search_task_new [Key_All]) :: nat task"
  let ?es = "[DataReceived (Data_Search [Abs_nonzero 7] 0)]"
  let ?cmd = "\<lparr>cmd_tag = ''0'', cmd_body = Cmd_Search None [Key_All] True\<rparr>"
  let ?c = "((script demo_search_events)\<lparr>sc_next_handle := 1, sc_commands := [?cmd]\<rparr>, [?cmd])"
  let ?rs = "\<lparr>resolver_scheduler = \<lparr>client_next = ?c, waiting_tasks = [(0, ''0'', ?task)],
    active_tasks = [], tag_generator = 1 :: nat\<rparr>\<rparr>"
  have res: "resolver_resolve (env_next demo_env) (env_lib demo_env) ?task (cs_resolver (cl_state demo_online)) =
      Ret (demo_handle, ?rs)"
    by (simp add: demo_online_def demo_handle_def demo_client_simps demo_task_simps)
  have "\<exists>y. delivers (logged script_client) script_socket (stream_new [''ab''], ?c)
      (CommandSent 0 # ?es @ [StatusReceived (Status_Tagged ''0'' (ok_body None 0))]) y"
    unfolding demo_search_events_def append_Cons append_Nil
    by (rule exI, rule delivers.reported, simp add: logged_def script_defs,
        rule delivers.reported, simp add: logged_def script_defs,
        rule delivers.transferred, simp add: logged_def script_defs,
        simp add: stream_io_def stream_input_def stream_new_def script_socket_def,
        rule delivers.reported, simp add: logged_def script_defs, rule delivers.finished)
  then obtain st c' where "delivers (env_next demo_env) (env_socket demo_env) (cl_stream demo_online, rs_client ?rs)
      (CommandSent (th_handle demo_handle) # ?es @ [StatusReceived (Status_Tagged ''0'' (ok_body None 0))]) (st, c')"
    by (auto simp: demo_env_def demo_online_def demo_client_def rs_client_def demo_handle_def)
  moreover have "task_process_tagged (env_lib demo_env) (task_after (env_lib demo_env) ?es ?task) (ok_body None 0) =
      Out_Ids (Inr [Abs_nonzero 7])"
    by (simp add: task_after_def task_simps search_task_new_def)
  moreover have "active_tasks (cl_scheduler demo_online) = []" "waiting_tasks (cl_scheduler demo_online) = []"
    "fst (nc_tag_generate (env_next demo_env) (tag_generator (cl_scheduler demo_online))) = ''0''"
    by (simp_all add: demo_online_def cl_scheduler_def demo_client_simps)
  ultimately show ?thesis
    using client_resolves_task [OF res, where tag = "''0''" and es = ?es and body = "ok_body None 0"]
    by (auto simp: demo_handle_def)
qed

section \<open>Commands the scheduler is not prepared for\<close>

text \<open>C8: Two histories end in a panic although the comments at the code rule them out. A command that
  the server refuses before it was sent whole, as it may refuse a literal, still waits, and
  the scheduler looks for it among the active tasks; and an IDLE that \<open>enqueue_idle\<close> handed to imap-next
  belongs to no task, so when anything but the IDLE methods reads its events, the scheduler
  does not find it.\<close>

theorem unprepared_commands_panic:
  assumes "reached (env_next E) (env_lib E) \<Gamma> (cl_scheduler self)"
  shows "((h, tag, t) \<in> set (waiting_tasks (cl_scheduler self)) \<and>
        nc_next (env_next E) (client_next (cl_scheduler self)) = (Inr (CommandRejected h status), c)
      \<longrightarrow> progress (env_next E) (env_lib E) (cl_scheduler self) = Panic) \<and>
    (enqueue_idle E self = (idle_tag, self') \<and> h \<notin> sched_handles (cl_scheduler self) \<and>
        nc_next (env_next E) (client_next (cl_scheduler self')) = (Inr (IdleCommandSent h), c)
      \<longrightarrow> progress (env_next E) (env_lib E) (cl_scheduler self') = Panic)"
proof -
  let ?N = "env_next E" and ?L = "env_lib E"
  have panic: "progress ?N ?L s = Panic"
    if "nc_next ?N (client_next s) = (Inr e, c)" "\<not> event_expected ?N e (s\<lparr>client_next := c\<rparr>)" for e s
    using that handle_event_panics [of ?N ?L e "s\<lparr>client_next := c\<rparr>"] progress_turn_event [OF that(1), of ?L]
    by (simp add: progress_def run_simps)
  have "\<not> is_active h (cl_scheduler self)" if "(h, tag, t) \<in> set (waiting_tasks (cl_scheduler self))"
    using that reached_invariant [OF assms]
    by (force simp: sched_wf_def sched_entries_def is_active_def entry_defs)
  moreover have "\<not> is_waiting h (cl_scheduler self')"
    if "enqueue_idle E self = (idle_tag, self')" "h \<notin> sched_handles (cl_scheduler self)"
    using that by (auto simp: enqueue_idle_def cl_scheduler_def cl_put_scheduler_def is_waiting_def
        sched_handles_def sched_entries_def split: prod.splits)
  ultimately show ?thesis
    using panic [of "cl_scheduler self" "CommandRejected h status"]
      panic [of "cl_scheduler self'" "IdleCommandSent h"]
    by (auto simp: is_active_def is_waiting_def)
qed

lemma unprepared_commands_panic_witness:
  "progress script_client example_lib (demo [Inr (CommandRejected 0 (Status_Tagged ''0'' no_body))]) = Panic"
proof -
  let ?E = "\<lparr>env_next = script_client, env_lib = example_lib, env_socket = script_socket\<rparr>"
  let ?s = "demo [Inr (CommandRejected 0 (Status_Tagged ''0'' no_body))]"
  let ?self = "\<lparr>cl_host = ''host'',
    cl_state = (client_state_new script_client (script []))\<lparr>cs_resolver := \<lparr>resolver_scheduler = ?s\<rparr>\<rparr>,
    cl_stream = stream_new []\<rparr>"
  have "reached (env_next ?E) (env_lib ?E) [0 \<mapsto> Ty_Ids] (cl_scheduler ?self)"
    by (simp add: cl_scheduler_def demo_reached)
  from unprepared_commands_panic [OF this, of 0 "''0''" demo_task]
  show ?thesis by (simp add: cl_scheduler_def demo_defs script_defs)
qed

end
